theory Spec2Isabelle
  imports Complex_Main "HOL-Library.Word" "HOL-Library.Multiset" "HOL-Library.AList"
begin

section \<open>Preparing the data\<close>

text \<open>
  The notebook \<^verbatim>\<open>wide_deep_cross_networks.ipynb\<close> reads the Covertype table with
  \<^verbatim>\<open>pd.read_csv(data_url, header=None)\<close>. With \<^verbatim>\<open>header=None\<close> the columns are labelled
  \<open>0, 1, 2, ...\<close> and the rows \<open>0, 1, 2, ...\<close>. Every column of the file holds integers,
  which pandas stores as 64-bit integers; their arithmetic wraps around. A raw frame is
  modelled as the list of its rows, each row the list of its cells in column order.
\<close>

type_synonym int64 = "64 word"

datatype error = IndexError | KeyError | ValueError | TypeError | InvalidArgumentError | NotImplementedError

definition data_url :: string where
  "data_url = ''https://archive.ics.uci.edu/ml/machine-learning-databases/covtype/covtype.data.gz''"

text \<open>Running a fallible function over a list stops at the first failure, as an
  exception raised inside a loop does.\<close>

fun traverse :: "('a \<Rightarrow> error + 'b) \<Rightarrow> 'a list \<Rightarrow> error + 'b list" where
  "traverse f [] = Inr []"
| "traverse f (x # xs) =
     (case f x of
        Inl e \<Rightarrow> Inl e
      | Inr y \<Rightarrow> (case traverse f xs of Inl e \<Rightarrow> Inl e | Inr ys \<Rightarrow> Inr (y # ys)))"

text \<open>Python's \<^verbatim>\<open>str\<close> of a non-negative integer, used by the f-strings that name
  the categories.\<close>

definition digit :: "nat \<Rightarrow> char" where
  "digit d = ''0123456789'' ! d"

function str_nat :: "nat \<Rightarrow> string" where
  "str_nat n = (if n < 10 then [digit n] else str_nat (n div 10) @ [digit (n mod 10)])"
  by pat_completeness auto
termination
  by (relation "measure id") auto

declare str_nat.simps [simp del]

definition soil_type_values :: "string list" where
  "soil_type_values = map (\<lambda>idx. ''soil_type_'' @ str_nat (idx + 1)) [0..<40]"

definition wilderness_area_values :: "string list" where
  "wilderness_area_values = map (\<lambda>idx. ''area_type_'' @ str_nat (idx + 1)) [0..<4]"

text \<open>Indexing a Python list or a numpy array with a non-negative index.\<close>

definition getitem :: "'a list \<Rightarrow> nat \<Rightarrow> error + 'a" where
  "getitem xs i = (if i < length xs then Inr (xs ! i) else Inl IndexError)"

text \<open>\<^verbatim>\<open>x.to_numpy().nonzero()[0]\<close>: the positions of the nonzero entries, ascending.\<close>

definition nonzero :: "int64 list \<Rightarrow> nat list" where
  "nonzero x = filter (\<lambda>i. x ! i \<noteq> 0) [0..<length x]"

text \<open>The two row functions of the notebook,
  \<^verbatim>\<open>lambda x: soil_type_values[0::1][x.to_numpy().nonzero()[0][0]]\<close> and its twin for the
  wilderness areas, differ in the list of names only. The slice \<^verbatim>\<open>[0::1]\<close> copies the
  list from position 0 with step 1.\<close>

definition decode_block :: "string list \<Rightarrow> int64 list \<Rightarrow> error + string" where
  "decode_block values x =
     (case getitem (nonzero x) 0 of
        Inl e \<Rightarrow> Inl e
      | Inr i \<Rightarrow> getitem (drop 0 values) i)"

text \<open>\<^verbatim>\<open>raw_data.loc[:, a:b]\<close> selects the columns labelled \<open>a\<close> to \<open>b\<close>, both ends
  included, and is clipped to the columns that exist. \<^verbatim>\<open>raw_data.loc[:, c]\<close> selects one
  column and raises \<^verbatim>\<open>KeyError\<close> when the frame has no column \<open>c\<close>.\<close>

definition loc_cols :: "nat \<Rightarrow> nat \<Rightarrow> 'a list \<Rightarrow> 'a list" where
  "loc_cols a b row = take (b + 1 - a) (drop a row)"

definition loc_col :: "nat \<Rightarrow> 'a list \<Rightarrow> error + 'a" where
  "loc_col c row = (if c < length row then Inr (row ! c) else Inl KeyError)"

datatype cell = IntV int64 | StrV string

text \<open>\<^verbatim>\<open>frame.apply(f, axis=1)\<close> calls \<open>f\<close> on every row and collects the results in a
  column. On a frame without columns pandas does not call \<open>f\<close> on the rows and returns
  the frame as it is.\<close>

definition apply_axis1 :: "(int64 list \<Rightarrow> error + string) \<Rightarrow> int64 list list \<Rightarrow> error + cell list list" where
  "apply_axis1 f frame =
     (if list_all (\<lambda>row. row = []) frame then Inr (map (\<lambda>row. []) frame)
      else traverse (\<lambda>row. case f row of Inl e \<Rightarrow> Inl e | Inr s \<Rightarrow> Inr [StrV s]) frame)"

definition CSV_HEADER :: "string list" where
  "CSV_HEADER =
     [''Elevation'', ''Aspect'', ''Slope'', ''Horizontal_Distance_To_Hydrology'',
      ''Vertical_Distance_To_Hydrology'', ''Horizontal_Distance_To_Roadways'',
      ''Hillshade_9am'', ''Hillshade_Noon'', ''Hillshade_3pm'',
      ''Horizontal_Distance_To_Fire_Points'', ''Wilderness_Area'', ''Soil_Type'',
      ''Cover_Type'']"

text \<open>A data frame: the column names, and the rows, each with its index label.\<close>

record dataframe =
  columns :: "string list"
  rows :: "(nat \<times> cell list) list"


text \<open>\<^verbatim>\<open>pd.concat(parts, axis=1, ignore_index=True)\<close> of parts that share the row labels
  \<open>0..n-1\<close> puts the cells of each row side by side and labels the columns
  \<open>0, 1, 2, ...\<close>.\<close>

definition concat_axis1 :: "nat \<Rightarrow> cell list list list \<Rightarrow> (nat \<times> cell list) list" where
  "concat_axis1 n parts = map (\<lambda>i. (i, concat (map (\<lambda>part. part ! i) parts))) [0..<n]"

text \<open>\<^verbatim>\<open>data.columns = names\<close> raises \<^verbatim>\<open>ValueError\<close> unless there are as many names as
  columns.\<close>

definition set_columns :: "string list \<Rightarrow> (nat \<times> cell list) list \<Rightarrow> error + dataframe" where
  "set_columns names rs =
     (if list_all (\<lambda>(i, row). length row = length names) rs
      then Inr \<lparr>columns = names, rows = rs\<rparr> else Inl ValueError)"

text \<open>The first position of a value in a list.\<close>

fun find_index_of :: "'a \<Rightarrow> 'a list \<Rightarrow> nat option" where
  "find_index_of name [] = None"
| "find_index_of name (c # cs) =
     (if c = name then Some 0 else map_option Suc (find_index_of name cs))"

text \<open>\<^verbatim>\<open>data[name] = data[name] - 1\<close>: the column is read (\<^verbatim>\<open>KeyError\<close> when it is
  missing), 1 is subtracted from every cell in 64-bit arithmetic (\<^verbatim>\<open>TypeError\<close> on a
  string), and the column is stored again.\<close>

definition minus_one :: "cell \<Rightarrow> error + cell" where
  "minus_one c = (case c of IntV v \<Rightarrow> Inr (IntV (v - 1)) | StrV s \<Rightarrow> Inl TypeError)"

definition update_row :: "nat \<Rightarrow> nat \<times> cell list \<Rightarrow> error + nat \<times> cell list" where
  "update_row k r =
     (case minus_one (snd r ! k) of
        Inl e \<Rightarrow> Inl e
      | Inr c \<Rightarrow> Inr (fst r, (snd r)[k := c]))"

definition column_minus_one :: "string \<Rightarrow> dataframe \<Rightarrow> error + dataframe" where
  "column_minus_one name df =
     (case find_index_of name (columns df) of
        None \<Rightarrow> Inl KeyError
      | Some k \<Rightarrow>
          (case traverse (update_row k) (rows df) of
             Inl e \<Rightarrow> Inl e
           | Inr rs \<Rightarrow> Inr (df\<lparr>rows := rs\<rparr>)))"

text \<open>The reshaping cell of the notebook, statement by statement: \<^verbatim>\<open>soil_type\<close>, then
  \<^verbatim>\<open>wilderness_area\<close>, then the concatenation with the numeric columns and the label
  column, the renaming of the columns, and the shift of the label.\<close>

definition reshape :: "int64 list list \<Rightarrow> error + dataframe" where
  "reshape raw_data =
     (case apply_axis1 (decode_block soil_type_values) (map (loc_cols 14 53) raw_data) of
        Inl e \<Rightarrow> Inl e
      | Inr soil_type \<Rightarrow>
     (case apply_axis1 (decode_block wilderness_area_values) (map (loc_cols 10 13) raw_data) of
        Inl e \<Rightarrow> Inl e
      | Inr wilderness_area \<Rightarrow>
     (case traverse (loc_col 54) raw_data of
        Inl e \<Rightarrow> Inl e
      | Inr label \<Rightarrow>
     (case set_columns CSV_HEADER
             (concat_axis1 (length raw_data)
                [map (\<lambda>row. map IntV (loc_cols 0 9 row)) raw_data,
                 wilderness_area, soil_type, map (\<lambda>v. [IntV v]) label]) of
        Inl e \<Rightarrow> Inl e
      | Inr data \<Rightarrow> column_minus_one ''Cover_Type'' data))))"

section \<open>Splitting the data\<close>

text \<open>\<^verbatim>\<open>data[name]\<close>: the cells of a column, \<^verbatim>\<open>KeyError\<close> when there is no such column.
  Every row of a frame has one cell for each column.\<close>

definition column :: "string \<Rightarrow> dataframe \<Rightarrow> error + cell list" where
  "column name df =
     (case find_index_of name (columns df) of
        None \<Rightarrow> Inl KeyError
      | Some k \<Rightarrow> Inr (map (\<lambda>r. snd r ! k) (rows df)))"

text \<open>\<^verbatim>\<open>data.groupby(name)\<close>, iterated: one group for each distinct key, the keys
  ascending, the rows of a group in the order and with the index labels they have in the
  frame. The notebook groups by the integer column \<^verbatim>\<open>Cover_Type\<close> only, and this is what
  is modelled: a key column that holds a string is reported as \<^verbatim>\<open>TypeError\<close>.\<close>

definition int_cell :: "cell \<Rightarrow> error + int64" where
  "int_cell c = (case c of IntV v \<Rightarrow> Inr v | StrV s \<Rightarrow> Inl TypeError)"

definition groupby :: "string \<Rightarrow> dataframe \<Rightarrow> error + (int64 \<times> (nat \<times> cell list) list) list" where
  "groupby name df =
     (case find_index_of name (columns df) of
        None \<Rightarrow> Inl KeyError
      | Some k \<Rightarrow>
          (case traverse (\<lambda>r. int_cell (snd r ! k)) (rows df) of
             Inl e \<Rightarrow> Inl e
           | Inr keys \<Rightarrow>
               Inr (map (\<lambda>key. (key, filter (\<lambda>r. snd r ! k = IntV key) (rows df)))
                      (sort_key sint (remdups keys)))))"

text \<open>\<^verbatim>\<open>frame[mask]\<close> keeps the rows whose entry in the Boolean mask is true.\<close>

definition boolean_mask :: "bool list \<Rightarrow> 'a list \<Rightarrow> 'a list" where
  "boolean_mask selection xs = map snd (filter fst (zip selection xs))"

text \<open>\<^verbatim>\<open>np.random.rand(n) <= 0.85\<close>. The random numbers are an input of the model:
  \<open>rand g i\<close> is number \<open>i\<close> of the array that call \<open>g\<close> of \<^verbatim>\<open>np.random.rand\<close> returns.\<close>

definition random_selection :: "(nat \<Rightarrow> nat \<Rightarrow> real) \<Rightarrow> nat \<Rightarrow> nat \<Rightarrow> bool list" where
  "random_selection rand g n = map (\<lambda>i. rand g i \<le> 0.85) [0..<n]"

text \<open>The numbers that \<^verbatim>\<open>np.random.rand\<close> can return: it draws 53 random bits \<open>k\<close> and
  returns \<open>k / 2\<^sup>5\<^sup>3\<close>, so each multiple of \<open>2\<^sup>-\<^sup>5\<^sup>3\<close> below 1 is as likely as any other.\<close>

definition rand_values :: "real set" where
  "rand_values = (\<lambda>k. real k / 2 ^ 53) ` {..<2 ^ 53}"

text \<open>The loop over the groups; \<open>g\<close> counts the iterations.\<close>

fun split_loop :: "(nat \<Rightarrow> nat \<Rightarrow> real) \<Rightarrow> nat \<Rightarrow> (int64 \<times> (nat \<times> cell list) list) list \<Rightarrow>
    (nat \<times> cell list) list list \<times> (nat \<times> cell list) list list \<Rightarrow>
    (nat \<times> cell list) list list \<times> (nat \<times> cell list) list list" where
  "split_loop rand g [] (train_splits, test_splits) = (train_splits, test_splits)"
| "split_loop rand g ((key, group_data) # groups) (train_splits, test_splits) =
     split_loop rand (Suc g) groups
       (train_splits @ [boolean_mask (random_selection rand g (length group_data)) group_data],
        test_splits @ [boolean_mask (map Not (random_selection rand g (length group_data))) group_data])"

definition split_groups :: "(nat \<Rightarrow> nat \<Rightarrow> real) \<Rightarrow> dataframe \<Rightarrow>
    error + (nat \<times> cell list) list list \<times> (nat \<times> cell list) list list" where
  "split_groups rand data =
     (case groupby ''Cover_Type'' data of
        Inl e \<Rightarrow> Inl e
      | Inr groups \<Rightarrow> Inr (split_loop rand 0 groups ([], [])))"

text \<open>\<^verbatim>\<open>pd.concat(frames)\<close> puts the rows of the frames one after the other, with their
  index labels, and raises \<^verbatim>\<open>ValueError\<close> when there is no frame.
  \<^verbatim>\<open>.sample(frac=1)\<close> returns all the rows in a random order; the order is an input of the
  model, a function \<open>sample\<close> that permutes a list. \<^verbatim>\<open>.reset_index(drop=True)\<close> labels the
  rows \<open>0, 1, 2, ...\<close> again.\<close>

definition pd_concat :: "'a list list \<Rightarrow> error + 'a list" where
  "pd_concat frames = (if frames = [] then Inl ValueError else Inr (concat frames))"

definition reset_index :: "(nat \<times> cell list) list \<Rightarrow> (nat \<times> cell list) list" where
  "reset_index rs = zip [0..<length rs] (map snd rs)"

definition split_data :: "(nat \<Rightarrow> nat \<Rightarrow> real) \<Rightarrow>
    ((nat \<times> cell list) list \<Rightarrow> (nat \<times> cell list) list) \<Rightarrow>
    ((nat \<times> cell list) list \<Rightarrow> (nat \<times> cell list) list) \<Rightarrow>
    dataframe \<Rightarrow> error + dataframe \<times> dataframe" where
  "split_data rand sample_train sample_test data =
     (case split_groups rand data of
        Inl e \<Rightarrow> Inl e
      | Inr (train_splits, test_splits) \<Rightarrow>
     (case pd_concat train_splits of
        Inl e \<Rightarrow> Inl e
      | Inr train_rows \<Rightarrow>
     (case pd_concat test_splits of
        Inl e \<Rightarrow> Inl e
      | Inr test_rows \<Rightarrow>
          Inr (data\<lparr>rows := reset_index (sample_train train_rows)\<rparr>,
               data\<lparr>rows := reset_index (sample_test test_rows)\<rparr>))))"

section \<open>The metadata of the data set\<close>

text \<open>\<^verbatim>\<open>Series.unique()\<close>: the distinct values, in the order of their first appearance.\<close>

fun unique :: "'a list \<Rightarrow> 'a list" where
  "unique [] = []"
| "unique (x # xs) = x # unique (filter (\<lambda>y. y \<noteq> x) xs)"

text \<open>The dictionary \<^verbatim>\<open>CATEGORICAL_FEATURES_WITH_VOCABULARY\<close>, in the order of its keys.
  It is computed from \<^verbatim>\<open>data\<close>, the whole reshaped table.\<close>

definition CATEGORICAL_FEATURES_WITH_VOCABULARY :: "dataframe \<Rightarrow> error + (string \<times> cell list) list" where
  "CATEGORICAL_FEATURES_WITH_VOCABULARY data =
     (case column ''Soil_Type'' data of
        Inl e \<Rightarrow> Inl e
      | Inr soil \<Rightarrow>
     (case column ''Wilderness_Area'' data of
        Inl e \<Rightarrow> Inl e
      | Inr area \<Rightarrow>
          Inr [(''Soil_Type'', unique soil), (''Wilderness_Area'', unique area)]))"

definition TARGET_FEATURE_NAME :: string where
  "TARGET_FEATURE_NAME = ''Cover_Type''"

definition TARGET_FEATURE_LABELS :: "string list" where
  "TARGET_FEATURE_LABELS = [''0'', ''1'', ''2'', ''3'', ''4'', ''5'', ''6'']"

definition NUMERIC_FEATURE_NAMES :: "string list" where
  "NUMERIC_FEATURE_NAMES =
     [''Aspect'', ''Elevation'', ''Hillshade_3pm'', ''Hillshade_9am'', ''Hillshade_Noon'',
      ''Horizontal_Distance_To_Fire_Points'', ''Horizontal_Distance_To_Hydrology'',
      ''Horizontal_Distance_To_Roadways'', ''Slope'', ''Vertical_Distance_To_Hydrology'']"

text \<open>The definitions below take the dictionary of the vocabularies as the argument
  \<open>vocabularies\<close>.\<close>

definition CATEGORICAL_FEATURE_NAMES :: "(string \<times> cell list) list \<Rightarrow> string list" where
  "CATEGORICAL_FEATURE_NAMES vocabularies = map fst vocabularies"

definition FEATURE_NAMES :: "(string \<times> cell list) list \<Rightarrow> string list" where
  "FEATURE_NAMES vocabularies = NUMERIC_FEATURE_NAMES @ CATEGORICAL_FEATURE_NAMES vocabularies"

definition NUM_CLASSES :: nat where
  "NUM_CLASSES = length TARGET_FEATURE_LABELS"

section \<open>The layers of the framework\<close>

text \<open>
  The model constructors of the notebook call Keras layers on symbolic tensors and so
  build a graph of layers. The graph is modelled as a term: a tensor is an input or the
  result of a layer called on tensors. Layers that own weights carry the number that
  tells them apart; the constructors number them in the order of their creation.
\<close>

datatype dtype = Float32 | String

datatype output_mode = Int_mode | Binary_mode

datatype activation = Linear | Softmax

datatype tensor =
    Input string dtype
  | Expand_dims tensor
  | StringLookup "cell list" "string option" nat output_mode tensor
  | Embedding nat nat nat tensor
  | Concatenate "tensor list"
  | Dense nat nat activation tensor
  | BatchNormalization nat tensor
  | ReLU tensor
  | Dropout real tensor
  | Multiply tensor tensor
  | Add tensor tensor

text \<open>
  \<^descr> \<open>Input name dtype\<close> is \<^verbatim>\<open>layers.Input(name=name, shape=(), dtype=dtype)\<close>.
  \<^descr> \<open>Expand_dims t\<close> is \<^verbatim>\<open>keras.ops.expand_dims(t, -1)\<close>.
  \<^descr> \<open>StringLookup vocabulary mask_token num_oov_indices output_mode t\<close> is the layer
    \<^verbatim>\<open>layers.StringLookup(vocabulary=..., mask_token=..., num_oov_indices=..., output_mode=...)\<close>
    called on \<open>t\<close>.
  \<^descr> \<open>Embedding k input_dim output_dim t\<close>, \<open>Dense k units activation t\<close> and
    \<open>BatchNormalization k t\<close> are layer number \<open>k\<close> called on \<open>t\<close>.
  \<^descr> \<open>Concatenate ts\<close> is \<^verbatim>\<open>layers.concatenate(ts)\<close>, along the last axis.
  \<^descr> \<open>Multiply a b\<close> and \<open>Add a b\<close> are \<^verbatim>\<open>a * b\<close> and \<^verbatim>\<open>a + b\<close> on tensors.
\<close>

subsection \<open>Shapes\<close>

text \<open>
  Keras computes the shape of every tensor while the graph is built and raises an error
  when a layer cannot be called on its argument. \<open>shape_of\<close> is the shape of one example,
  that is the shape without the leading batch axis, which every layer here carries
  along. An input declared with \<^verbatim>\<open>shape=()\<close> has the shape \<open>[]\<close>. A \<^verbatim>\<open>StringLookup\<close> layer
  in the mode \<^verbatim>\<open>"binary"\<close> encodes the tokens along the last axis of an example; called on
  scalars it would take the whole batch for one example, which the notebook avoids with
  \<^verbatim>\<open>expand_dims\<close> and which is reported as an error here. A layer that works along the
  last axis (dense, batch normalization, concatenation) needs this axis to be an axis
  of the example, with a known size.
\<close>

definition vocabulary_size :: "cell list \<Rightarrow> string option \<Rightarrow> nat \<Rightarrow> nat" where
  "vocabulary_size vocabulary mask_token num_oov_indices =
     (case mask_token of None \<Rightarrow> 0 | Some t \<Rightarrow> 1) + num_oov_indices + length vocabulary"

text \<open>Concatenation along the last axis: the shapes agree on all the other axes, and the
  last axes add up.\<close>

definition concatenate_shape :: "nat list list \<Rightarrow> error + nat list" where
  "concatenate_shape shapes =
     (case shapes of
        [] \<Rightarrow> Inl ValueError
      | s # rest \<Rightarrow>
          if s \<noteq> [] \<and> list_all (\<lambda>s'. s' \<noteq> [] \<and> butlast s' = butlast s) rest
          then Inr (butlast s @ [sum_list (map last shapes)])
          else Inl ValueError)"

text \<open>Elementwise operations broadcast: two axes go together when they are equal or one
  of them is 1. The notebook multiplies and adds tensors of the same rank only, and
  only this is modelled; operands of different ranks are reported as an error.\<close>

definition broadcast_shape :: "nat list \<Rightarrow> nat list \<Rightarrow> error + nat list" where
  "broadcast_shape a b =
     (if length a = length b \<and> list_all (\<lambda>(m, n). m = n \<or> m = 1 \<or> n = 1) (zip a b)
      then Inr (map (\<lambda>(m, n). max m n) (zip a b)) else Inl ValueError)"

text \<open>The results of a list of calls in their order, or the first error among them.\<close>

fun sequence :: "(error + 'a) list \<Rightarrow> error + 'a list" where
  "sequence [] = Inr []"
| "sequence (r # rs) =
     (case r of
        Inl e \<Rightarrow> Inl e
      | Inr x \<Rightarrow> (case sequence rs of Inl e \<Rightarrow> Inl e | Inr xs \<Rightarrow> Inr (x # xs)))"

fun shape_of :: "tensor \<Rightarrow> error + nat list" where
  "shape_of (Input name dtype) = Inr []"
| "shape_of (Expand_dims t) =
     (case shape_of t of Inl e \<Rightarrow> Inl e | Inr s \<Rightarrow> Inr (s @ [1]))"
| "shape_of (StringLookup vocabulary mask_token num_oov_indices output_mode t) =
     (case shape_of t of
        Inl e \<Rightarrow> Inl e
      | Inr s \<Rightarrow>
          (case output_mode of
             Int_mode \<Rightarrow> Inr s
           | Binary_mode \<Rightarrow>
               if s = [] then Inl ValueError
               else Inr (butlast s @ [vocabulary_size vocabulary mask_token num_oov_indices])))"
| "shape_of (Embedding k input_dim output_dim t) =
     (case shape_of t of Inl e \<Rightarrow> Inl e | Inr s \<Rightarrow> Inr (s @ [output_dim]))"
| "shape_of (Concatenate ts) =
     (case sequence (map shape_of ts) of Inl e \<Rightarrow> Inl e | Inr shapes \<Rightarrow> concatenate_shape shapes)"
| "shape_of (Dense k units activation t) =
     (if units = 0 then Inl ValueError
      else case shape_of t of
             Inl e \<Rightarrow> Inl e
           | Inr s \<Rightarrow> if s = [] then Inl ValueError else Inr (butlast s @ [units]))"
| "shape_of (BatchNormalization k t) =
     (case shape_of t of
        Inl e \<Rightarrow> Inl e
      | Inr s \<Rightarrow> if s = [] then Inl ValueError else Inr s)"
| "shape_of (ReLU t) = shape_of t"
| "shape_of (Dropout rate t) = shape_of t"
| "shape_of (Multiply a b) =
     (case shape_of a of
        Inl e \<Rightarrow> Inl e
      | Inr sa \<Rightarrow> (case shape_of b of Inl e \<Rightarrow> Inl e | Inr sb \<Rightarrow> broadcast_shape sa sb))"
| "shape_of (Add a b) =
     (case shape_of a of
        Inl e \<Rightarrow> Inl e
      | Inr sa \<Rightarrow> (case shape_of b of Inl e \<Rightarrow> Inl e | Inr sb \<Rightarrow> broadcast_shape sa sb))"

text \<open>\<^verbatim>\<open>t.shape[-1]\<close>, read to pass it to a layer as its number of units. For a tensor
  whose examples are scalars the last axis is the batch axis, whose size is not known,
  and no layer can be made from it.\<close>

definition last_dim :: "tensor \<Rightarrow> error + nat" where
  "last_dim t =
     (case shape_of t of
        Inl e \<Rightarrow> Inl e
      | Inr s \<Rightarrow> if s = [] then Inl ValueError else Inr (last s))"

subsection \<open>Values\<close>

text \<open>
  What a tensor of the graph computes for one example, when the model predicts or is
  evaluated: dropout does nothing then, and batch normalization uses its moving
  statistics. Numbers are real numbers; the rounding of floating-point arithmetic is
  not modelled. The models of the notebook compute scalars and vectors only, and only
  these are modelled: a value of higher rank is reported as \<^verbatim>\<open>NotImplementedError\<close>.
\<close>

datatype feature = Num real | Str string

datatype "value" = Scalar feature | Index nat | Vector "real list" | Strings "string list"

text \<open>The weights of the layers, by layer number and position, and the hash that the
  framework uses to choose among several out-of-vocabulary indices. They are inputs of
  the model; a weight array has the shape that its layer asks for by construction.\<close>

record variables =
  kernel :: "nat \<Rightarrow> nat \<Rightarrow> nat \<Rightarrow> real"
  bias :: "nat \<Rightarrow> nat \<Rightarrow> real"
  embeddings :: "nat \<Rightarrow> nat \<Rightarrow> nat \<Rightarrow> real"
  gamma :: "nat \<Rightarrow> nat \<Rightarrow> real"
  beta :: "nat \<Rightarrow> nat \<Rightarrow> real"
  moving_mean :: "nat \<Rightarrow> nat \<Rightarrow> real"
  moving_variance :: "nat \<Rightarrow> nat \<Rightarrow> real"
  string_hash :: "string \<Rightarrow> nat"

definition expand_dims :: "value \<Rightarrow> error + value" where
  "expand_dims v =
     (case v of
        Scalar (Num x) \<Rightarrow> Inr (Vector [x])
      | Scalar (Str s) \<Rightarrow> Inr (Strings [s])
      | _ \<Rightarrow> Inl NotImplementedError)"

text \<open>The index that a \<^verbatim>\<open>StringLookup\<close> layer gives a token. The indices are laid out as
  the mask token, if there is one, then the out-of-vocabulary indices, then the
  vocabulary in its order. A token outside the vocabulary goes to one of the
  out-of-vocabulary indices, and the call fails when there is none.\<close>

definition string_lookup :: "(string \<Rightarrow> nat) \<Rightarrow> cell list \<Rightarrow> string option \<Rightarrow> nat \<Rightarrow> string \<Rightarrow> error + nat" where
  "string_lookup hash vocabulary mask_token num_oov_indices token =
     (if mask_token = Some token then Inr 0
      else case find_index_of (StrV token) vocabulary of
             Some i \<Rightarrow> Inr (vocabulary_size [] mask_token num_oov_indices + i)
           | None \<Rightarrow>
               if num_oov_indices = 0 then Inl InvalidArgumentError
               else Inr (vocabulary_size [] mask_token 0 + hash token mod num_oov_indices))"

text \<open>In the mode \<^verbatim>\<open>"int"\<close> the layer returns the index; in the mode \<^verbatim>\<open>"binary"\<close> it returns
  a vector with one entry for each index, 1 at the indices of its tokens and 0
  elsewhere.\<close>

definition string_lookup_call :: "(string \<Rightarrow> nat) \<Rightarrow> cell list \<Rightarrow> string option \<Rightarrow> nat \<Rightarrow> output_mode \<Rightarrow> value \<Rightarrow> error + value" where
  "string_lookup_call hash vocabulary mask_token num_oov_indices output_mode v =
     (case output_mode of
        Int_mode \<Rightarrow>
          (case v of
             Scalar (Str s) \<Rightarrow>
               (case string_lookup hash vocabulary mask_token num_oov_indices s of
                  Inl e \<Rightarrow> Inl e
                | Inr i \<Rightarrow> Inr (Index i))
           | Scalar (Num x) \<Rightarrow> Inl TypeError
           | Index i \<Rightarrow> Inl TypeError
           | Vector xs \<Rightarrow> Inl TypeError
           | Strings ss \<Rightarrow> Inl NotImplementedError)
      | Binary_mode \<Rightarrow>
          (case v of
             Strings ss \<Rightarrow>
               (case traverse (string_lookup hash vocabulary mask_token num_oov_indices) ss of
                  Inl e \<Rightarrow> Inl e
                | Inr indices \<Rightarrow>
                    Inr (Vector (map (\<lambda>i. if i \<in> set indices then 1 else 0)
                                   [0..<vocabulary_size vocabulary mask_token num_oov_indices])))
           | Scalar (Str s) \<Rightarrow> Inl NotImplementedError
           | Scalar (Num x) \<Rightarrow> Inl TypeError
           | Index i \<Rightarrow> Inl TypeError
           | Vector xs \<Rightarrow> Inl TypeError))"

definition embedding_call :: "(nat \<Rightarrow> nat \<Rightarrow> real) \<Rightarrow> nat \<Rightarrow> nat \<Rightarrow> value \<Rightarrow> error + value" where
  "embedding_call table input_dim output_dim v =
     (case v of
        Index i \<Rightarrow>
          if i < input_dim then Inr (Vector (map (table i) [0..<output_dim]))
          else Inl InvalidArgumentError
      | _ \<Rightarrow> Inl NotImplementedError)"

fun vectors :: "value list \<Rightarrow> error + real list list" where
  "vectors [] = Inr []"
| "vectors (Vector x # vs) = (case vectors vs of Inl e \<Rightarrow> Inl e | Inr xs \<Rightarrow> Inr (x # xs))"
| "vectors (v # vs) = Inl NotImplementedError"

definition concatenate :: "value list \<Rightarrow> error + value" where
  "concatenate vs =
     (if vs = [] then Inl ValueError
      else case vectors vs of Inl e \<Rightarrow> Inl e | Inr xs \<Rightarrow> Inr (Vector (concat xs)))"

definition softmax :: "real list \<Rightarrow> real list" where
  "softmax z = map (\<lambda>x. exp x / sum_list (map exp z)) z"

definition activate :: "activation \<Rightarrow> real list \<Rightarrow> real list" where
  "activate activation z = (case activation of Linear \<Rightarrow> z | Softmax \<Rightarrow> softmax z)"

definition dense_call :: "(nat \<Rightarrow> nat \<Rightarrow> real) \<Rightarrow> (nat \<Rightarrow> real) \<Rightarrow> nat \<Rightarrow> activation \<Rightarrow> value \<Rightarrow> error + value" where
  "dense_call w b units activation v =
     (case v of
        Vector x \<Rightarrow>
          if units = 0 then Inl ValueError
          else Inr (Vector (activate activation
                     (map (\<lambda>j. (\<Sum>i<length x. x ! i * w i j) + b j) [0..<units])))
      | _ \<Rightarrow> Inl NotImplementedError)"

text \<open>Batch normalization along the last axis, with the default \<^verbatim>\<open>epsilon=0.001\<close>.\<close>

definition batch_normalization_call :: "(nat \<Rightarrow> real) \<Rightarrow> (nat \<Rightarrow> real) \<Rightarrow> (nat \<Rightarrow> real) \<Rightarrow> (nat \<Rightarrow> real) \<Rightarrow> value \<Rightarrow> error + value" where
  "batch_normalization_call g b mean var v =
     (case v of
        Vector x \<Rightarrow>
          Inr (Vector (map (\<lambda>i. g i * (x ! i - mean i) / sqrt (var i + 0.001) + b i)
                         [0..<length x]))
      | _ \<Rightarrow> Inl NotImplementedError)"

definition relu_call :: "value \<Rightarrow> error + value" where
  "relu_call v = (case v of Vector x \<Rightarrow> Inr (Vector (map (max 0) x)) | _ \<Rightarrow> Inl NotImplementedError)"

definition elementwise :: "(real \<Rightarrow> real \<Rightarrow> real) \<Rightarrow> value \<Rightarrow> value \<Rightarrow> error + value" where
  "elementwise f a b =
     (case (a, b) of
        (Vector x, Vector y) \<Rightarrow>
          if length x = length y then Inr (Vector (map2 f x y))
          else if length x = 1 then Inr (Vector (map (f (x ! 0)) y))
          else if length y = 1 then Inr (Vector (map (\<lambda>u. f u (y ! 0)) x))
          else Inl ValueError
      | _ \<Rightarrow> Inl NotImplementedError)"

fun eval :: "variables \<Rightarrow> (string \<Rightarrow> feature option) \<Rightarrow> tensor \<Rightarrow> error + value" where
  "eval \<theta> features (Input name dtype) =
     (case features name of
        None \<Rightarrow> Inl KeyError
      | Some (Num x) \<Rightarrow> if dtype = Float32 then Inr (Scalar (Num x)) else Inl TypeError
      | Some (Str s) \<Rightarrow> if dtype = String then Inr (Scalar (Str s)) else Inl TypeError)"
| "eval \<theta> features (Expand_dims t) =
     (case eval \<theta> features t of Inl e \<Rightarrow> Inl e | Inr v \<Rightarrow> expand_dims v)"
| "eval \<theta> features (StringLookup vocabulary mask_token num_oov_indices output_mode t) =
     (case eval \<theta> features t of
        Inl e \<Rightarrow> Inl e
      | Inr v \<Rightarrow> string_lookup_call (string_hash \<theta>) vocabulary mask_token num_oov_indices output_mode v)"
| "eval \<theta> features (Embedding k input_dim output_dim t) =
     (case eval \<theta> features t of
        Inl e \<Rightarrow> Inl e
      | Inr v \<Rightarrow> embedding_call (embeddings \<theta> k) input_dim output_dim v)"
| "eval \<theta> features (Concatenate ts) =
     (case sequence (map (eval \<theta> features) ts) of Inl e \<Rightarrow> Inl e | Inr vs \<Rightarrow> concatenate vs)"
| "eval \<theta> features (Dense k units activation t) =
     (case eval \<theta> features t of
        Inl e \<Rightarrow> Inl e
      | Inr v \<Rightarrow> dense_call (kernel \<theta> k) (bias \<theta> k) units activation v)"
| "eval \<theta> features (BatchNormalization k t) =
     (case eval \<theta> features t of
        Inl e \<Rightarrow> Inl e
      | Inr v \<Rightarrow>
          batch_normalization_call (gamma \<theta> k) (beta \<theta> k) (moving_mean \<theta> k)
            (moving_variance \<theta> k) v)"
| "eval \<theta> features (ReLU t) =
     (case eval \<theta> features t of Inl e \<Rightarrow> Inl e | Inr v \<Rightarrow> relu_call v)"
| "eval \<theta> features (Dropout rate t) = eval \<theta> features t"
| "eval \<theta> features (Multiply a b) =
     (case eval \<theta> features a of
        Inl e \<Rightarrow> Inl e
      | Inr u \<Rightarrow> (case eval \<theta> features b of Inl e \<Rightarrow> Inl e | Inr v \<Rightarrow> elementwise (*) u v))"
| "eval \<theta> features (Add a b) =
     (case eval \<theta> features a of
        Inl e \<Rightarrow> Inl e
      | Inr u \<Rightarrow> (case eval \<theta> features b of Inl e \<Rightarrow> Inl e | Inr v \<Rightarrow> elementwise (+) u v))"

text \<open>The names of the inputs that a tensor is computed from.\<close>

fun input_names :: "tensor \<Rightarrow> string set" where
  "input_names (Input name dtype) = {name}"
| "input_names (Expand_dims t) = input_names t"
| "input_names (StringLookup vocabulary mask_token num_oov_indices output_mode t) = input_names t"
| "input_names (Embedding k input_dim output_dim t) = input_names t"
| "input_names (Concatenate ts) = (\<Union>t\<in>set ts. input_names t)"
| "input_names (Dense k units activation t) = input_names t"
| "input_names (BatchNormalization k t) = input_names t"
| "input_names (ReLU t) = input_names t"
| "input_names (Dropout rate t) = input_names t"
| "input_names (Multiply a b) = input_names a \<union> input_names b"
| "input_names (Add a b) = input_names a \<union> input_names b"

section \<open>The experiment setup\<close>

definition learning_rate :: real where
  "learning_rate = 0.001"

definition dropout_rate :: real where
  "dropout_rate = 0.1"

definition batch_size :: nat where
  "batch_size = 265"

definition num_epochs :: nat where
  "num_epochs = 1"

definition hidden_units :: "nat list" where
  "hidden_units = [32, 32]"

section \<open>The model constructors\<close>

text \<open>\<^verbatim>\<open>keras.Model(inputs=inputs, outputs=outputs)\<close>.\<close>

record model =
  model_inputs :: "(string \<times> tensor) list"
  model_outputs :: tensor

text \<open>The dictionary \<^verbatim>\<open>inputs\<close> keeps its keys in the order of their insertion.\<close>

definition create_model_inputs :: "(string \<times> cell list) list \<Rightarrow> (string \<times> tensor) list" where
  "create_model_inputs vocabularies =
     fold (\<lambda>feature_name inputs.
             if feature_name \<in> set NUMERIC_FEATURE_NAMES
             then AList.update feature_name (Input feature_name Float32) inputs
             else AList.update feature_name (Input feature_name String) inputs)
       (FEATURE_NAMES vocabularies) []"

text \<open>\<^verbatim>\<open>int(math.sqrt(n))\<close>: the number of the \<open>m \<ge> 1\<close> whose square is at most \<open>n\<close>.\<close>

definition int_sqrt :: "nat \<Rightarrow> nat" where
  "int_sqrt n = length (filter (\<lambda>m. m * m \<le> n) [1..<Suc n])"

text \<open>The loop of \<^verbatim>\<open>encode_inputs\<close> over the inputs. A feature name is in
  \<^verbatim>\<open>CATEGORICAL_FEATURE_NAMES\<close> exactly when the dictionary of the vocabularies has it as a
  key. The last argument and the second result count the layers with weights made so
  far.\<close>

fun encode_loop :: "(string \<times> cell list) list \<Rightarrow> bool \<Rightarrow> (string \<times> tensor) list \<Rightarrow> tensor list \<Rightarrow> nat \<Rightarrow>
    tensor list \<times> nat" where
  "encode_loop vocabularies use_embedding [] encoded_features k = (encoded_features, k)"
| "encode_loop vocabularies use_embedding ((feature_name, input) # inputs) encoded_features k =
     (case map_of vocabularies feature_name of
        Some vocabulary \<Rightarrow>
          if use_embedding
          then encode_loop vocabularies use_embedding inputs
                 (encoded_features @
                    [Embedding k (length vocabulary) (int_sqrt (length vocabulary))
                       (StringLookup vocabulary None 0 Int_mode input)])
                 (Suc k)
          else encode_loop vocabularies use_embedding inputs
                 (encoded_features @
                    [StringLookup vocabulary None 0 Binary_mode (Expand_dims input)])
                 k
      | None \<Rightarrow>
          encode_loop vocabularies use_embedding inputs
            (encoded_features @ [Expand_dims input]) k)"

definition encode_inputs :: "(string \<times> cell list) list \<Rightarrow> (string \<times> tensor) list \<Rightarrow> bool \<Rightarrow> nat \<Rightarrow> tensor \<times> nat" where
  "encode_inputs vocabularies inputs use_embedding k =
     (case encode_loop vocabularies use_embedding inputs [] k of
        (encoded_features, k') \<Rightarrow> (Concatenate encoded_features, k'))"

text \<open>The loop \<^verbatim>\<open>for units in hidden_units\<close> that the three constructors share: a dense
  layer, batch normalization, a rectifier and dropout.\<close>

fun hidden_layers :: "nat list \<Rightarrow> tensor \<Rightarrow> nat \<Rightarrow> tensor \<times> nat" where
  "hidden_layers [] features k = (features, k)"
| "hidden_layers (units # rest) features k =
     hidden_layers rest
       (Dropout dropout_rate (ReLU (BatchNormalization (Suc k) (Dense k units Linear features))))
       (Suc (Suc k))"

definition create_baseline_model :: "(string \<times> cell list) list \<Rightarrow> nat \<Rightarrow> model \<times> nat" where
  "create_baseline_model vocabularies k =
     (let inputs = create_model_inputs vocabularies;
          (features, k1) = encode_inputs vocabularies inputs False k;
          (features, k2) = hidden_layers hidden_units features k1;
          outputs = Dense k2 NUM_CLASSES Softmax features
      in (\<lparr>model_inputs = inputs, model_outputs = outputs\<rparr>, Suc k2))"

definition create_wide_and_deep_model :: "(string \<times> cell list) list \<Rightarrow> nat \<Rightarrow> model \<times> nat" where
  "create_wide_and_deep_model vocabularies k =
     (let inputs = create_model_inputs vocabularies;
          (wide, k1) = encode_inputs vocabularies inputs False k;
          wide = BatchNormalization k1 wide;
          (deep, k2) = encode_inputs vocabularies inputs True (Suc k1);
          (deep, k3) = hidden_layers hidden_units deep k2;
          merged = Concatenate [wide, deep];
          outputs = Dense k3 NUM_CLASSES Softmax merged
      in (\<lparr>model_inputs = inputs, model_outputs = outputs\<rparr>, Suc k3))"

text \<open>The loop \<^verbatim>\<open>for _ in hidden_units\<close> of the cross network. Reading
  \<^verbatim>\<open>cross.shape[-1]\<close> can fail, so the loop returns an error or its result.\<close>

fun cross_loop :: "nat list \<Rightarrow> tensor \<Rightarrow> tensor \<Rightarrow> nat \<Rightarrow> error + tensor \<times> nat" where
  "cross_loop [] x0 cross k = Inr (cross, k)"
| "cross_loop (_ # rest) x0 cross k =
     (case last_dim cross of
        Inl e \<Rightarrow> Inl e
      | Inr units \<Rightarrow>
          cross_loop rest x0 (Add (Multiply x0 (Dense k units Linear cross)) cross) (Suc k))"

definition create_deep_and_cross_model :: "(string \<times> cell list) list \<Rightarrow> nat \<Rightarrow> error + model \<times> nat" where
  "create_deep_and_cross_model vocabularies k =
     (let inputs = create_model_inputs vocabularies;
          (x0, k1) = encode_inputs vocabularies inputs True k
      in case cross_loop hidden_units x0 x0 k1 of
           Inl e \<Rightarrow> Inl e
         | Inr (cross, k2) \<Rightarrow>
             (let cross = BatchNormalization k2 cross;
                  (deep, k3) = hidden_layers hidden_units x0 (Suc k2);
                  merged = Concatenate [cross, deep];
                  outputs = Dense k3 NUM_CLASSES Softmax merged
              in Inr (\<lparr>model_inputs = inputs, model_outputs = outputs\<rparr>, Suc k3)))"

section \<open>Running an experiment\<close>

definition train_data_file :: string where
  "train_data_file = ''train_data.csv''"

definition test_data_file :: string where
  "test_data_file = ''test_data.csv''"

datatype column_default = Default_int int | Default_str string

definition COLUMN_DEFAULTS :: "column_default list list" where
  "COLUMN_DEFAULTS =
     map (\<lambda>feature_name.
            if feature_name \<in> set (NUMERIC_FEATURE_NAMES @ [TARGET_FEATURE_NAME])
            then [Default_int 0] else [Default_str ''NA''])
       CSV_HEADER"

text \<open>The data set that \<^verbatim>\<open>get_dataset_from_csv\<close> describes: the arguments of
  \<^verbatim>\<open>make_csv_dataset\<close>. The records of the file are read when the data set is iterated,
  by \<^verbatim>\<open>fit\<close> and \<^verbatim>\<open>evaluate\<close>; they are then mapped to dictionaries and cached.\<close>

record dataset =
  csv_file_path :: string
  dataset_batch_size :: nat
  column_names :: "string list"
  column_defaults :: "column_default list list"
  label_name :: string
  dataset_num_epochs :: nat
  header :: bool
  shuffle :: bool

text \<open>What an experiment meets when it runs is an input of the model of the program:
  the files that exist, and what the framework computes from the records of a file.
  \<open>train_epoch rt m d i\<close> is the outcome of epoch \<open>i\<close> of the training of \<open>m\<close> on \<open>d\<close>,
  the loss and the accuracy on the training data or the error that the framework raises;
  \<open>test_metrics rt m d\<close> is the outcome of the evaluation of the trained model on \<open>d\<close>.\<close>

record runtime =
  file_exists :: "string \<Rightarrow> bool"
  train_epoch :: "model \<Rightarrow> dataset \<Rightarrow> nat \<Rightarrow> error + real \<times> real"
  test_metrics :: "model \<Rightarrow> dataset \<Rightarrow> error + real \<times> real"

text \<open>\<^verbatim>\<open>make_csv_dataset\<close> looks up the files that match its path when the data set is
  built, and raises \<^verbatim>\<open>ValueError\<close> when there is none.\<close>

definition get_dataset_from_csv :: "runtime \<Rightarrow> string \<Rightarrow> nat \<Rightarrow> bool \<Rightarrow> error + dataset" where
  "get_dataset_from_csv rt file_path batch shuffled =
     (if file_exists rt file_path
      then Inr \<lparr>csv_file_path = file_path, dataset_batch_size = batch, column_names = CSV_HEADER,
                column_defaults = COLUMN_DEFAULTS, label_name = TARGET_FEATURE_NAME,
                dataset_num_epochs = 1, header = True, shuffle = shuffled\<rparr>
      else Inl ValueError)"

datatype optimizer = Adam real

datatype loss = SparseCategoricalCrossentropy

datatype metric = SparseCategoricalAccuracy

text \<open>What an experiment does to the world is recorded as a list of events: the calls
  of the framework on the model, and the lines printed. \<open>Progress i l a\<close> is the progress
  display of epoch \<open>i\<close>, which shows the loss \<open>l\<close> and the accuracy \<open>a\<close>, and
  \<open>Test_accuracy r\<close> is the line \<^verbatim>\<open>Test accuracy: r%\<close>. \<open>Save path\<close> is the event of
  writing a model to a file, as \<^verbatim>\<open>model.save(path)\<close> does; no definition of this theory
  produces it.\<close>

datatype line = Text string | Progress nat real real | Test_accuracy real

datatype event =
    Compile model optimizer loss "metric list"
  | Fit model dataset nat
  | Evaluate model dataset nat
  | Print line
  | Save string

definition compile :: "model \<Rightarrow> optimizer \<Rightarrow> loss \<Rightarrow> metric list \<Rightarrow> event list \<Rightarrow> event list" where
  "compile m opt l metrics events = events @ [Compile m opt l metrics]"

definition print :: "line \<Rightarrow> event list \<Rightarrow> event list" where
  "print l events = events @ [Print l]"

text \<open>\<^verbatim>\<open>model.fit(dataset, epochs=n)\<close>, called without \<^verbatim>\<open>verbose\<close>: the framework trains
  epoch after epoch and prints the progress display of each epoch, with its loss and
  accuracy. An error raised in an epoch ends the call. The result is the history: the
  loss and the accuracy of each epoch.\<close>

fun fit_epochs :: "runtime \<Rightarrow> model \<Rightarrow> dataset \<Rightarrow> nat list \<Rightarrow> event list \<Rightarrow>
    (error + (real \<times> real) list) \<times> event list" where
  "fit_epochs rt m d [] events = (Inr [], events)"
| "fit_epochs rt m d (epoch # epochs) events =
     (case train_epoch rt m d epoch of
        Inl e \<Rightarrow> (Inl e, events)
      | Inr (l, a) \<Rightarrow>
          (case fit_epochs rt m d epochs (print (Progress (epoch + 1) l a) events) of
             (Inl e, events) \<Rightarrow> (Inl e, events)
           | (Inr history, events) \<Rightarrow> (Inr ((l, a) # history), events)))"

definition fit :: "runtime \<Rightarrow> model \<Rightarrow> dataset \<Rightarrow> nat \<Rightarrow> event list \<Rightarrow>
    (error + (real \<times> real) list) \<times> event list" where
  "fit rt m d epochs events = fit_epochs rt m d [0..<epochs] (events @ [Fit m d epochs])"

text \<open>\<^verbatim>\<open>model.evaluate(dataset, verbose=v)\<close> returns the loss and the accuracy on the data
  set. It prints its progress display unless \<open>v\<close> is 0.\<close>

definition evaluate :: "runtime \<Rightarrow> model \<Rightarrow> dataset \<Rightarrow> nat \<Rightarrow> event list \<Rightarrow>
    (error + real \<times> real) \<times> event list" where
  "evaluate rt m d verbose events =
     (let events = events @ [Evaluate m d verbose]
      in case test_metrics rt m d of
           Inl e \<Rightarrow> (Inl e, events)
         | Inr (l, a) \<Rightarrow>
             (Inr (l, a), if verbose = 0 then events else print (Progress 1 l a) events))"

text \<open>Python's \<^verbatim>\<open>round(x, 2)\<close>: to the nearest multiple of \<open>1/100\<close>, a tie to the even
  one.\<close>

definition round_half_even :: "real \<Rightarrow> int" where
  "round_half_even x =
     (let f = \<lfloor>x\<rfloor>; d = x - of_int f
      in if d < 1 / 2 then f else if 1 / 2 < d then f + 1 else if even f then f else f + 1)"

definition round2 :: "real \<Rightarrow> real" where
  "round2 x = of_int (round_half_even (x * 100)) / 100"

text \<open>\<^verbatim>\<open>run_experiment(model)\<close> adds its events to the list. It returns nothing, or stops
  at the first error that a call raises: nothing in it catches an exception.\<close>

definition run_experiment :: "runtime \<Rightarrow> model \<Rightarrow> event list \<Rightarrow> (error + unit) \<times> event list" where
  "run_experiment rt m events =
     (let events = compile m (Adam learning_rate) SparseCategoricalCrossentropy
                     [SparseCategoricalAccuracy] events
      in case get_dataset_from_csv rt train_data_file batch_size True of
           Inl e \<Rightarrow> (Inl e, events)
         | Inr train_dataset \<Rightarrow>
      (case get_dataset_from_csv rt test_data_file batch_size False of
           Inl e \<Rightarrow> (Inl e, events)
         | Inr test_dataset \<Rightarrow>
      (let events = print (Text ''Start training the model...'') events
       in case fit rt m train_dataset num_epochs events of
            (Inl e, events) \<Rightarrow> (Inl e, events)
          | (Inr history, events) \<Rightarrow>
      (let events = print (Text ''Model training finished'') events
       in case evaluate rt m test_dataset 0 events of
            (Inl e, events) \<Rightarrow> (Inl e, events)
          | (Inr (_, accuracy), events) \<Rightarrow>
              (Inr (), print (Test_accuracy (round2 (accuracy * 100))) events)))))"

section \<open>Notions used to state the properties\<close>

text \<open>An input record that the encoders accept: it gives a number for every numeric
  feature and, for every categorical feature, a string of its vocabulary.\<close>

definition well_formed :: "(string \<times> cell list) list \<Rightarrow> (string \<Rightarrow> feature option) \<Rightarrow> bool" where
  "well_formed vocabularies features =
     (list_all (\<lambda>name. case features name of Some (Num x) \<Rightarrow> True | _ \<Rightarrow> False)
        NUMERIC_FEATURE_NAMES \<and>
      list_all (\<lambda>(name, vocabulary).
                  case features name of Some (Str s) \<Rightarrow> StrV s \<in> set vocabulary | _ \<Rightarrow> False)
        vocabularies)"

text \<open>The recurrence of the cross network as the specification words it:
  \<open>cross\<^sub>0 = x\<^sub>0\<close> and \<open>cross\<^bsub>n+1\<^esub> = x\<^sub>0 * Dense\<^sub>n(cross\<^sub>n) + cross\<^sub>n\<close>, with the product and the sum
  taken entry by entry. \<open>spec_dense \<theta> k\<close> is the affine map of dense layer \<open>k\<close> with as
  many outputs as inputs.\<close>

definition spec_dense :: "variables \<Rightarrow> nat \<Rightarrow> real list \<Rightarrow> real list" where
  "spec_dense \<theta> k y = map (\<lambda>j. (\<Sum>i<length y. y ! i * kernel \<theta> k i j) + bias \<theta> k j) [0..<length y]"

fun spec_cross :: "variables \<Rightarrow> nat \<Rightarrow> real list \<Rightarrow> nat \<Rightarrow> real list" where
  "spec_cross \<theta> k x0 0 = x0"
| "spec_cross \<theta> k x0 (Suc n) =
     map2 (+) (map2 (*) x0 (spec_dense \<theta> (k + n) (spec_cross \<theta> k x0 n))) (spec_cross \<theta> k x0 n)"

text \<open>The settings of the \<^verbatim>\<open>StringLookup\<close> layers of a graph: vocabulary, mask token,
  number of out-of-vocabulary indices and output mode.\<close>

fun string_lookups :: "tensor \<Rightarrow> (cell list \<times> string option \<times> nat \<times> output_mode) list" where
  "string_lookups (Input name dtype) = []"
| "string_lookups (Expand_dims t) = string_lookups t"
| "string_lookups (StringLookup vocabulary mask_token num_oov_indices output_mode t) =
     (vocabulary, mask_token, num_oov_indices, output_mode) # string_lookups t"
| "string_lookups (Embedding k input_dim output_dim t) = string_lookups t"
| "string_lookups (Concatenate ts) = concat (map string_lookups ts)"
| "string_lookups (Dense k units activation t) = string_lookups t"
| "string_lookups (BatchNormalization k t) = string_lookups t"
| "string_lookups (ReLU t) = string_lookups t"
| "string_lookups (Dropout rate t) = string_lookups t"
| "string_lookups (Multiply a b) = string_lookups a @ string_lookups b"
| "string_lookups (Add a b) = string_lookups a @ string_lookups b"

text \<open>A vector of probabilities: positive entries that add up to 1.\<close>

definition probability_vector :: "real list \<Rightarrow> bool" where
  "probability_vector p = (list_all (\<lambda>q. 0 < q) p \<and> sum_list p = 1)"

text \<open>The lines that a list of events prints, the calls of the framework in it, and the
  files that it saves, each in the order of the events.\<close>

fun printed :: "event list \<Rightarrow> line list" where
  "printed [] = []"
| "printed (Print l # events) = l # printed events"
| "printed (e # events) = printed events"

fun calls :: "event list \<Rightarrow> event list" where
  "calls [] = []"
| "calls (Print l # events) = calls events"
| "calls (e # events) = e # calls events"

fun saved :: "event list \<Rightarrow> string list" where
  "saved [] = []"
| "saved (Save path # events) = path # saved events"
| "saved (e # events) = saved events"


section \<open>Sample inputs\<close>

text \<open>The first record of the Covertype table, used to run the definitions on a
  concrete input: elevation 2596, ..., wilderness area 1, soil type 29, cover type 5.\<close>

definition sample_row :: "int64 list" where
  "sample_row = [2596, 51, 3, 258, 0, 510, 221, 232, 148, 6279] @ [1, 0, 0, 0] @
     (replicate 28 0 @ [1] @ replicate 11 0) @ [5]"

text \<open>A second record, a table of three records, the frame that reshaping it gives, and
  random numbers that send the group of the second record to the test split.\<close>

definition sample_row2 :: "int64 list" where
  "sample_row2 = [2590, 56, 2, 212, -6, 390, 220, 235, 151, 6225] @ [0, 0, 1, 0] @
     (replicate 11 0 @ [1] @ replicate 28 0) @ [2]"

definition sample_rand :: "nat \<Rightarrow> nat \<Rightarrow> real" where
  "sample_rand g i = (if g = 0 then 0.9 else 0.5)"

definition sample_data :: dataframe where
  "sample_data =
     \<lparr>columns = CSV_HEADER,
      rows =
        [(0, [IntV 2596, IntV 51, IntV 3, IntV 258, IntV 0, IntV 510, IntV 221, IntV 232,
              IntV 148, IntV 6279, StrV ''area_type_1'', StrV ''soil_type_29'', IntV 4]),
         (1, [IntV 2590, IntV 56, IntV 2, IntV 212, IntV (- 6), IntV 390, IntV 220, IntV 235,
              IntV 151, IntV 6225, StrV ''area_type_3'', StrV ''soil_type_12'', IntV 1]),
         (2, [IntV 2596, IntV 51, IntV 3, IntV 258, IntV 0, IntV 510, IntV 221, IntV 232,
              IntV 148, IntV 6279, StrV ''area_type_1'', StrV ''soil_type_29'', IntV 4])]\<rparr>"


text \<open>The vocabularies of the sample table, the first record of the table as an input of
  a model, the same record with a soil type that the vocabulary does not have, and
  sample weights.\<close>

definition sample_vocabularies :: "(string \<times> cell list) list" where
  "sample_vocabularies =
     [(''Soil_Type'', [StrV ''soil_type_29'', StrV ''soil_type_12'']),
      (''Wilderness_Area'', [StrV ''area_type_1'', StrV ''area_type_3''])]"

definition sample_features :: "string \<Rightarrow> feature option" where
  "sample_features =
     map_of [(''Elevation'', Num 2596), (''Aspect'', Num 51), (''Slope'', Num 3),
       (''Horizontal_Distance_To_Hydrology'', Num 258),
       (''Vertical_Distance_To_Hydrology'', Num 0),
       (''Horizontal_Distance_To_Roadways'', Num 510), (''Hillshade_9am'', Num 221),
       (''Hillshade_Noon'', Num 232), (''Hillshade_3pm'', Num 148),
       (''Horizontal_Distance_To_Fire_Points'', Num 6279),
       (''Wilderness_Area'', Str ''area_type_1''), (''Soil_Type'', Str ''soil_type_29'')]"

definition unseen_features :: "string \<Rightarrow> feature option" where
  "unseen_features = sample_features(''Soil_Type'' \<mapsto> Str ''soil_type_7'')"

definition sample_variables :: variables where
  "sample_variables =
     \<lparr>kernel = (\<lambda>k i j. 0), bias = (\<lambda>k j. 0), embeddings = (\<lambda>k i j. 0),
      gamma = (\<lambda>k i. 1), beta = (\<lambda>k i. 0), moving_mean = (\<lambda>k i. 0),
      moving_variance = (\<lambda>k i. 1), string_hash = length\<rparr>"

text \<open>A record whose wilderness area is not in the sample vocabulary, and a run in which
  the two files exist, the epoch of training ends with loss \<open>1/2\<close> and accuracy \<open>3/4\<close>, and
  the evaluation gives loss \<open>1/4\<close> and accuracy \<open>7/8\<close>.\<close>

definition unseen_area_features :: "string \<Rightarrow> feature option" where
  "unseen_area_features = sample_features(''Wilderness_Area'' \<mapsto> Str ''area_type_2'')"

definition sample_runtime :: runtime where
  "sample_runtime =
     \<lparr>file_exists = (\<lambda>path. path \<in> {''train_data.csv'', ''test_data.csv''}),
      train_epoch = (\<lambda>m d i. Inr (1 / 2, 3 / 4)),
      test_metrics = (\<lambda>m d. Inr (1 / 4, 7 / 8))\<rparr>"

text \<open>The same run when neither file exists.\<close>

definition missing_files_runtime :: runtime where
  "missing_files_runtime = sample_runtime\<lparr>file_exists := (\<lambda>path. False)\<rparr>"

section \<open>Properties of the data preparation\<close>

subsection \<open>Auxiliary facts\<close>

lemma traverse_Inr_iff:
  "traverse f xs = Inr ys \<longleftrightarrow> length ys = length xs \<and> (\<forall>i<length xs. f (xs ! i) = Inr (ys ! i))"
proof (induction xs arbitrary: ys)
  case Nil
  then show ?case by auto
next
  case (Cons x xs)
  show ?case
  proof (cases ys)
    case Nil
    then show ?thesis by (auto split: sum.splits)
  next
    case (Cons y ys')
    then show ?thesis using Cons.IH [of ys']
      by (auto split: sum.splits simp: nth_Cons' All_less_Suc2)
  qed
qed

lemma traverse_map_Inr:
  "(\<And>x. x \<in> set xs \<Longrightarrow> f x = Inr (g x)) \<Longrightarrow> traverse f xs = Inr (map g xs)"
  by (induction xs) auto

lemma filter_upt_first:
  assumes "i < n" "P i" "\<forall>j<i. \<not> P j"
  shows "filter P [0..<n] = i # filter P [Suc i..<n]"
proof -
  have "[0..<n] = [0..<i] @ i # [Suc i..<n]"
    using assms(1) by (metis less_imp_le_nat upt_add_eq_append upt_conv_Cons le0 le_add_diff_inverse)
  moreover have "filter P [0..<i] = []"
    using assms(3) by (auto simp: filter_empty_conv)
  ultimately show ?thesis using assms(2) by simp
qed

lemma nonzero_all_zero: "(\<forall>i<length x. x ! i = 0) \<Longrightarrow> nonzero x = []"
  by (auto simp: nonzero_def filter_empty_conv)

lemma nonzero_first:
  "i < length x \<Longrightarrow> x ! i \<noteq> 0 \<Longrightarrow> \<forall>j<i. x ! j = 0 \<Longrightarrow> \<exists>rest. nonzero x = i # rest"
  unfolding nonzero_def using filter_upt_first [of i "length x" "\<lambda>i. x ! i \<noteq> 0"] by auto

lemma soil_len: "length soil_type_values = 40"
  by (simp add: soil_type_values_def)

lemma traverse_nth:
  "(\<And>i. i < length xs \<Longrightarrow> f (xs ! i) = Inr (g i)) \<Longrightarrow> traverse f xs = Inr (map g [0..<length xs])"
  by (simp add: traverse_Inr_iff)

lemma find_cover_type: "find_index_of ''Cover_Type'' CSV_HEADER = Some 12"
  by (simp add: CSV_HEADER_def)

lemma length_CSV_HEADER: "length CSV_HEADER = 13"
  by (simp add: CSV_HEADER_def)

lemma apply_axis1_Inr:
  assumes "\<And>i. i < length frame \<Longrightarrow> f (frame ! i) = Inr (g i)"
    and "\<And>row. row \<in> set frame \<Longrightarrow> row \<noteq> []"
  shows "apply_axis1 f frame = Inr (map (\<lambda>i. [StrV (g i)]) [0..<length frame])"
proof (cases "frame = []")
  case True
  then show ?thesis by (simp add: apply_axis1_def)
next
  case False
  then have "\<not> list_all (\<lambda>row. row = []) frame"
    using assms(2) by (cases frame) auto
  moreover have "traverse (\<lambda>row. case f row of Inl e \<Rightarrow> Inl e | Inr s \<Rightarrow> Inr [StrV s]) frame
      = Inr (map (\<lambda>i. [StrV (g i)]) [0..<length frame])"
    by (rule traverse_nth) (simp add: assms(1))
  ultimately show ?thesis by (simp add: apply_axis1_def)
qed

lemma apply_axis1_Inr_nth:
  assumes "apply_axis1 f frame = Inr col" and "\<And>row. row \<in> set frame \<Longrightarrow> row \<noteq> []"
    and "i < length frame"
  shows "\<exists>s. f (frame ! i) = Inr s \<and> col ! i = [StrV s]"
proof -
  have ne: "\<not> list_all (\<lambda>row. row = []) frame"
    using assms(2,3) by (cases frame) auto
  with assms(1) have "traverse (\<lambda>row. case f row of Inl e \<Rightarrow> Inl e | Inr s \<Rightarrow> Inr [StrV s]) frame = Inr col"
    by (simp add: apply_axis1_def)
  then have "(case f (frame ! i) of Inl e \<Rightarrow> Inl e | Inr s \<Rightarrow> Inr [StrV s]) = Inr (col ! i)"
    using assms(3) by (simp add: traverse_Inr_iff)
  then show ?thesis by (cases "f (frame ! i)") auto
qed

lemma reshape_Inr:
  assumes wide: "\<And>row. row \<in> set raw_data \<Longrightarrow> 55 \<le> length row"
    and soil: "\<And>i. i < length raw_data \<Longrightarrow>
        decode_block soil_type_values (loc_cols 14 53 (raw_data ! i)) = Inr (s i)"
    and area: "\<And>i. i < length raw_data \<Longrightarrow>
        decode_block wilderness_area_values (loc_cols 10 13 (raw_data ! i)) = Inr (w i)"
  shows "reshape raw_data =
    Inr \<lparr>columns = CSV_HEADER,
         rows = map (\<lambda>i. (i, map IntV (loc_cols 0 9 (raw_data ! i)) @ [StrV (w i), StrV (s i), IntV (raw_data ! i ! 54 - 1)])) [0..<length raw_data]\<rparr>"
proof -
  let ?n = "length raw_data"
  have wide': "\<And>i. i < ?n \<Longrightarrow> 55 \<le> length (raw_data ! i)"
    using wide nth_mem by blast
  have s1: "apply_axis1 (decode_block soil_type_values) (map (loc_cols 14 53) raw_data)
      = Inr (map (\<lambda>i. [StrV (s i)]) [0..<?n])"
    using apply_axis1_Inr [of "map (loc_cols 14 53) raw_data" "decode_block soil_type_values" s]
      soil wide by (fastforce simp: loc_cols_def)
  have s2: "apply_axis1 (decode_block wilderness_area_values) (map (loc_cols 10 13) raw_data)
      = Inr (map (\<lambda>i. [StrV (w i)]) [0..<?n])"
    using apply_axis1_Inr [of "map (loc_cols 10 13) raw_data" "decode_block wilderness_area_values" w]
      area wide by (fastforce simp: loc_cols_def)
  have s3: "traverse (loc_col 54) raw_data = Inr (map (\<lambda>i. raw_data ! i ! 54) [0..<?n])"
    by (rule traverse_nth) (use wide' in \<open>fastforce simp: loc_col_def\<close>)
  let ?rs = "map (\<lambda>i. (i, map IntV (loc_cols 0 9 (raw_data ! i)) @ [StrV (w i), StrV (s i), IntV (raw_data ! i ! 54)])) [0..<?n]"
  have s4: "concat_axis1 ?n
                [map (\<lambda>row. map IntV (loc_cols 0 9 row)) raw_data,
                 map (\<lambda>i. [StrV (w i)]) [0..<?n], map (\<lambda>i. [StrV (s i)]) [0..<?n],
                 map (\<lambda>v. [IntV v]) (map (\<lambda>i. raw_data ! i ! 54) [0..<?n])] = ?rs"
    by (simp add: concat_axis1_def)
  have len: "\<And>i. i < ?n \<Longrightarrow> length (loc_cols 0 9 (raw_data ! i)) = 10"
    using wide' by (fastforce simp: loc_cols_def)
  have s5: "set_columns CSV_HEADER ?rs = Inr \<lparr>columns = CSV_HEADER, rows = ?rs\<rparr>"
    by (simp add: set_columns_def list_all_iff length_CSV_HEADER len)
  have s6: "traverse (update_row 12) ?rs
      = Inr (map (\<lambda>i. (i, map IntV (loc_cols 0 9 (raw_data ! i)) @ [StrV (w i), StrV (s i), IntV (raw_data ! i ! 54 - 1)])) [0..<?n])"
    by (rule traverse_nth [of ?rs "update_row 12", simplified])
       (simp add: update_row_def minus_one_def len nth_append list_update_append)
  show ?thesis
    unfolding reshape_def s1 s2 s3 sum.case s4 s5
    by (simp add: column_minus_one_def find_cover_type s6)
qed

lemma reshape_Inr_decodes:
  assumes wide: "\<And>row. row \<in> set raw_data \<Longrightarrow> 55 \<le> length row"
    and ok: "reshape raw_data = Inr data" and i: "i < length raw_data"
  shows "\<exists>w s. decode_block wilderness_area_values (loc_cols 10 13 (raw_data ! i)) = Inr w \<and>
     decode_block soil_type_values (loc_cols 14 53 (raw_data ! i)) = Inr s"
proof -
  from ok obtain soil where s1: "apply_axis1 (decode_block soil_type_values) (map (loc_cols 14 53) raw_data) = Inr soil"
    unfolding reshape_def by (auto split: sum.splits)
  from ok obtain area where s2: "apply_axis1 (decode_block wilderness_area_values) (map (loc_cols 10 13) raw_data) = Inr area"
    unfolding reshape_def by (auto split: sum.splits)
  have "\<exists>s. decode_block soil_type_values (map (loc_cols 14 53) raw_data ! i) = Inr s \<and> soil ! i = [StrV s]"
    by (rule apply_axis1_Inr_nth [OF s1]) (use wide i in \<open>fastforce simp: loc_cols_def\<close>)+
  moreover have "\<exists>s. decode_block wilderness_area_values (map (loc_cols 10 13) raw_data ! i) = Inr s \<and> area ! i = [StrV s]"
    by (rule apply_axis1_Inr_nth [OF s2]) (use wide i in \<open>fastforce simp: loc_cols_def\<close>)+
  ultimately show ?thesis using i by auto
qed

lemma decode_block_Inr_iff:
  assumes "length x \<le> length values"
  shows "(\<exists>name. decode_block values x = Inr name) \<longleftrightarrow> (\<exists>j<length x. x ! j \<noteq> 0)"
proof
  assume "\<exists>name. decode_block values x = Inr name"
  then obtain name where a: "decode_block values x = Inr name" ..
  show "\<exists>j<length x. x ! j \<noteq> 0"
  proof (rule ccontr)
    assume "\<not> (\<exists>j<length x. x ! j \<noteq> 0)"
    then have "nonzero x = []" by (simp add: nonzero_all_zero)
    with a show False by (simp add: decode_block_def getitem_def)
  qed
next
  assume "\<exists>j<length x. x ! j \<noteq> 0"
  then have ex: "\<exists>j. j < length x \<and> x ! j \<noteq> 0" by blast
  define i where "i = (LEAST j. j < length x \<and> x ! j \<noteq> 0)"
  have i: "i < length x \<and> x ! i \<noteq> 0" unfolding i_def using ex by (rule LeastI_ex)
  have "\<forall>j<i. x ! j = 0"
  proof (intro allI impI)
    fix j assume "j < i"
    then have "\<not> (j < length x \<and> x ! j \<noteq> 0)" unfolding i_def by (rule not_less_Least)
    moreover have "j < length x" using \<open>j < i\<close> i by simp
    ultimately show "x ! j = 0" by simp
  qed
  then obtain rest where "nonzero x = i # rest" using nonzero_first i by blast
  then show "\<exists>name. decode_block values x = Inr name"
    using i assms by (simp add: decode_block_def getitem_def)
qed

lemma length_wilderness_area_values: "length wilderness_area_values = 4"
  by (simp add: wilderness_area_values_def)

lemma block_nonzero_iff:
  assumes "a + n \<le> length row"
  shows "(\<exists>j<length (take n (drop a row)). take n (drop a row) ! j \<noteq> 0) \<longleftrightarrow> (\<exists>j\<in>{a..<a + n}. row ! j \<noteq> (0::int64))"
proof -
  have len: "length (take n (drop a row)) = n" using assms by simp
  have nth: "\<And>j. j < n \<Longrightarrow> take n (drop a row) ! j = row ! (a + j)" using assms by simp
  show ?thesis
  proof
    assume "\<exists>j<length (take n (drop a row)). take n (drop a row) ! j \<noteq> 0"
    then obtain j where "j < n" "row ! (a + j) \<noteq> 0" using len nth by auto
    then show "\<exists>j\<in>{a..<a + n}. row ! j \<noteq> 0" by (intro bexI [of _ "a + j"]) auto
  next
    assume "\<exists>j\<in>{a..<a + n}. row ! j \<noteq> 0"
    then obtain j where j: "a \<le> j" "j < a + n" "row ! j \<noteq> 0" by auto
    then have "j - a < n" "row ! (a + (j - a)) \<noteq> 0" by auto
    then show "\<exists>j<length (take n (drop a row)). take n (drop a row) ! j \<noteq> 0"
      using len nth by metis
  qed
qed


lemma sample_row_55: "length sample_row = 55" by (simp add: sample_row_def)

lemma reshape_sample:
  "reshape [sample_row] =
     Inr \<lparr>columns = CSV_HEADER,
          rows = [(0, [IntV 2596, IntV 51, IntV 3, IntV 258, IntV 0, IntV 510, IntV 221, IntV 232,
                       IntV 148, IntV 6279, StrV ''area_type_1'', StrV ''soil_type_29'', IntV 4])]\<rparr>"
  by code_simp

lemma boolean_mask_mset:
  "length m = length xs \<Longrightarrow>
     mset (boolean_mask m xs) + mset (boolean_mask (map Not m) xs) = mset xs"
  by (induction m xs rule: list_induct2) (auto simp: boolean_mask_def)

lemma set_boolean_mask:
  "length m = length xs \<Longrightarrow> set (boolean_mask m xs) = {xs ! i | i. i < length xs \<and> m ! i}"
  by (force simp: boolean_mask_def set_zip image_iff)

lemma boolean_mask_member:
  assumes "length m = length xs" "distinct xs" "j < length xs"
  shows "xs ! j \<in> set (boolean_mask m xs) \<longleftrightarrow> m ! j"
  using assms by (auto simp: set_boolean_mask nth_eq_iff_index_eq)

lemma boolean_mask_subset: "set (boolean_mask m xs) \<subseteq> set xs"
  by (auto simp: boolean_mask_def dest: set_zip_rightD)

lemma length_random_selection [simp]: "length (random_selection rand g n) = n"
  by (simp add: random_selection_def)

lemma nth_random_selection [simp]: "j < n \<Longrightarrow> random_selection rand g n ! j = (rand g j \<le> 0.85)"
  by (simp add: random_selection_def)

lemma length_boolean_mask:
  "length m = length xs \<Longrightarrow> length (boolean_mask m xs) = length (filter (\<lambda>j. m ! j) [0..<length xs])"
proof (induction m xs rule: list_induct2)
  case Nil
  then show ?case by (simp add: boolean_mask_def)
next
  case (Cons b m x xs)
  have "filter (\<lambda>j. (b # m) ! j) [0..<Suc (length xs)] =
      (if b then [0] else []) @ map Suc (filter (\<lambda>j. m ! j) [0..<length xs])"
    by (simp add: upt_rec [of 0] map_Suc_upt [symmetric] filter_map comp_def del: upt_Suc)
  with Cons show ?case by (simp add: boolean_mask_def)
qed

lemma split_loop_enumerate:
  "split_loop rand g groups (train_splits, test_splits) =
     (train_splits @ map (\<lambda>(i, key, group_data).
          boolean_mask (random_selection rand i (length group_data)) group_data) (enumerate g groups),
      test_splits @ map (\<lambda>(i, key, group_data).
          boolean_mask (map Not (random_selection rand i (length group_data))) group_data) (enumerate g groups))"
  by (induction rand g groups "(train_splits, test_splits)" arbitrary: train_splits test_splits
      rule: split_loop.induct) auto

lemma mset_filter_partition_keys:
  assumes "distinct ks" and "\<And>k k' r. P k r \<Longrightarrow> P k' r \<Longrightarrow> k = k'"
  shows "mset (concat (map (\<lambda>key. filter (P key) xs) ks)) = mset (filter (\<lambda>r. \<exists>key\<in>set ks. P key r) xs)"
  using assms(1)
proof (induction ks)
  case Nil
  then show ?case by simp
next
  case (Cons k ks)
  have "mset (filter (P k) xs) + mset (filter (\<lambda>r. \<exists>key\<in>set ks. P key r) xs)
      = mset (filter (\<lambda>r. \<exists>key\<in>set (k # ks). P key r) xs)"
    using Cons.prems assms(2) by (induction xs) auto
  with Cons show ?case by simp
qed

lemma rand_values_card:
  "card rand_values = 2 ^ 53 \<and> card {x \<in> rand_values. x \<le> 0.85} = 7656119366529844 \<and>
   \<bar>7656119366529844 / 2 ^ 53 - 0.85 :: real\<bar> < 1 / 2 ^ 52 \<and> (\<forall>x\<in>rand_values. 0 \<le> x \<and> x < 1)"
proof -
  have inj: "inj_on (\<lambda>k. real k / 2 ^ 53) A" for A :: "nat set"
    by (rule inj_onI) simp
  have c1: "card rand_values = 2 ^ 53"
    unfolding rand_values_def card_image [OF inj] by simp
  have le: "real k / 2 ^ 53 \<le> 0.85 \<longleftrightarrow> k \<le> 7656119366529843" for k :: nat
  proof -
    have "real k / 2 ^ 53 \<le> 0.85 \<longleftrightarrow> real k * 100 \<le> 85 * 2 ^ 53"
      by (simp add: field_simps)
    also have "\<dots> \<longleftrightarrow> real (k * 100) \<le> real (85 * 2 ^ 53)"
      by simp
    also have "\<dots> \<longleftrightarrow> k * 100 \<le> 85 * 2 ^ 53"
      by (rule of_nat_le_iff)
    also have "\<dots> \<longleftrightarrow> k \<le> 7656119366529843"
      by simp presburger
    finally show ?thesis .
  qed
  have "{x \<in> rand_values. x \<le> 0.85} = (\<lambda>k. real k / 2 ^ 53) ` {..7656119366529843}"
  proof (intro set_eqI iffI)
    fix x assume "x \<in> {x \<in> rand_values. x \<le> 0.85}"
    then obtain k where k: "x = real k / 2 ^ 53" "x \<le> 0.85"
      unfolding rand_values_def by auto
    then have "k \<le> 7656119366529843" using le by simp
    then show "x \<in> (\<lambda>k. real k / 2 ^ 53) ` {..7656119366529843}" using k(1) by simp
  next
    fix x assume "x \<in> (\<lambda>k. real k / 2 ^ 53) ` {..7656119366529843}"
    then obtain k where k: "x = real k / 2 ^ 53" "k \<le> 7656119366529843" by auto
    then have "x \<le> 0.85" using le by simp
    moreover have "k < 2 ^ 53" using k(2) by simp
    ultimately show "x \<in> {x \<in> rand_values. x \<le> 0.85}"
      unfolding rand_values_def using k(1) by auto
  qed
  then have c2: "card {x \<in> rand_values. x \<le> 0.85} = 7656119366529844"
    unfolding card_image [OF inj] by (simp only: card_image [OF inj]) simp
  have c3: "\<bar>7656119366529844 / 2 ^ 53 - 0.85 :: real\<bar> < 1 / 2 ^ 52"
    by simp
  have c4: "\<forall>x\<in>rand_values. 0 \<le> x \<and> x < 1"
    unfolding rand_values_def by auto
  show ?thesis using c1 c2 c3 c4 by blast
qed

lemma groupby_Inr:
  assumes "find_index_of name (columns df) = Some k"
    and "\<forall>r\<in>set (rows df). \<exists>v. snd r ! k = IntV v"
  shows "\<exists>ks. distinct ks \<and> groupby name df =
      Inr (map (\<lambda>key. (key, filter (\<lambda>r. snd r ! k = IntV key) (rows df))) ks) \<and>
      (\<forall>r\<in>set (rows df). \<exists>v\<in>set ks. snd r ! k = IntV v)"
proof -
  define key where "key r = (case snd r ! k of IntV v \<Rightarrow> v | StrV s \<Rightarrow> 0)" for r :: "nat \<times> cell list"
  have key: "snd r ! k = IntV (key r)" if "r \<in> set (rows df)" for r
    using assms(2) that by (auto simp: key_def)
  have "traverse (\<lambda>r. int_cell (snd r ! k)) (rows df) = Inr (map key (rows df))"
    by (rule traverse_map_Inr) (simp add: key int_cell_def)
  then have "groupby name df =
      Inr (map (\<lambda>key. (key, filter (\<lambda>r. snd r ! k = IntV key) (rows df)))
             (sort_key sint (remdups (map key (rows df)))))"
    by (simp add: groupby_def assms(1))
  moreover have "distinct (sort_key sint (remdups (map key (rows df))))"
    by (simp add: distinct_sort)
  moreover have "\<forall>r\<in>set (rows df). \<exists>v\<in>set (sort_key sint (remdups (map key (rows df)))). snd r ! k = IntV v"
    using key by auto
  ultimately show ?thesis by blast
qed

lemma split_loop_mset:
  "split_loop rand g groups (train_splits, test_splits) = (train_splits', test_splits') \<Longrightarrow>
     mset (concat train_splits') + mset (concat test_splits') =
     mset (concat train_splits) + mset (concat test_splits) + mset (concat (map snd groups))"
proof (induction rand g groups "(train_splits, test_splits)" arbitrary: train_splits test_splits
      rule: split_loop.induct)
  case (1 rand g train_splits test_splits)
  then show ?case by simp
next
  case (2 rand g key group_data groups train_splits test_splits)
  have "mset (boolean_mask (random_selection rand g (length group_data)) group_data) +
        mset (boolean_mask (map Not (random_selection rand g (length group_data))) group_data)
        = mset group_data"
    by (rule boolean_mask_mset) simp
  with 2 show ?case by (simp add: algebra_simps)
qed

lemma split_loop_nth:
  assumes "split_loop rand 0 groups ([], []) = (train_splits, test_splits)"
  shows "length train_splits = length groups \<and> length test_splits = length groups \<and>
    (\<forall>g<length groups.
       train_splits ! g = boolean_mask (random_selection rand g (length (snd (groups ! g)))) (snd (groups ! g)) \<and>
       test_splits ! g = boolean_mask (map Not (random_selection rand g (length (snd (groups ! g))))) (snd (groups ! g)))"
proof -
  have tr: "train_splits = map (\<lambda>(i, key, group_data).
          boolean_mask (random_selection rand i (length group_data)) group_data) (enumerate 0 groups)"
    and te: "test_splits = map (\<lambda>(i, key, group_data).
          boolean_mask (map Not (random_selection rand i (length group_data))) group_data) (enumerate 0 groups)"
    using assms by (simp_all add: split_loop_enumerate)
  show ?thesis
    by (simp add: tr te nth_enumerate_eq case_prod_beta)
qed

lemma split_membership:
  assumes dis: "\<And>g. g < length groups \<Longrightarrow> distinct (snd (groups ! g))"
    and disj: "\<And>g h. g < length groups \<Longrightarrow> h < length groups \<Longrightarrow> g \<noteq> h \<Longrightarrow>
        set (snd (groups ! g)) \<inter> set (snd (groups ! h)) = {}"
    and split: "split_loop rand 0 groups ([], []) = (train_splits, test_splits)"
    and g: "g < length groups" and j: "j < length (snd (groups ! g))"
  shows "(snd (groups ! g) ! j \<in> set (concat train_splits) \<longleftrightarrow> rand g j \<le> 0.85) \<and>
         (snd (groups ! g) ! j \<in> set (concat test_splits) \<longleftrightarrow> \<not> rand g j \<le> 0.85)"
proof -
  let ?r = "snd (groups ! g) ! j"
  let ?sel = "\<lambda>h. random_selection rand h (length (snd (groups ! h)))"
  note nth = split_loop_nth [OF split]
  have mem: "?r \<in> set (snd (groups ! g))" using j by simp
  have only: "h = g" if "h < length groups" "?r \<in> set (snd (groups ! h))" for h
    using disj [of g h] that mem g by auto
  have "?r \<in> set (concat train_splits) \<longleftrightarrow> (\<exists>h<length groups. ?r \<in> set (train_splits ! h))"
    using nth by (auto simp: set_conv_nth [of train_splits])
  also have "\<dots> \<longleftrightarrow> ?r \<in> set (boolean_mask (?sel g) (snd (groups ! g)))"
  proof
    assume "\<exists>h<length groups. ?r \<in> set (train_splits ! h)"
    then obtain h where h: "h < length groups" "?r \<in> set (train_splits ! h)" by blast
    then have "?r \<in> set (snd (groups ! h))" using nth boolean_mask_subset by fastforce
    then have "h = g" using only h(1) by simp
    then show "?r \<in> set (boolean_mask (?sel g) (snd (groups ! g)))" using h nth by simp
  next
    assume "?r \<in> set (boolean_mask (?sel g) (snd (groups ! g)))"
    then show "\<exists>h<length groups. ?r \<in> set (train_splits ! h)" using nth g by auto
  qed
  also have "\<dots> \<longleftrightarrow> rand g j \<le> 0.85"
    using boolean_mask_member [of "?sel g" "snd (groups ! g)" j] dis [OF g] j by simp
  finally have a: "?r \<in> set (concat train_splits) \<longleftrightarrow> rand g j \<le> 0.85" .
  have "?r \<in> set (concat test_splits) \<longleftrightarrow> (\<exists>h<length groups. ?r \<in> set (test_splits ! h))"
    using nth by (auto simp: set_conv_nth [of test_splits])
  also have "\<dots> \<longleftrightarrow> ?r \<in> set (boolean_mask (map Not (?sel g)) (snd (groups ! g)))"
  proof
    assume "\<exists>h<length groups. ?r \<in> set (test_splits ! h)"
    then obtain h where h: "h < length groups" "?r \<in> set (test_splits ! h)" by blast
    then have "?r \<in> set (snd (groups ! h))" using nth boolean_mask_subset by fastforce
    then have "h = g" using only h(1) by simp
    then show "?r \<in> set (boolean_mask (map Not (?sel g)) (snd (groups ! g)))" using h nth by simp
  next
    assume "?r \<in> set (boolean_mask (map Not (?sel g)) (snd (groups ! g)))"
    then show "\<exists>h<length groups. ?r \<in> set (test_splits ! h)" using nth g by auto
  qed
  also have "\<dots> \<longleftrightarrow> \<not> rand g j \<le> 0.85"
    using boolean_mask_member [of "map Not (?sel g)" "snd (groups ! g)" j] dis [OF g] j by simp
  finally have b: "?r \<in> set (concat test_splits) \<longleftrightarrow> \<not> rand g j \<le> 0.85" .
  show ?thesis using a b by simp
qed

lemma split_loop_length:
  assumes "split_loop rand 0 groups ([], []) = (train_splits, test_splits)"
  shows "length (concat train_splits) =
     (\<Sum>g<length groups. length (filter (\<lambda>j. rand g j \<le> 0.85) [0..<length (snd (groups ! g))]))"
proof -
  note nth = split_loop_nth [OF assms]
  have "length (concat train_splits) = (\<Sum>g<length train_splits. length (train_splits ! g))"
    by (simp add: length_concat sum_list_sum_nth atLeast0LessThan)
  also have "\<dots> = (\<Sum>g<length groups. length (filter (\<lambda>j. rand g j \<le> 0.85) [0..<length (snd (groups ! g))]))"
  proof (rule sum.cong)
    show "{..<length train_splits} = {..<length groups}" using nth by simp
  next
    fix g assume "g \<in> {..<length groups}"
    then have g: "g < length groups" by simp
    have "length (train_splits ! g) =
        length (filter (\<lambda>j. random_selection rand g (length (snd (groups ! g))) ! j) [0..<length (snd (groups ! g))])"
      using nth g by (simp add: length_boolean_mask)
    also have "\<dots> = length (filter (\<lambda>j. rand g j \<le> 0.85) [0..<length (snd (groups ! g))])"
      by (rule arg_cong [where f = length], rule filter_cong) auto
    finally show "length (train_splits ! g) = length (filter (\<lambda>j. rand g j \<le> 0.85) [0..<length (snd (groups ! g))])" .
  qed
  finally show ?thesis .
qed

lemma reshape_Inr_wide:
  assumes "reshape raw_data = Inr data" and "row \<in> set raw_data"
  shows "55 \<le> length row"
proof -
  from assms(1) obtain label where "traverse (loc_col 54) raw_data = Inr label"
    unfolding reshape_def by (auto split: sum.splits)
  then have "\<forall>i<length raw_data. loc_col 54 (raw_data ! i) = Inr (label ! i)"
    by (simp add: traverse_Inr_iff)
  moreover obtain i where "i < length raw_data" "row = raw_data ! i"
    using assms(2) by (metis in_set_conv_nth)
  ultimately have "loc_col 54 row = Inr (label ! i)" by simp
  then show ?thesis by (simp add: loc_col_def split: if_splits)
qed

lemma reshape_frame:
  assumes "reshape raw_data = Inr data"
  shows "columns data = CSV_HEADER" and "map fst (rows data) = [0..<length raw_data]"
    and "\<forall>r\<in>set (rows data). \<exists>v. snd r ! 12 = IntV v"
proof -
  have wide: "\<And>row. row \<in> set raw_data \<Longrightarrow> 55 \<le> length row"
    using reshape_Inr_wide [OF assms] .
  have "\<forall>i<length raw_data. \<exists>w s. decode_block wilderness_area_values (loc_cols 10 13 (raw_data ! i)) = Inr w \<and>
     decode_block soil_type_values (loc_cols 14 53 (raw_data ! i)) = Inr s"
    using reshape_Inr_decodes [OF wide assms] by blast
  then obtain w s where ws: "\<And>i. i < length raw_data \<Longrightarrow>
        decode_block wilderness_area_values (loc_cols 10 13 (raw_data ! i)) = Inr (w i)"
      "\<And>i. i < length raw_data \<Longrightarrow>
        decode_block soil_type_values (loc_cols 14 53 (raw_data ! i)) = Inr (s i)"
    by metis
  have data: "data = \<lparr>columns = CSV_HEADER,
         rows = map (\<lambda>i. (i, map IntV (loc_cols 0 9 (raw_data ! i)) @ [StrV (w i), StrV (s i), IntV (raw_data ! i ! 54 - 1)])) [0..<length raw_data]\<rparr>"
    using reshape_Inr [OF wide ws(2) ws(1)] assms by simp
  show "columns data = CSV_HEADER" by (simp add: data)
  show "map fst (rows data) = [0..<length raw_data]"
    by (simp add: data comp_def)
  have len: "\<And>i. i < length raw_data \<Longrightarrow> length (loc_cols 0 9 (raw_data ! i)) = 10"
    using wide nth_mem by (fastforce simp: loc_cols_def)
  show "\<forall>r\<in>set (rows data). \<exists>v. snd r ! 12 = IntV v"
    by (auto simp: data nth_append len)
qed

lemma reshape_sample_data: "reshape [sample_row, sample_row2, sample_row] = Inr sample_data"
  by code_simp

lemma set_unique [simp]: "set (unique xs) = set xs"
  by (induction xs rule: unique.induct) auto

lemma distinct_unique [simp]: "distinct (unique xs)"
  by (induction xs rule: unique.induct) auto

lemma find_soil: "find_index_of ''Soil_Type'' CSV_HEADER = Some 11"
  by (simp add: CSV_HEADER_def)

lemma find_area: "find_index_of ''Wilderness_Area'' CSV_HEADER = Some 10"
  by (simp add: CSV_HEADER_def)




subsection \<open>Decoding a binary-encoded block\<close>

text \<open>
  Claim C9. Decoding a binary-encoded block returns the name at the position of the
  first nonzero entry of the block. A block whose entries are all zero raises
  \<^verbatim>\<open>IndexError\<close>, so a name is returned only for a block with a nonzero entry; entries
  after the first nonzero one are not looked at. The first nonzero position \<open>i\<close> always
  names a category when the block is no longer than the list of names, as it is for the
  40 soil columns and the 4 wilderness columns.
\<close>

theorem decode_block_first_nonzero:
  "((\<forall>j<length x. x ! j = 0) \<longrightarrow> decode_block values x = Inl IndexError) \<and>
   (i < length x \<and> x ! i \<noteq> 0 \<and> (\<forall>j<i. x ! j = 0) \<longrightarrow>
        decode_block values x = (if i < length values then Inr (values ! i) else Inl IndexError)) \<and>
   (decode_block values x = Inr name \<longrightarrow> (\<exists>j<length x. x ! j \<noteq> 0))"
proof (intro conjI impI)
  assume "\<forall>j<length x. x ! j = 0"
  then show "decode_block values x = Inl IndexError"
    by (simp add: decode_block_def nonzero_all_zero getitem_def)
next
  assume "i < length x \<and> x ! i \<noteq> 0 \<and> (\<forall>j<i. x ! j = 0)"
  then obtain rest where "nonzero x = i # rest" using nonzero_first by blast
  then show "decode_block values x = (if i < length values then Inr (values ! i) else Inl IndexError)"
    by (simp add: decode_block_def getitem_def)
next
  assume a: "decode_block values x = Inr name"
  show "\<exists>j<length x. x ! j \<noteq> 0"
  proof (rule ccontr)
    assume "\<not> (\<exists>j<length x. x ! j \<noteq> 0)"
    then have "nonzero x = []" by (simp add: nonzero_all_zero)
    with a show False by (simp add: decode_block_def getitem_def)
  qed
qed

theorem decode_block_first_nonzero_witness:
  "decode_block soil_type_values [0, 0, 3, 0, 4] = Inr ''soil_type_3'' \<and>
   decode_block soil_type_values [0, 0, 0] = Inl IndexError"
proof -
  have a: "decode_block soil_type_values [0, 0, 3, 0, 4] = Inr (soil_type_values ! 2)"
    using decode_block_first_nonzero [of "[0, 0, 3, 0, 4]" soil_type_values 2 "''soil_type_3''",
        THEN conjunct2, THEN conjunct1]
    by (simp add: soil_len nth_Cons' less_2_cases_iff)
  have b: "decode_block soil_type_values [0, 0, 0] = Inl IndexError"
    using decode_block_first_nonzero [of "[0, 0, 0]" soil_type_values 0 "''soil_type_1''", THEN conjunct1]
    by (simp add: nth_Cons')
  have c: "soil_type_values ! 2 = ''soil_type_3''"
    by (simp add: soil_type_values_def str_nat.simps digit_def)
  show ?thesis using a b c by simp
qed

subsection \<open>The columns that the reshaping reads\<close>

text \<open>
  Claim C6. The raw table is read without a header from the one address \<open>data_url\<close>,
  so its columns are labelled by position. On a table of 55 columns the reshaping
  succeeds exactly when every row has a nonzero entry among the columns 10 to 13 and
  among the columns 14 to 53. It then builds row \<open>i\<close> from the columns 0 to 9 as they
  are, the name decoded from the columns 10 to 13, the name decoded from the columns 14
  to 53, and column 54 minus one. These four pieces are the whole row: no column is
  left out and none is read twice.
\<close>

theorem reshape_reads_55_columns:
  assumes "\<forall>row\<in>set raw_data. length row = 55"
  shows "((\<exists>data. reshape raw_data = Inr data) \<longleftrightarrow>
            (\<forall>row\<in>set raw_data. (\<exists>j\<in>{10..<14}. row ! j \<noteq> 0) \<and> (\<exists>j\<in>{14..<54}. row ! j \<noteq> 0))) \<and>
         (\<forall>data. reshape raw_data = Inr data \<longrightarrow>
            length (rows data) = length raw_data \<and>
            (\<forall>i<length raw_data. \<exists>w s.
               decode_block wilderness_area_values (take 4 (drop 10 (raw_data ! i))) = Inr w \<and>
               decode_block soil_type_values (take 40 (drop 14 (raw_data ! i))) = Inr s \<and>
               rows data ! i =
                 (i, map IntV (take 10 (raw_data ! i)) @ [StrV w, StrV s, IntV (raw_data ! i ! 54 - 1)]))) \<and>
         (\<forall>row\<in>set raw_data.
            take 10 row @ take 4 (drop 10 row) @ take 40 (drop 14 row) @ [row ! 54] = row)"
proof (intro conjI allI impI ballI)
  have wide: "\<And>row. row \<in> set raw_data \<Longrightarrow> 55 \<le> length row" using assms by simp
  have wide': "\<And>i. i < length raw_data \<Longrightarrow> length (raw_data ! i) = 55" using assms by simp
  show "(\<exists>data. reshape raw_data = Inr data) \<longleftrightarrow>
            (\<forall>row\<in>set raw_data. (\<exists>j\<in>{10..<14}. row ! j \<noteq> 0) \<and> (\<exists>j\<in>{14..<54}. row ! j \<noteq> 0))"
  proof
    assume "\<exists>data. reshape raw_data = Inr data"
    then obtain data where ok: "reshape raw_data = Inr data" ..
    show "\<forall>row\<in>set raw_data. (\<exists>j\<in>{10..<14}. row ! j \<noteq> 0) \<and> (\<exists>j\<in>{14..<54}. row ! j \<noteq> 0)"
    proof
      fix row assume "row \<in> set raw_data"
      then obtain i where i: "i < length raw_data" "row = raw_data ! i" by (metis in_set_conv_nth)
      have len: "length row = 55" using i wide' by simp
      from reshape_Inr_decodes [OF wide ok i(1)] i(2)
      have "\<exists>w. decode_block wilderness_area_values (take 4 (drop 10 row)) = Inr w"
        and "\<exists>s. decode_block soil_type_values (take 40 (drop 14 row)) = Inr s"
        by (auto simp: loc_cols_def)
      then have "\<exists>j<length (take 4 (drop 10 row)). take 4 (drop 10 row) ! j \<noteq> 0"
        and "\<exists>j<length (take 40 (drop 14 row)). take 40 (drop 14 row) ! j \<noteq> 0"
        using len by (simp_all add: decode_block_Inr_iff length_wilderness_area_values soil_len)
      then show "(\<exists>j\<in>{10..<14}. row ! j \<noteq> 0) \<and> (\<exists>j\<in>{14..<54}. row ! j \<noteq> 0)"
        using block_nonzero_iff [of 10 4 row] block_nonzero_iff [of 14 40 row] len by simp
    qed
  next
    assume nz: "\<forall>row\<in>set raw_data. (\<exists>j\<in>{10..<14}. row ! j \<noteq> 0) \<and> (\<exists>j\<in>{14..<54}. row ! j \<noteq> 0)"
    have "\<forall>i<length raw_data. \<exists>w. decode_block wilderness_area_values (loc_cols 10 13 (raw_data ! i)) = Inr w"
    proof (intro allI impI)
      fix i assume i: "i < length raw_data"
      then have "\<exists>j\<in>{10..<14}. raw_data ! i ! j \<noteq> 0" using nz by simp
      then have "\<exists>j<length (take 4 (drop 10 (raw_data ! i))). take 4 (drop 10 (raw_data ! i)) ! j \<noteq> 0"
        using block_nonzero_iff [of 10 4 "raw_data ! i"] wide' [OF i] by simp
      then show "\<exists>w. decode_block wilderness_area_values (loc_cols 10 13 (raw_data ! i)) = Inr w"
        using wide' [OF i] by (simp add: decode_block_Inr_iff length_wilderness_area_values loc_cols_def)
    qed
    then obtain w where w: "\<And>i. i < length raw_data \<Longrightarrow>
        decode_block wilderness_area_values (loc_cols 10 13 (raw_data ! i)) = Inr (w i)"
      by metis
    have "\<forall>i<length raw_data. \<exists>s. decode_block soil_type_values (loc_cols 14 53 (raw_data ! i)) = Inr s"
    proof (intro allI impI)
      fix i assume i: "i < length raw_data"
      then have "\<exists>j\<in>{14..<54}. raw_data ! i ! j \<noteq> 0" using nz by simp
      then have "\<exists>j<length (take 40 (drop 14 (raw_data ! i))). take 40 (drop 14 (raw_data ! i)) ! j \<noteq> 0"
        using block_nonzero_iff [of 14 40 "raw_data ! i"] wide' [OF i] by simp
      then show "\<exists>s. decode_block soil_type_values (loc_cols 14 53 (raw_data ! i)) = Inr s"
        using wide' [OF i] by (simp add: decode_block_Inr_iff soil_len loc_cols_def)
    qed
    then obtain s where s: "\<And>i. i < length raw_data \<Longrightarrow>
        decode_block soil_type_values (loc_cols 14 53 (raw_data ! i)) = Inr (s i)"
      by metis
    show "\<exists>data. reshape raw_data = Inr data"
      using reshape_Inr [OF wide s w] by simp
  qed
next
  fix data assume ok: "reshape raw_data = Inr data"
  have wide: "\<And>row. row \<in> set raw_data \<Longrightarrow> 55 \<le> length row" using assms by simp
  have dec: "\<forall>i<length raw_data. \<exists>w s. decode_block wilderness_area_values (loc_cols 10 13 (raw_data ! i)) = Inr w \<and>
     decode_block soil_type_values (loc_cols 14 53 (raw_data ! i)) = Inr s"
    using reshape_Inr_decodes [OF wide ok] by blast
  then obtain w s where ws: "\<And>i. i < length raw_data \<Longrightarrow>
        decode_block wilderness_area_values (loc_cols 10 13 (raw_data ! i)) = Inr (w i)"
      "\<And>i. i < length raw_data \<Longrightarrow>
        decode_block soil_type_values (loc_cols 14 53 (raw_data ! i)) = Inr (s i)"
    by metis
  have data: "data = \<lparr>columns = CSV_HEADER,
         rows = map (\<lambda>i. (i, map IntV (loc_cols 0 9 (raw_data ! i)) @ [StrV (w i), StrV (s i), IntV (raw_data ! i ! 54 - 1)])) [0..<length raw_data]\<rparr>"
    using reshape_Inr [OF wide ws(2) ws(1)] ok by simp
  show "length (rows data) = length raw_data" by (simp add: data)
  fix i assume i: "i < length raw_data"
  show "\<exists>w s. decode_block wilderness_area_values (take 4 (drop 10 (raw_data ! i))) = Inr w \<and>
               decode_block soil_type_values (take 40 (drop 14 (raw_data ! i))) = Inr s \<and>
               rows data ! i =
                 (i, map IntV (take 10 (raw_data ! i)) @ [StrV w, StrV s, IntV (raw_data ! i ! 54 - 1)])"
    using ws(1) [OF i] ws(2) [OF i] i
    by (intro exI [of _ "w i"] exI [of _ "s i"]) (simp add: data loc_cols_def)
next
  fix row assume "row \<in> set raw_data"
  then have len: "length row = 55" using assms by simp
  have d54: "drop 54 row = [row ! 54]"
    using Cons_nth_drop_Suc [of 54 row] len by simp
  have a: "take 10 row @ drop 10 row = row" by (rule append_take_drop_id)
  have b: "take 4 (drop 10 row) @ drop 4 (drop 10 row) = drop 10 row" by (rule append_take_drop_id)
  have c: "take 40 (drop 14 row) @ drop 40 (drop 14 row) = drop 14 row" by (rule append_take_drop_id)
  have d: "drop 4 (drop 10 row) = drop 14 row" by simp
  have e: "drop 40 (drop 14 row) = [row ! 54]" using d54 by simp
  show "take 10 row @ take 4 (drop 10 row) @ take 40 (drop 14 row) @ [row ! 54] = row"
    by (metis a b c d e)
qed

theorem reshape_reads_55_columns_witness:
  "length sample_row = 55 \<and> (\<exists>data. reshape [sample_row] = Inr data) \<and>
   take 10 sample_row @ take 4 (drop 10 sample_row) @ take 40 (drop 14 sample_row) @
     [sample_row ! 54] = sample_row"
proof -
  have h: "\<forall>row\<in>set [sample_row]. length row = 55" by (simp add: sample_row_55)
  have "\<exists>data. reshape [sample_row] = Inr data" using reshape_sample by simp
  moreover have "take 10 sample_row @ take 4 (drop 10 sample_row) @
      take 40 (drop 14 sample_row) @ [sample_row ! 54] = sample_row"
    using reshape_reads_55_columns [OF h] by simp
  ultimately show ?thesis by (simp add: sample_row_55)
qed

subsection \<open>The shape of the reshaped table and its labels\<close>



subsection \<open>The split into training and test data\<close>

text \<open>
  Claim C4. The split partitions the reshaped table. The table is cut into one group
  for each cover type, and the groups together hold every row once. Row \<open>j\<close> of group
  \<open>g\<close> goes to the training split exactly when its random number \<open>rand g j\<close> is at most
  0.85, and to the test split exactly when it is not. So the two splits have no row
  in common and together hold every row; shuffling and relabelling keep the records.
  The training split has as many rows as there are random numbers at most 0.85. Of the
  \<open>2\<^sup>5\<^sup>3\<close> equally likely values of a random number, 7656119366529844 are at most
  0.85, a share that differs from 0.85 by less than \<open>2\<^sup>-\<^sup>5\<^sup>2\<close>: each row goes to the
  training split with this probability, which is the sense in which the split is about
  85 to 15. The random numbers and the two shuffles are inputs of the model.
\<close>

theorem split_partitions_rows:
  assumes reshape: "reshape raw_data = Inr data" and nonempty: "raw_data \<noteq> []"
    and perm1: "\<forall>xs. mset (sample_train xs) = mset xs"
    and perm2: "\<forall>xs. mset (sample_test xs) = mset xs"
  shows "card rand_values = 2 ^ 53 \<and>
    card {x \<in> rand_values. x \<le> 0.85} = 7656119366529844 \<and>
    \<bar>7656119366529844 / 2 ^ 53 - 0.85 :: real\<bar> < 1 / 2 ^ 52 \<and>
    (\<forall>x\<in>rand_values. 0 \<le> x \<and> x < 1) \<and>
    (\<exists>groups train_splits test_splits train_data test_data.
    groupby ''Cover_Type'' data = Inr groups \<and>
    mset (concat (map snd groups)) = mset (rows data) \<and>
    split_groups rand data = Inr (train_splits, test_splits) \<and>
    (\<forall>g<length groups. \<forall>j<length (snd (groups ! g)).
       (snd (groups ! g) ! j \<in> set (concat train_splits) \<longleftrightarrow> rand g j \<le> 0.85) \<and>
       (snd (groups ! g) ! j \<in> set (concat test_splits) \<longleftrightarrow> \<not> rand g j \<le> 0.85)) \<and>
    mset (concat train_splits) + mset (concat test_splits) = mset (rows data) \<and>
    set (concat train_splits) \<inter> set (concat test_splits) = {} \<and>
    split_data rand sample_train sample_test data = Inr (train_data, test_data) \<and>
    mset (map snd (rows train_data)) = mset (map snd (concat train_splits)) \<and>
    mset (map snd (rows test_data)) = mset (map snd (concat test_splits)) \<and>
    length (rows train_data) + length (rows test_data) = length (rows data) \<and>
    length (rows train_data) =
      (\<Sum>g<length groups. length (filter (\<lambda>j. rand g j \<le> 0.85) [0..<length (snd (groups ! g))])))"
proof -
  note frame = reshape_frame [OF reshape]
  have dist: "distinct (rows data)"
    using frame(2) by (metis distinct_upt distinct_map)
  have pos: "find_index_of ''Cover_Type'' (columns data) = Some 12"
    by (simp add: frame(1) find_cover_type)
  obtain ks where ks: "distinct ks"
    and groups: "groupby ''Cover_Type'' data =
      Inr (map (\<lambda>key. (key, filter (\<lambda>r. snd r ! 12 = IntV key) (rows data))) ks)"
    and covered: "\<forall>r\<in>set (rows data). \<exists>v\<in>set ks. snd r ! 12 = IntV v"
    using groupby_Inr [OF pos frame(3)] by blast
  define groups where "groups = map (\<lambda>key. (key, filter (\<lambda>r. snd r ! 12 = IntV key) (rows data))) ks"
  obtain train_splits test_splits where
    split: "split_loop rand 0 groups ([], []) = (train_splits, test_splits)"
    by (cases "split_loop rand 0 groups ([], [])") auto
  have sg: "split_groups rand data = Inr (train_splits, test_splits)"
    by (simp add: split_groups_def groups groups_def [symmetric] split)
  have grp: "snd (groups ! g) = filter (\<lambda>r. snd r ! 12 = IntV (ks ! g)) (rows data)"
    if "g < length groups" for g
    using that by (simp add: groups_def)
  have len_groups: "length groups = length ks" by (simp add: groups_def)
  have g_dist: "distinct (snd (groups ! g))" if "g < length groups" for g
    using grp [OF that] dist by simp
  have g_disj: "set (snd (groups ! g)) \<inter> set (snd (groups ! h)) = {}"
    if "g < length groups" "h < length groups" "g \<noteq> h" for g h
  proof -
    have "ks ! g \<noteq> ks ! h"
      using that ks len_groups by (simp add: nth_eq_iff_index_eq)
    then show ?thesis using grp that by auto
  qed
  have all: "mset (concat (map snd groups)) = mset (rows data)"
  proof -
    have "map snd groups = map (\<lambda>key. filter (\<lambda>r. snd r ! 12 = IntV key) (rows data)) ks"
      by (simp add: groups_def comp_def)
    moreover have "mset (concat (map (\<lambda>key. filter (\<lambda>r. snd r ! 12 = IntV key) (rows data)) ks))
        = mset (filter (\<lambda>r. \<exists>key\<in>set ks. snd r ! 12 = IntV key) (rows data))"
      by (rule mset_filter_partition_keys [OF ks]) simp
    moreover have "filter (\<lambda>r. \<exists>key\<in>set ks. snd r ! 12 = IntV key) (rows data) = rows data"
      using covered by (auto simp: filter_id_conv)
    ultimately show ?thesis by (simp add: comp_def)
  qed
  have part: "mset (concat train_splits) + mset (concat test_splits) = mset (rows data)"
    using split_loop_mset [OF split] all by simp
  have disjoint: "set (concat train_splits) \<inter> set (concat test_splits) = {}"
  proof -
    have "distinct (concat train_splits @ concat test_splits)"
      using part dist by (metis mset_append mset_eq_imp_distinct_iff)
    then show ?thesis by simp
  qed
  have ne: "groups \<noteq> []"
  proof -
    obtain r where "r \<in> set (rows data)"
      using frame(2) nonempty by (metis length_greater_0_conv length_map length_upt diff_zero nth_mem)
    then show ?thesis using covered by (auto simp: groups_def)
  qed
  note nth = split_loop_nth [OF split]
  have ne': "train_splits \<noteq> []" "test_splits \<noteq> []" using nth ne by auto
  define train_data where "train_data = data\<lparr>rows := reset_index (sample_train (concat train_splits))\<rparr>"
  define test_data where "test_data = data\<lparr>rows := reset_index (sample_test (concat test_splits))\<rparr>"
  have sd: "split_data rand sample_train sample_test data = Inr (train_data, test_data)"
    by (simp add: split_data_def sg pd_concat_def ne' train_data_def test_data_def)
  have reset: "map snd (reset_index rs) = map snd rs" for rs
    by (simp add: reset_index_def)
  have m1: "mset (map snd (rows train_data)) = mset (map snd (concat train_splits))"
    using perm1 by (simp add: train_data_def reset)
  have m2: "mset (map snd (rows test_data)) = mset (map snd (concat test_splits))"
    using perm2 by (simp add: test_data_def reset)
  have l1: "length (rows train_data) = length (concat train_splits)"
    using m1 by (metis length_map size_mset)
  have l2: "length (rows test_data) = length (concat test_splits)"
    using m2 by (metis length_map size_mset)
  have total: "length (rows train_data) + length (rows test_data) = length (rows data)"
    using part l1 l2 by (metis size_mset size_union)
  have count: "length (rows train_data) =
      (\<Sum>g<length groups. length (filter (\<lambda>j. rand g j \<le> 0.85) [0..<length (snd (groups ! g))]))"
    using split_loop_length [OF split] l1 by simp
  have member: "\<forall>g<length groups. \<forall>j<length (snd (groups ! g)).
       (snd (groups ! g) ! j \<in> set (concat train_splits) \<longleftrightarrow> rand g j \<le> 0.85) \<and>
       (snd (groups ! g) ! j \<in> set (concat test_splits) \<longleftrightarrow> \<not> rand g j \<le> 0.85)"
    using split_membership [OF g_dist g_disj split] by blast
  have gb: "groupby ''Cover_Type'' data = Inr groups" by (simp add: groups groups_def)
  have main: "\<exists>groups train_splits test_splits train_data test_data.
    groupby ''Cover_Type'' data = Inr groups \<and>
    mset (concat (map snd groups)) = mset (rows data) \<and>
    split_groups rand data = Inr (train_splits, test_splits) \<and>
    (\<forall>g<length groups. \<forall>j<length (snd (groups ! g)).
       (snd (groups ! g) ! j \<in> set (concat train_splits) \<longleftrightarrow> rand g j \<le> 0.85) \<and>
       (snd (groups ! g) ! j \<in> set (concat test_splits) \<longleftrightarrow> \<not> rand g j \<le> 0.85)) \<and>
    mset (concat train_splits) + mset (concat test_splits) = mset (rows data) \<and>
    set (concat train_splits) \<inter> set (concat test_splits) = {} \<and>
    split_data rand sample_train sample_test data = Inr (train_data, test_data) \<and>
    mset (map snd (rows train_data)) = mset (map snd (concat train_splits)) \<and>
    mset (map snd (rows test_data)) = mset (map snd (concat test_splits)) \<and>
    length (rows train_data) + length (rows test_data) = length (rows data) \<and>
    length (rows train_data) =
      (\<Sum>g<length groups. length (filter (\<lambda>j. rand g j \<le> 0.85) [0..<length (snd (groups ! g))]))"
    using gb all sg member part disjoint sd m1 m2 total count by blast
  note c = rand_values_card
  show ?thesis
    by (rule conjI [OF c [THEN conjunct1]], rule conjI [OF c [THEN conjunct2, THEN conjunct1]],
        rule conjI [OF c [THEN conjunct2, THEN conjunct2, THEN conjunct1]],
        rule conjI [OF c [THEN conjunct2, THEN conjunct2, THEN conjunct2]], rule main)
qed

theorem split_partitions_rows_witness:
  "\<exists>train_data test_data.
     split_data sample_rand rev (\<lambda>xs. xs) sample_data = Inr (train_data, test_data) \<and>
     length (rows train_data) + length (rows test_data) = 3"
proof -
  have p1: "\<forall>xs :: (nat \<times> cell list) list. mset (rev xs) = mset xs" by simp
  have p2: "\<forall>xs :: (nat \<times> cell list) list. mset xs = mset xs" by simp
  have ne: "[sample_row, sample_row2, sample_row] \<noteq> []" by simp
  have n: "length (rows sample_data) = 3" by (simp add: sample_data_def)
  note t = split_partitions_rows [OF reshape_sample_data ne p1 p2, of sample_rand,
      THEN conjunct2, THEN conjunct2, THEN conjunct2, THEN conjunct2]
  then obtain train_data test_data where
    "split_data sample_rand rev (\<lambda>xs. xs) sample_data = Inr (train_data, test_data)"
    "length (rows train_data) + length (rows test_data) = length (rows sample_data)"
    by blast
  then show ?thesis using n by auto
qed

section \<open>Properties of the models\<close>

subsection \<open>Auxiliary facts\<close>

text \<open>\<open>int_sqrt n\<close> is the integer part of the square root of \<open>n\<close>.\<close>

lemma int_sqrt_floor:
  "int_sqrt n * int_sqrt n \<le> n \<and> n < Suc (int_sqrt n) * Suc (int_sqrt n)"
proof -
  define r where "r = (GREATEST m. m * m \<le> n)"
  have bound: "m \<le> n" if "m * m \<le> n" for m
    using that by (cases m) auto
  have ex: "0 * 0 \<le> n" by simp
  have r: "r * r \<le> n"
    unfolding r_def
  proof (rule GreatestI_nat [where P = "\<lambda>m. m * m \<le> n" and k = 0 and b = n])
    show "0 * 0 \<le> n" by simp
    show "\<And>y. y * y \<le> n \<Longrightarrow> y \<le> n" by (rule bound)
  qed
  have greatest: "m \<le> r" if "m * m \<le> n" for m
    unfolding r_def
  proof (rule Greatest_le_nat [where P = "\<lambda>m. m * m \<le> n" and b = n])
    show "m * m \<le> n" by (rule that)
    show "\<And>y. y * y \<le> n \<Longrightarrow> y \<le> n" by (rule bound)
  qed
  have "set (filter (\<lambda>m. m * m \<le> n) [1..<Suc n]) = {1..r}"
  proof (intro set_eqI iffI)
    fix m assume "m \<in> set (filter (\<lambda>m. m * m \<le> n) [1..<Suc n])"
    then have "1 \<le> m" "m * m \<le> n" by (simp_all del: upt_Suc)
    then show "m \<in> {1..r}" using greatest [of m] by simp
  next
    fix m assume "m \<in> {1..r}"
    then have m: "1 \<le> m" "m \<le> r" by auto
    then have "m * m \<le> r * r" by (simp add: mult_le_mono)
    then have "m * m \<le> n" using r by simp
    moreover from this have "m \<le> n" by (rule bound)
    ultimately show "m \<in> set (filter (\<lambda>m. m * m \<le> n) [1..<Suc n])"
      using m(1) by (simp del: upt_Suc)
  qed
  moreover have "distinct (filter (\<lambda>m. m * m \<le> n) [1..<Suc n])" by simp
  ultimately have "int_sqrt n = card {1..r}"
    unfolding int_sqrt_def by (metis distinct_card)
  then have eq: "int_sqrt n = r" by simp
  have "\<not> Suc r * Suc r \<le> n"
  proof
    assume "Suc r * Suc r \<le> n"
    then have "Suc r \<le> r" by (rule greatest)
    then show False by simp
  qed
  then show ?thesis using r eq by simp
qed

lemma create_model_inputs_eq:
  "create_model_inputs [(''Soil_Type'', sv), (''Wilderness_Area'', wv)] =
     map (\<lambda>name. (name, Input name Float32)) NUMERIC_FEATURE_NAMES @
     [(''Soil_Type'', Input ''Soil_Type'' String),
      (''Wilderness_Area'', Input ''Wilderness_Area'' String)]"
  by (simp add: create_model_inputs_def FEATURE_NAMES_def CATEGORICAL_FEATURE_NAMES_def
      NUMERIC_FEATURE_NAMES_def)

lemma encode_loop_numeric:
  assumes "\<And>name. name \<in> set names \<Longrightarrow> map_of vocabularies name = None"
  shows "encode_loop vocabularies use_embedding (map (\<lambda>name. (name, Input name Float32)) names @ rest) acc k
    = encode_loop vocabularies use_embedding rest
        (acc @ map (\<lambda>name. Expand_dims (Input name Float32)) names) k"
  using assms by (induction names arbitrary: acc) auto

lemma numeric_not_categorical:
  "name \<in> set NUMERIC_FEATURE_NAMES \<Longrightarrow>
     map_of [(''Soil_Type'', sv), (''Wilderness_Area'', wv)] name = None"
  by (auto simp: NUMERIC_FEATURE_NAMES_def)

lemma encode_inputs_embedding:
  "encode_inputs [(''Soil_Type'', sv), (''Wilderness_Area'', wv)]
       (create_model_inputs [(''Soil_Type'', sv), (''Wilderness_Area'', wv)]) True k =
     (Concatenate (map (\<lambda>name. Expand_dims (Input name Float32)) NUMERIC_FEATURE_NAMES @
        [Embedding k (length sv) (int_sqrt (length sv))
           (StringLookup sv None 0 Int_mode (Input ''Soil_Type'' String)),
         Embedding (Suc k) (length wv) (int_sqrt (length wv))
           (StringLookup wv None 0 Int_mode (Input ''Wilderness_Area'' String))]),
      Suc (Suc k))"
proof -
  have "encode_loop [(''Soil_Type'', sv), (''Wilderness_Area'', wv)] True
      (map (\<lambda>name. (name, Input name Float32)) NUMERIC_FEATURE_NAMES @
        [(''Soil_Type'', Input ''Soil_Type'' String),
         (''Wilderness_Area'', Input ''Wilderness_Area'' String)]) [] k
    = encode_loop [(''Soil_Type'', sv), (''Wilderness_Area'', wv)] True
        [(''Soil_Type'', Input ''Soil_Type'' String),
         (''Wilderness_Area'', Input ''Wilderness_Area'' String)]
        ([] @ map (\<lambda>name. Expand_dims (Input name Float32)) NUMERIC_FEATURE_NAMES) k"
    by (rule encode_loop_numeric) (rule numeric_not_categorical)
  then show ?thesis
    by (simp add: encode_inputs_def create_model_inputs_eq)
qed

lemma encode_inputs_one_hot:
  "encode_inputs [(''Soil_Type'', sv), (''Wilderness_Area'', wv)]
       (create_model_inputs [(''Soil_Type'', sv), (''Wilderness_Area'', wv)]) False k =
     (Concatenate (map (\<lambda>name. Expand_dims (Input name Float32)) NUMERIC_FEATURE_NAMES @
        [StringLookup sv None 0 Binary_mode (Expand_dims (Input ''Soil_Type'' String)),
         StringLookup wv None 0 Binary_mode (Expand_dims (Input ''Wilderness_Area'' String))]),
      k)"
proof -
  have "encode_loop [(''Soil_Type'', sv), (''Wilderness_Area'', wv)] False
      (map (\<lambda>name. (name, Input name Float32)) NUMERIC_FEATURE_NAMES @
        [(''Soil_Type'', Input ''Soil_Type'' String),
         (''Wilderness_Area'', Input ''Wilderness_Area'' String)]) [] k
    = encode_loop [(''Soil_Type'', sv), (''Wilderness_Area'', wv)] False
        [(''Soil_Type'', Input ''Soil_Type'' String),
         (''Wilderness_Area'', Input ''Wilderness_Area'' String)]
        ([] @ map (\<lambda>name. Expand_dims (Input name Float32)) NUMERIC_FEATURE_NAMES) k"
    by (rule encode_loop_numeric) (rule numeric_not_categorical)
  then show ?thesis
    by (simp add: encode_inputs_def create_model_inputs_eq)
qed

lemma sequence_append:
  "sequence xs = Inr a \<Longrightarrow> sequence ys = Inr b \<Longrightarrow> sequence (xs @ ys) = Inr (a @ b)"
  by (induction xs arbitrary: a) (auto split: sum.splits)

lemma shape_numeric:
  "sequence (map shape_of (map (\<lambda>name. Expand_dims (Input name Float32)) names))
     = Inr (map (\<lambda>name. [1]) names)"
  by (induction names) auto

lemma length_NUMERIC_FEATURE_NAMES: "length NUMERIC_FEATURE_NAMES = 10"
  by (simp add: NUMERIC_FEATURE_NAMES_def)

lemma shape_encoded:
  assumes "shape_of a = Inr [m]" "shape_of b = Inr [n]"
  shows "shape_of (Concatenate (map (\<lambda>name. Expand_dims (Input name Float32)) NUMERIC_FEATURE_NAMES @ [a, b]))
    = Inr [10 + m + n]"
proof -
  have "sequence (map shape_of (map (\<lambda>name. Expand_dims (Input name Float32)) NUMERIC_FEATURE_NAMES @ [a, b]))
      = Inr (map (\<lambda>name. [1]) NUMERIC_FEATURE_NAMES @ [[m], [n]])"
    unfolding map_append by (rule sequence_append [OF shape_numeric]) (simp add: assms)
  then show ?thesis
    by (simp add: concatenate_shape_def NUMERIC_FEATURE_NAMES_def)
qed

lemma shape_cross_step:
  assumes "shape_of x0 = Inr [d]" "shape_of c = Inr [d]" "0 < d"
  shows "shape_of (Add (Multiply x0 (Dense j d Linear c)) c) = Inr [d]"
  using assms by (simp add: broadcast_shape_def)

lemma last_dim_vector: "shape_of t = Inr [d] \<Longrightarrow> last_dim t = Inr d"
  by (simp add: last_dim_def)

lemma length_spec_dense [simp]: "length (spec_dense \<theta> k y) = length y"
  by (simp add: spec_dense_def)

lemma length_spec_cross [simp]: "length (spec_cross \<theta> k x0 n) = length x0"
  by (induction n) auto

lemma eval_cross_step:
  assumes "eval \<theta> f x0 = Inr (Vector x)" "eval \<theta> f c = Inr (Vector y)" "length y = length x"
    and "0 < length x"
  shows "eval \<theta> f (Add (Multiply x0 (Dense j (length x) Linear c)) c)
     = Inr (Vector (map2 (+) (map2 (*) x (spec_dense \<theta> j y)) y))"
  using assms by (simp add: dense_call_def activate_def elementwise_def spec_dense_def)

lemma find_index_of_Some:
  "x \<in> set xs \<Longrightarrow> \<exists>i<length xs. find_index_of x xs = Some i \<and> xs ! i = x"
  by (induction xs) auto

lemma find_index_of_None: "x \<notin> set xs \<Longrightarrow> find_index_of x xs = None"
  by (induction xs) auto

lemma string_lookup_in:
  "StrV s \<in> set v \<Longrightarrow> \<exists>i<length v. string_lookup h v None 0 s = Inr i \<and> v ! i = StrV s"
  using find_index_of_Some [of "StrV s" v] by (auto simp: string_lookup_def vocabulary_size_def)

lemma string_lookup_out:
  "StrV s \<notin> set v \<Longrightarrow> string_lookup h v None 0 s = Inl InvalidArgumentError"
  by (simp add: string_lookup_def find_index_of_None)

lemma eval_numeric:
  assumes "\<forall>name\<in>set names. \<exists>x. f name = Some (Num x)"
  shows "\<exists>xs. length xs = length names \<and>
     sequence (map (eval \<theta> f) (map (\<lambda>name. Expand_dims (Input name Float32)) names))
       = Inr (map (\<lambda>x. Vector [x]) xs)"
  using assms
proof (induction names)
  case Nil
  then show ?case by simp
next
  case (Cons name names)
  then obtain xs where xs: "length xs = length names"
    "sequence (map (eval \<theta> f) (map (\<lambda>name. Expand_dims (Input name Float32)) names))
       = Inr (map (\<lambda>x. Vector [x]) xs)"
    by auto
  from Cons.prems obtain x where "f name = Some (Num x)" by auto
  then show ?case using xs
    by (intro exI [of _ "x # xs"]) (simp add: expand_dims_def)
qed

lemma eval_embedding:
  assumes "f name = Some (Str s)" "StrV s \<in> set v"
  shows "\<exists>i<length v. v ! i = StrV s \<and>
     eval \<theta> f (Embedding k (length v) m (StringLookup v None 0 Int_mode (Input name String)))
       = Inr (Vector (map (embeddings \<theta> k i) [0..<m]))"
proof -
  obtain i where "i < length v" "string_lookup (string_hash \<theta>) v None 0 s = Inr i" "v ! i = StrV s"
    using string_lookup_in [OF assms(2)] by blast
  then show ?thesis using assms(1)
    by (intro exI [of _ i]) (simp add: string_lookup_call_def embedding_call_def)
qed

lemma eval_embedding_out:
  assumes "f name = Some (Str s)" "StrV s \<notin> set v"
  shows "eval \<theta> f (Embedding k n m (StringLookup v None 0 Int_mode (Input name String)))
       = Inl InvalidArgumentError"
  using assms by (simp add: string_lookup_call_def string_lookup_out)

lemma eval_one_hot:
  assumes "f name = Some (Str s)" "StrV s \<in> set v"
  shows "\<exists>i<length v. v ! i = StrV s \<and>
     eval \<theta> f (StringLookup v None 0 Binary_mode (Expand_dims (Input name String)))
       = Inr (Vector (map (\<lambda>j. if j = i then 1 else 0) [0..<length v]))"
proof -
  obtain i where "i < length v" "string_lookup (string_hash \<theta>) v None 0 s = Inr i" "v ! i = StrV s"
    using string_lookup_in [OF assms(2)] by blast
  then show ?thesis using assms(1)
    by (intro exI [of _ i]) (simp add: string_lookup_call_def expand_dims_def vocabulary_size_def)
qed

lemma eval_one_hot_out:
  assumes "f name = Some (Str s)" "StrV s \<notin> set v"
  shows "eval \<theta> f (StringLookup v None 0 Binary_mode (Expand_dims (Input name String)))
       = Inl InvalidArgumentError"
  using assms by (simp add: string_lookup_call_def expand_dims_def string_lookup_out)

lemma vectors_map_Vector: "vectors (map (\<lambda>x. Vector [x]) xs @ [Vector a, Vector b]) = Inr (map (\<lambda>x. [x]) xs @ [a, b])"
  by (induction xs) auto

lemma concat_singletons: "concat (map (\<lambda>x. [x]) xs) = xs"
  by (induction xs) auto

lemma sequence_append_Inl:
  "sequence xs = Inr a \<Longrightarrow> sequence ys = Inl e \<Longrightarrow> sequence (xs @ ys) = Inl e"
  by (induction xs arbitrary: a) (auto split: sum.splits)

lemma eval_encoded:
  assumes num: "\<forall>name\<in>set NUMERIC_FEATURE_NAMES. \<exists>x. f name = Some (Num x)"
    and a: "eval \<theta> f a = Inr (Vector va)" and b: "eval \<theta> f b = Inr (Vector vb)"
  shows "\<exists>xs. length xs = 10 \<and>
    eval \<theta> f (Concatenate (map (\<lambda>name. Expand_dims (Input name Float32)) NUMERIC_FEATURE_NAMES @ [a, b]))
      = Inr (Vector (xs @ va @ vb))"
proof -
  obtain xs where xs: "length xs = length NUMERIC_FEATURE_NAMES"
    "sequence (map (eval \<theta> f) (map (\<lambda>name. Expand_dims (Input name Float32)) NUMERIC_FEATURE_NAMES))
       = Inr (map (\<lambda>x. Vector [x]) xs)"
    using eval_numeric [OF num] by blast
  have "sequence (map (eval \<theta> f) (map (\<lambda>name. Expand_dims (Input name Float32)) NUMERIC_FEATURE_NAMES @ [a, b]))
      = Inr (map (\<lambda>x. Vector [x]) xs @ [Vector va, Vector vb])"
    unfolding map_append by (rule sequence_append [OF xs(2)]) (simp add: a b)
  then have "eval \<theta> f (Concatenate (map (\<lambda>name. Expand_dims (Input name Float32)) NUMERIC_FEATURE_NAMES @ [a, b]))
      = Inr (Vector (xs @ va @ vb))"
    by (simp add: concatenate_def vectors_map_Vector concat_singletons)
  then show ?thesis using xs(1) by (auto simp: length_NUMERIC_FEATURE_NAMES)
qed

lemma eval_encoded_Inl:
  assumes num: "\<forall>name\<in>set NUMERIC_FEATURE_NAMES. \<exists>x. f name = Some (Num x)"
    and ab: "sequence [eval \<theta> f a, eval \<theta> f b] = Inl e"
  shows "eval \<theta> f (Concatenate (map (\<lambda>name. Expand_dims (Input name Float32)) NUMERIC_FEATURE_NAMES @ [a, b]))
      = Inl e"
proof -
  obtain xs where xs:
    "sequence (map (eval \<theta> f) (map (\<lambda>name. Expand_dims (Input name Float32)) NUMERIC_FEATURE_NAMES))
       = Inr (map (\<lambda>x. Vector [x]) xs)"
    using eval_numeric [OF num] by blast
  have "sequence (map (eval \<theta> f) (map (\<lambda>name. Expand_dims (Input name Float32)) NUMERIC_FEATURE_NAMES @ [a, b]))
      = Inl e"
    unfolding map_append by (rule sequence_append_Inl [OF xs]) (use ab in simp)
  then show ?thesis by simp
qed

lemma well_formed_two:
  "well_formed [(''Soil_Type'', sv), (''Wilderness_Area'', wv)] f \<longleftrightarrow>
     (\<forall>name\<in>set NUMERIC_FEATURE_NAMES. \<exists>x. f name = Some (Num x)) \<and>
     (\<exists>s. f ''Soil_Type'' = Some (Str s) \<and> StrV s \<in> set sv) \<and>
     (\<exists>s. f ''Wilderness_Area'' = Some (Str s) \<and> StrV s \<in> set wv)"
proof -
  have a: "(case f name of Some (Num x) \<Rightarrow> True | _ \<Rightarrow> False) \<longleftrightarrow> (\<exists>x. f name = Some (Num x))" for name
    by (cases "f name") (auto split: feature.splits)
  have b: "(case f name of Some (Str s) \<Rightarrow> StrV s \<in> set v | _ \<Rightarrow> False) \<longleftrightarrow>
      (\<exists>s. f name = Some (Str s) \<and> StrV s \<in> set v)" for name v
    by (cases "f name") (auto split: feature.splits)
  show ?thesis
    by (simp add: well_formed_def list_all_iff a b)
qed

lemma hidden_layers_snd: "snd (hidden_layers us t k) = k + 2 * length us"
  by (induction us arbitrary: t k) auto

lemma shape_hidden_layers:
  assumes "shape_of t = Inr [d]" "\<forall>u\<in>set us. 0 < u"
  shows "shape_of (fst (hidden_layers us t k)) = Inr [if us = [] then d else last us]"
  using assms by (induction us arbitrary: t k d) auto

lemma eval_hidden_layers:
  assumes "eval \<theta> f t = Inr (Vector x)" "\<forall>u\<in>set us. 0 < u"
  shows "\<exists>y. eval \<theta> f (fst (hidden_layers us t k)) = Inr (Vector y) \<and>
     length y = (if us = [] then length x else last us)"
  using assms
proof (induction us arbitrary: t k x)
  case Nil
  then show ?case by simp
next
  case (Cons u us)
  let ?t = "Dropout dropout_rate (ReLU (BatchNormalization (Suc k) (Dense k u Linear t)))"
  from Cons.prems obtain y where y: "eval \<theta> f ?t = Inr (Vector y)" "length y = u"
    by (simp add: dense_call_def activate_def batch_normalization_call_def relu_call_def)
  from Cons.IH [OF y(1), of "Suc (Suc k)"] Cons.prems(2) y(2)
  show ?case by auto
qed

lemma sum_list_exp_nonneg: "0 \<le> sum_list (map exp (z :: real list))"
  by (induction z) auto

lemma sum_list_exp_pos: "z \<noteq> [] \<Longrightarrow> 0 < sum_list (map exp (z :: real list))"
  by (cases z) (auto intro: add_pos_nonneg sum_list_exp_nonneg)

lemma sum_list_divide: "sum_list (map (\<lambda>x. f x / c) xs) = sum_list (map f xs) / (c :: real)"
  by (induction xs) (auto simp: add_divide_distrib)

lemma softmax_probability_vector:
  assumes "z \<noteq> []"
  shows "probability_vector (softmax z) \<and> length (softmax z) = length z"
proof -
  have pos: "0 < sum_list (map exp z)" using sum_list_exp_pos [OF assms] .
  have "sum_list (softmax z) = sum_list (map exp z) / sum_list (map exp z)"
    unfolding softmax_def by (rule sum_list_divide)
  then have "sum_list (softmax z) = 1" using pos by simp
  moreover have "list_all (\<lambda>q. 0 < q) (softmax z)"
    using pos by (simp add: softmax_def list_all_iff)
  ultimately show ?thesis by (simp add: probability_vector_def softmax_def)
qed

lemma eval_softmax_output:
  assumes "eval \<theta> f t = Inr (Vector x)" "0 < units"
  shows "\<exists>p. eval \<theta> f (Dense k units Softmax t) = Inr (Vector p) \<and> length p = units \<and>
     probability_vector p"
proof -
  let ?z = "map (\<lambda>j. (\<Sum>i<length x. x ! i * kernel \<theta> k i j) + bias \<theta> k j) [0..<units]"
  have "?z \<noteq> []" using assms(2) by simp
  from softmax_probability_vector [OF this]
  show ?thesis using assms
    by (intro exI [of _ "softmax ?z"]) (simp add: dense_call_def activate_def)
qed

lemma eval_softmax_output_only:
  assumes "eval \<theta> f (Dense k units Softmax t) = Inr v"
  shows "\<exists>p. v = Vector p \<and> length p = units \<and> probability_vector p"
proof -
  from assms obtain u where u: "eval \<theta> f t = Inr u" "dense_call (kernel \<theta> k) (bias \<theta> k) units Softmax u = Inr v"
    by (auto split: sum.splits)
  then obtain x where x: "u = Vector x" "0 < units"
    by (cases u) (auto simp: dense_call_def split: if_splits)
  from eval_softmax_output [of \<theta> f t x units k] u x assms show ?thesis by auto
qed

lemma NUM_CLASSES_7: "NUM_CLASSES = 7"
  by (simp add: NUM_CLASSES_def TARGET_FEATURE_LABELS_def)

lemma eval_batch_normalization:
  "eval \<theta> f t = Inr (Vector x) \<Longrightarrow>
     eval \<theta> f (BatchNormalization k t) =
       Inr (Vector (map (\<lambda>i. gamma \<theta> k i / sqrt (moving_variance \<theta> k i + 0.001) * x ! i +
          (beta \<theta> k i - gamma \<theta> k i / sqrt (moving_variance \<theta> k i + 0.001) * moving_mean \<theta> k i))
          [0..<length x]))"
  by (simp add: batch_normalization_call_def algebra_simps diff_divide_distrib)

lemma input_names_numeric:
  "(\<Union>t\<in>set (map (\<lambda>name. Expand_dims (Input name Float32)) names). input_names t) = set names"
  by (induction names) auto

lemma string_lookups_numeric:
  "concat (map string_lookups (map (\<lambda>name. Expand_dims (Input name Float32)) names)) = []"
  by (induction names) auto

lemma string_lookups_encode_inputs:
  "string_lookups (fst (encode_inputs [(''Soil_Type'', sv), (''Wilderness_Area'', wv)]
       (create_model_inputs [(''Soil_Type'', sv), (''Wilderness_Area'', wv)]) use_embedding k)) =
     [(sv, None, 0, if use_embedding then Int_mode else Binary_mode),
      (wv, None, 0, if use_embedding then Int_mode else Binary_mode)]"
  by (cases use_embedding)
     (simp_all add: encode_inputs_embedding encode_inputs_one_hot string_lookups_numeric del: map_map)

lemma hidden_units_pos: "\<forall>u\<in>set hidden_units. 0 < u"
  by (simp add: hidden_units_def)

lemma set_FEATURE_NAMES:
  "set (FEATURE_NAMES [(''Soil_Type'', sv), (''Wilderness_Area'', wv)]) =
     set NUMERIC_FEATURE_NAMES \<union> {''Soil_Type'', ''Wilderness_Area''}"
  by (auto simp: FEATURE_NAMES_def CATEGORICAL_FEATURE_NAMES_def)

lemma eval_embedded:
  assumes "well_formed [(''Soil_Type'', sv), (''Wilderness_Area'', wv)] f"
  shows "\<exists>x. length x = 10 + m + n \<and>
     eval \<theta> f (Concatenate (map (\<lambda>name. Expand_dims (Input name Float32)) NUMERIC_FEATURE_NAMES @
         [Embedding i (length sv) m (StringLookup sv None 0 Int_mode (Input ''Soil_Type'' String)),
          Embedding j (length wv) n (StringLookup wv None 0 Int_mode (Input ''Wilderness_Area'' String))]))
       = Inr (Vector x)"
proof -
  from assms obtain s w where num: "\<forall>name\<in>set NUMERIC_FEATURE_NAMES. \<exists>x. f name = Some (Num x)"
    and s: "f ''Soil_Type'' = Some (Str s)" "StrV s \<in> set sv"
    and w: "f ''Wilderness_Area'' = Some (Str w)" "StrV w \<in> set wv"
    unfolding well_formed_two by blast
  obtain a where a: "eval \<theta> f (Embedding i (length sv) m (StringLookup sv None 0 Int_mode (Input ''Soil_Type'' String)))
      = Inr (Vector (map (embeddings \<theta> i a) [0..<m]))"
    using eval_embedding [where f = f and name = "''Soil_Type''", OF s(1) s(2)] by blast
  obtain b where b: "eval \<theta> f (Embedding j (length wv) n (StringLookup wv None 0 Int_mode (Input ''Wilderness_Area'' String)))
      = Inr (Vector (map (embeddings \<theta> j b) [0..<n]))"
    using eval_embedding [where f = f and name = "''Wilderness_Area''", OF w(1) w(2)] by blast
  from eval_encoded [OF num a b] show ?thesis by auto
qed

lemma eval_sparse:
  assumes "well_formed [(''Soil_Type'', sv), (''Wilderness_Area'', wv)] f"
  shows "\<exists>x. length x = 10 + length sv + length wv \<and>
     eval \<theta> f (Concatenate (map (\<lambda>name. Expand_dims (Input name Float32)) NUMERIC_FEATURE_NAMES @
         [StringLookup sv None 0 Binary_mode (Expand_dims (Input ''Soil_Type'' String)),
          StringLookup wv None 0 Binary_mode (Expand_dims (Input ''Wilderness_Area'' String))]))
       = Inr (Vector x)"
proof -
  from assms obtain s w where num: "\<forall>name\<in>set NUMERIC_FEATURE_NAMES. \<exists>x. f name = Some (Num x)"
    and s: "f ''Soil_Type'' = Some (Str s)" "StrV s \<in> set sv"
    and w: "f ''Wilderness_Area'' = Some (Str w)" "StrV w \<in> set wv"
    unfolding well_formed_two by blast
  obtain a where a: "eval \<theta> f (StringLookup sv None 0 Binary_mode (Expand_dims (Input ''Soil_Type'' String)))
      = Inr (Vector (map (\<lambda>j. if j = a then 1 else 0) [0..<length sv]))"
    using eval_one_hot [where f = f and name = "''Soil_Type''", OF s(1) s(2)] by blast
  obtain b where b: "eval \<theta> f (StringLookup wv None 0 Binary_mode (Expand_dims (Input ''Wilderness_Area'' String)))
      = Inr (Vector (map (\<lambda>j. if j = b then 1 else 0) [0..<length wv]))"
    using eval_one_hot [where f = f and name = "''Wilderness_Area''", OF w(1) w(2)] by blast
  from eval_encoded [OF num a b] show ?thesis by auto
qed

lemma well_formed_sample: "well_formed sample_vocabularies sample_features"
  by (simp add: well_formed_def sample_vocabularies_def sample_features_def NUMERIC_FEATURE_NAMES_def)

lemma baseline_eq:
  "\<exists>hidden. create_baseline_model [(''Soil_Type'', sv), (''Wilderness_Area'', wv)] k =
      (\<lparr>model_inputs = create_model_inputs [(''Soil_Type'', sv), (''Wilderness_Area'', wv)],
        model_outputs = Dense (k + 4) NUM_CLASSES Softmax hidden\<rparr>, k + 5) \<and>
     hidden = fst (hidden_layers hidden_units
       (Concatenate (map (\<lambda>name. Expand_dims (Input name Float32)) NUMERIC_FEATURE_NAMES @
         [StringLookup sv None 0 Binary_mode (Expand_dims (Input ''Soil_Type'' String)),
          StringLookup wv None 0 Binary_mode (Expand_dims (Input ''Wilderness_Area'' String))])) k)"
proof -
  let ?V = "[(''Soil_Type'', sv), (''Wilderness_Area'', wv)]"
  let ?sparse = "Concatenate (map (\<lambda>name. Expand_dims (Input name Float32)) NUMERIC_FEATURE_NAMES @
         [StringLookup sv None 0 Binary_mode (Expand_dims (Input ''Soil_Type'' String)),
          StringLookup wv None 0 Binary_mode (Expand_dims (Input ''Wilderness_Area'' String))])"
  obtain hidden k2 where h: "hidden_layers hidden_units ?sparse k = (hidden, k2)"
    by (cases "hidden_layers hidden_units ?sparse k") auto
  have k2: "k2 = k + 4"
    using hidden_layers_snd [of hidden_units ?sparse k] h by (simp add: hidden_units_def)
  have "create_baseline_model ?V k =
      (\<lparr>model_inputs = create_model_inputs ?V,
        model_outputs = Dense (k + 4) NUM_CLASSES Softmax hidden\<rparr>, k + 5)"
    unfolding create_baseline_model_def Let_def encode_inputs_one_hot prod.case h k2 by simp
  then show ?thesis using h by auto
qed

lemma eval_cross_branch:
  assumes x: "eval \<theta> f x0 = Inr (Vector x)" "0 < length x" and s: "shape_of x0 = Inr [length x]"
    and loop: "cross_loop us x0 c k = Inr (c', k')"
    and c: "eval \<theta> f c = Inr (Vector y)" "length y = length x" "shape_of c = Inr [length x]"
  shows "\<exists>y'. eval \<theta> f c' = Inr (Vector y') \<and> length y' = length x \<and> shape_of c' = Inr [length x]"
  using loop c
proof (induction us arbitrary: c k y)
  case Nil
  then show ?case by auto
next
  case (Cons u us)
  let ?c = "Add (Multiply x0 (Dense k (length x) Linear c)) c"
  have l: "last_dim c = Inr (length x)" using Cons.prems(4) by (rule last_dim_vector)
  from Cons.prems(1) have loop': "cross_loop us x0 ?c (Suc k) = Inr (c', k')"
    by (simp add: l)
  have e: "eval \<theta> f ?c = Inr (Vector (map2 (+) (map2 (*) x (spec_dense \<theta> k y)) y))"
    by (rule eval_cross_step [OF x(1) Cons.prems(2) Cons.prems(3) x(2)])
  have sh: "shape_of ?c = Inr [length x]"
    by (rule shape_cross_step [OF s Cons.prems(4) x(2)])
  show ?case
    by (rule Cons.IH [OF loop' e _ sh]) (simp add: Cons.prems(3))
qed

lemma softmax_output_property:
  assumes "shape_of t = Inr [d]"
    and "\<And>\<theta> f. well_formed V f \<Longrightarrow> \<exists>y. eval \<theta> f t = Inr (Vector y)"
  shows "shape_of (Dense j NUM_CLASSES Softmax t) = Inr [7] \<and>
            (\<forall>\<theta> features. well_formed V features \<longrightarrow>
               (\<exists>p. eval \<theta> features (Dense j NUM_CLASSES Softmax t) = Inr (Vector p) \<and> length p = 7 \<and>
                    probability_vector p)) \<and>
            (\<forall>\<theta> features v. eval \<theta> features (Dense j NUM_CLASSES Softmax t) = Inr v \<longrightarrow>
               (\<exists>p. v = Vector p \<and> length p = 7 \<and> probability_vector p))"
proof (intro conjI allI impI)
  show "shape_of (Dense j NUM_CLASSES Softmax t) = Inr [7]"
    using assms(1) by (simp add: NUM_CLASSES_7)
next
  fix \<theta> features assume "well_formed V features"
  then obtain y where "eval \<theta> features t = Inr (Vector y)" using assms(2) by blast
  from eval_softmax_output [OF this, of NUM_CLASSES j]
  show "\<exists>p. eval \<theta> features (Dense j NUM_CLASSES Softmax t) = Inr (Vector p) \<and> length p = 7 \<and>
      probability_vector p"
    by (simp add: NUM_CLASSES_7)
next
  fix \<theta> features v assume "eval \<theta> features (Dense j NUM_CLASSES Softmax t) = Inr v"
  from eval_softmax_output_only [OF this]
  show "\<exists>p. v = Vector p \<and> length p = 7 \<and> probability_vector p"
    by (simp add: NUM_CLASSES_7)
qed

lemma int_sqrt_2: "int_sqrt (Suc (Suc 0)) = Suc 0"
  by (simp add: int_sqrt_def)

lemma unseen_numeric: "\<forall>name\<in>set NUMERIC_FEATURE_NAMES. \<exists>x. unseen_features name = Some (Num x)"
  by (simp add: unseen_features_def sample_features_def NUMERIC_FEATURE_NAMES_def)

lemma eval_hidden_layers_Inl:
  "eval \<theta> f t = Inl e \<Longrightarrow> eval \<theta> f (fst (hidden_layers us t k)) = Inl e"
  by (induction us arbitrary: t k) auto

lemma eval_cross_loop_Inl:
  "eval \<theta> f x0 = Inl e \<Longrightarrow> eval \<theta> f c = Inl e \<Longrightarrow> cross_loop us x0 c k = Inr (c', k') \<Longrightarrow>
     eval \<theta> f c' = Inl e"
proof (induction us arbitrary: c k)
  case Nil
  then show ?case by simp
next
  case (Cons u us)
  from Cons.prems(3) obtain units where
    loop: "cross_loop us x0 (Add (Multiply x0 (Dense k units Linear c)) c) (Suc k) = Inr (c', k')"
    by (auto split: sum.splits)
  have "eval \<theta> f (Add (Multiply x0 (Dense k units Linear c)) c) = Inl e"
    using Cons.prems(1) by simp
  from Cons.IH [OF Cons.prems(1) this loop] show ?case .
qed

lemma eval_encodings_unseen:
  assumes num: "\<forall>name\<in>set NUMERIC_FEATURE_NAMES. \<exists>x. f name = Some (Num x)"
    and s: "f ''Soil_Type'' = Some (Str s)" and w: "f ''Wilderness_Area'' = Some (Str w)"
    and out: "StrV s \<notin> set sv \<or> StrV w \<notin> set wv"
  shows "eval \<theta> f (Concatenate (map (\<lambda>name. Expand_dims (Input name Float32)) NUMERIC_FEATURE_NAMES @
         [StringLookup sv None 0 Binary_mode (Expand_dims (Input ''Soil_Type'' String)),
          StringLookup wv None 0 Binary_mode (Expand_dims (Input ''Wilderness_Area'' String))]))
       = Inl InvalidArgumentError"
    and "eval \<theta> f (Concatenate (map (\<lambda>name. Expand_dims (Input name Float32)) NUMERIC_FEATURE_NAMES @
         [Embedding i (length sv) m (StringLookup sv None 0 Int_mode (Input ''Soil_Type'' String)),
          Embedding i' n' m' (StringLookup wv None 0 Int_mode (Input ''Wilderness_Area'' String))]))
       = Inl InvalidArgumentError"
proof -
  let ?hs = "StringLookup sv None 0 Binary_mode (Expand_dims (Input ''Soil_Type'' String))"
  let ?hw = "StringLookup wv None 0 Binary_mode (Expand_dims (Input ''Wilderness_Area'' String))"
  let ?es = "Embedding i (length sv) m (StringLookup sv None 0 Int_mode (Input ''Soil_Type'' String))"
  let ?ew = "Embedding i' n' m' (StringLookup wv None 0 Int_mode (Input ''Wilderness_Area'' String))"
  have a: "sequence [eval \<theta> f ?hs, eval \<theta> f ?hw] = Inl InvalidArgumentError"
  proof (cases "StrV s \<in> set sv")
    case True
    then have "StrV w \<notin> set wv" using out by simp
    moreover obtain j where "eval \<theta> f ?hs = Inr (Vector (map (\<lambda>l. if l = j then 1 else 0) [0..<length sv]))"
      using eval_one_hot [where f = f and name = "''Soil_Type''", OF s True] by blast
    ultimately show ?thesis
      using eval_one_hot_out [where f = f and name = "''Wilderness_Area''", OF w] by simp
  next
    case False
    then show ?thesis
      using eval_one_hot_out [where f = f and name = "''Soil_Type''", OF s] by simp
  qed
  have b: "sequence [eval \<theta> f ?es, eval \<theta> f ?ew] = Inl InvalidArgumentError"
  proof (cases "StrV s \<in> set sv")
    case True
    then have "StrV w \<notin> set wv" using out by simp
    moreover obtain j where "eval \<theta> f ?es = Inr (Vector (map (embeddings \<theta> i j) [0..<m]))"
      using eval_embedding [where f = f and name = "''Soil_Type''", OF s True] by blast
    ultimately show ?thesis
      using eval_embedding_out [where f = f and name = "''Wilderness_Area''", OF w] by simp
  next
    case False
    then show ?thesis
      using eval_embedding_out [where f = f and name = "''Soil_Type''", OF s] by simp
  qed
  show "eval \<theta> f (Concatenate (map (\<lambda>name. Expand_dims (Input name Float32)) NUMERIC_FEATURE_NAMES @
         [?hs, ?hw])) = Inl InvalidArgumentError"
    by (rule eval_encoded_Inl [OF num a])
  show "eval \<theta> f (Concatenate (map (\<lambda>name. Expand_dims (Input name Float32)) NUMERIC_FEATURE_NAMES @
         [?es, ?ew])) = Inl InvalidArgumentError"
    by (rule eval_encoded_Inl [OF num b])
qed

lemma eval_models_unseen:
  assumes num: "\<forall>name\<in>set NUMERIC_FEATURE_NAMES. \<exists>x. f name = Some (Num x)"
    and s: "f ''Soil_Type'' = Some (Str s)" and w: "f ''Wilderness_Area'' = Some (Str w)"
    and out: "StrV s \<notin> set sv \<or> StrV w \<notin> set wv"
  shows "eval \<theta> f (model_outputs (fst (create_baseline_model [(''Soil_Type'', sv), (''Wilderness_Area'', wv)] k)))
      = Inl InvalidArgumentError"
    and "eval \<theta> f (model_outputs (fst (create_wide_and_deep_model [(''Soil_Type'', sv), (''Wilderness_Area'', wv)] k)))
      = Inl InvalidArgumentError"
    and "(case create_deep_and_cross_model [(''Soil_Type'', sv), (''Wilderness_Area'', wv)] k of
            Inl e \<Rightarrow> Inl e
          | Inr (m, k') \<Rightarrow> eval \<theta> f (model_outputs m)) = Inl InvalidArgumentError"
proof -
  let ?V = "[(''Soil_Type'', sv), (''Wilderness_Area'', wv)]"
  let ?numeric = "map (\<lambda>name. Expand_dims (Input name Float32)) NUMERIC_FEATURE_NAMES"
  let ?sparse = "Concatenate (?numeric @
         [StringLookup sv None 0 Binary_mode (Expand_dims (Input ''Soil_Type'' String)),
          StringLookup wv None 0 Binary_mode (Expand_dims (Input ''Wilderness_Area'' String))])"
  let ?emb = "\<lambda>i. Concatenate (?numeric @
         [Embedding i (length sv) (int_sqrt (length sv))
            (StringLookup sv None 0 Int_mode (Input ''Soil_Type'' String)),
          Embedding (Suc i) (length wv) (int_sqrt (length wv))
            (StringLookup wv None 0 Int_mode (Input ''Wilderness_Area'' String))])"
  note un = eval_encodings_unseen [OF num s w out]
  have sp: "eval \<theta> f ?sparse = Inl InvalidArgumentError" by (rule un(1))
  have em: "eval \<theta> f (?emb i) = Inl InvalidArgumentError" for i by (rule un(2))
  obtain hb where b: "create_baseline_model ?V k =
      (\<lparr>model_inputs = create_model_inputs ?V,
        model_outputs = Dense (k + 4) NUM_CLASSES Softmax hb\<rparr>, k + 5)"
    and hb: "hb = fst (hidden_layers hidden_units ?sparse k)"
    using baseline_eq by blast
  show "eval \<theta> f (model_outputs (fst (create_baseline_model ?V k))) = Inl InvalidArgumentError"
    using eval_hidden_layers_Inl [OF sp, of hidden_units k] by (simp add: b hb)
  have e1: "encode_inputs ?V (create_model_inputs ?V) False k = (?sparse, k)"
    by (rule encode_inputs_one_hot)
  have e2: "encode_inputs ?V (create_model_inputs ?V) True (Suc k) = (?emb (Suc k), k + 3)"
    using encode_inputs_embedding [of sv wv "Suc k"] by simp
  obtain deep k3 where h: "hidden_layers hidden_units (?emb (Suc k)) (k + 3) = (deep, k3)"
    by (cases "hidden_layers hidden_units (?emb (Suc k)) (k + 3)") auto
  have "model_outputs (fst (create_wide_and_deep_model ?V k)) =
      Dense k3 NUM_CLASSES Softmax (Concatenate [BatchNormalization k ?sparse, deep])"
    unfolding create_wide_and_deep_model_def Let_def e1 e2 prod.case h by simp
  then show "eval \<theta> f (model_outputs (fst (create_wide_and_deep_model ?V k))) = Inl InvalidArgumentError"
    using sp by simp
  have e: "encode_inputs ?V (create_model_inputs ?V) True k = (?emb k, k + 2)"
    using encode_inputs_embedding [of sv wv k] by simp
  show "(case create_deep_and_cross_model ?V k of
            Inl e \<Rightarrow> Inl e
          | Inr (m, k') \<Rightarrow> eval \<theta> f (model_outputs m)) = Inl InvalidArgumentError"
  proof (cases "cross_loop hidden_units (?emb k) (?emb k) (k + 2)")
    case (Inl e')
    have "\<exists>c. cross_loop hidden_units (?emb k) (?emb k) (k + 2) = Inr c"
    proof -
      have s0: "shape_of (?emb k) = Inr [10 + int_sqrt (length sv) + int_sqrt (length wv)]"
        by (rule shape_encoded) simp_all
      have s1: "shape_of (Add (Multiply (?emb k) (Dense (k + 2) (10 + int_sqrt (length sv) + int_sqrt (length wv)) Linear (?emb k))) (?emb k))
          = Inr [10 + int_sqrt (length sv) + int_sqrt (length wv)]"
        by (rule shape_cross_step [OF s0 s0]) simp
      show ?thesis
        unfolding hidden_units_def
        by (simp only: cross_loop.simps last_dim_vector [OF s0] last_dim_vector [OF s1] sum.case) simp
    qed
    with Inl show ?thesis by simp
  next
    case (Inr r)
    obtain c k2 where r: "r = (c, k2)" by (cases r)
    have ec: "eval \<theta> f c = Inl InvalidArgumentError"
      by (rule eval_cross_loop_Inl [OF em em Inr [unfolded r]])
    obtain deep' k3' where h': "hidden_layers hidden_units (?emb k) (Suc k2) = (deep', k3')"
      by (cases "hidden_layers hidden_units (?emb k) (Suc k2)") auto
    show ?thesis
      unfolding create_deep_and_cross_model_def Let_def e prod.case Inr r sum.case h'
      using ec by simp
  qed
qed

lemma unseen_area: "unseen_features ''Wilderness_Area'' = Some (Str ''area_type_1'')"
  by (simp add: unseen_features_def sample_features_def)

lemma unseen_soil:
  "unseen_features ''Soil_Type'' = Some (Str ''soil_type_7'')"
  "StrV ''soil_type_7'' \<notin> set [StrV ''soil_type_29'', StrV ''soil_type_12'']"
  by (simp_all add: unseen_features_def)

subsection \<open>The cross network\<close>

text \<open>
  Claim C1. In \<^verbatim>\<open>create_deep_and_cross_model\<close> the loop of the cross branch runs once
  for each of the two entries of \<^verbatim>\<open>hidden_units\<close>. It starts from \<open>x0\<close>, the embedded
  encoding of the inputs, and each round builds \<open>x0 * Dense(cross) + cross\<close>, where the
  dense layer is a new layer with as many units as the last axis of \<open>cross\<close> has
  entries. So \<open>x0\<close>, the tensor after each round and the batch-normalized output of the
  branch all have the same last axis, of 10 entries plus the two embedding widths. On
  every record that the encoder accepts, the tensors after one and two rounds have
  the values of the recurrence \<open>spec_cross\<close>, whose product and sum are taken entry by
  entry.
\<close>

theorem cross_network_recurrence:
  "let vocabularies = [(''Soil_Type'', sv), (''Wilderness_Area'', wv)];
       x0 = fst (encode_inputs vocabularies (create_model_inputs vocabularies) True k);
       d = 10 + int_sqrt (length sv) + int_sqrt (length wv);
       cross1 = Add (Multiply x0 (Dense (k + 2) d Linear x0)) x0;
       cross2 = Add (Multiply x0 (Dense (k + 3) d Linear cross1)) cross1
   in snd (encode_inputs vocabularies (create_model_inputs vocabularies) True k) = k + 2 \<and>
      length hidden_units = 2 \<and>
      cross_loop hidden_units x0 x0 (k + 2) = Inr (cross2, k + 4) \<and>
      (\<exists>deep. create_deep_and_cross_model vocabularies k =
         Inr (\<lparr>model_inputs = create_model_inputs vocabularies,
               model_outputs = Dense (k + 9) NUM_CLASSES Softmax
                 (Concatenate [BatchNormalization (k + 4) cross2, deep])\<rparr>, k + 10)) \<and>
      shape_of x0 = Inr [d] \<and> shape_of cross1 = Inr [d] \<and> shape_of cross2 = Inr [d] \<and>
      shape_of (BatchNormalization (k + 4) cross2) = Inr [d] \<and>
      (\<forall>\<theta> features. well_formed vocabularies features \<longrightarrow>
         (\<exists>x. eval \<theta> features x0 = Inr (Vector x) \<and> length x = d \<and>
              eval \<theta> features cross1 = Inr (Vector (spec_cross \<theta> (k + 2) x 1)) \<and>
              eval \<theta> features cross2 = Inr (Vector (spec_cross \<theta> (k + 2) x 2))))"
proof -
  let ?V = "[(''Soil_Type'', sv), (''Wilderness_Area'', wv)]"
  let ?x0 = "Concatenate (map (\<lambda>name. Expand_dims (Input name Float32)) NUMERIC_FEATURE_NAMES @
         [Embedding k (length sv) (int_sqrt (length sv))
            (StringLookup sv None 0 Int_mode (Input ''Soil_Type'' String)),
          Embedding (Suc k) (length wv) (int_sqrt (length wv))
            (StringLookup wv None 0 Int_mode (Input ''Wilderness_Area'' String))])"
  let ?d = "10 + int_sqrt (length sv) + int_sqrt (length wv)"
  let ?c1 = "Add (Multiply ?x0 (Dense (k + 2) ?d Linear ?x0)) ?x0"
  let ?c2 = "Add (Multiply ?x0 (Dense (k + 3) ?d Linear ?c1)) ?c1"
  have e: "encode_inputs ?V (create_model_inputs ?V) True k = (?x0, k + 2)"
    using encode_inputs_embedding [of sv wv k] by simp
  have s0: "shape_of ?x0 = Inr [?d]"
    by (rule shape_encoded) simp_all
  have s1: "shape_of ?c1 = Inr [?d]"
    by (rule shape_cross_step [OF s0 s0]) simp
  have s2: "shape_of ?c2 = Inr [?d]"
    by (rule shape_cross_step [OF s0 s1]) simp
  have s3: "shape_of (BatchNormalization (k + 4) ?c2) = Inr [?d]"
    using s2 by simp
  have loop: "cross_loop hidden_units ?x0 ?x0 (k + 2) = Inr (?c2, k + 4)"
    unfolding hidden_units_def
    by (simp only: cross_loop.simps last_dim_vector [OF s0] last_dim_vector [OF s1] sum.case) simp
  obtain deep k3 where h: "hidden_layers hidden_units ?x0 (Suc (k + 4)) = (deep, k3)"
    by (cases "hidden_layers hidden_units ?x0 (Suc (k + 4))") auto
  have k3: "k3 = k + 9"
    using hidden_layers_snd [of hidden_units ?x0 "Suc (k + 4)"] h by (simp add: hidden_units_def)
  have m: "create_deep_and_cross_model ?V k =
         Inr (\<lparr>model_inputs = create_model_inputs ?V,
               model_outputs = Dense (k + 9) NUM_CLASSES Softmax
                 (Concatenate [BatchNormalization (k + 4) ?c2, deep])\<rparr>, k + 10)"
    unfolding create_deep_and_cross_model_def Let_def e prod.case loop sum.case h k3 by simp
  have v: "\<exists>x. eval \<theta> f ?x0 = Inr (Vector x) \<and> length x = ?d \<and>
              eval \<theta> f ?c1 = Inr (Vector (spec_cross \<theta> (k + 2) x 1)) \<and>
              eval \<theta> f ?c2 = Inr (Vector (spec_cross \<theta> (k + 2) x 2))"
    if wf: "well_formed ?V f" for \<theta> f
  proof -
    obtain x where x: "length x = ?d" "eval \<theta> f ?x0 = Inr (Vector x)"
      using eval_embedded [OF wf] by blast
    have pos: "0 < length x" using x(1) by simp
    have c1: "eval \<theta> f (Add (Multiply ?x0 (Dense (k + 2) (length x) Linear ?x0)) ?x0)
        = Inr (Vector (map2 (+) (map2 (*) x (spec_dense \<theta> (k + 2) x)) x))"
      by (rule eval_cross_step [OF x(2) x(2) refl pos])
    then have c1': "eval \<theta> f ?c1 = Inr (Vector (spec_cross \<theta> (k + 2) x 1))"
      by (simp only: x(1)) simp
    have "eval \<theta> f (Add (Multiply ?x0 (Dense (k + 3) (length x) Linear ?c1)) ?c1)
        = Inr (Vector (map2 (+) (map2 (*) x (spec_dense \<theta> (k + 3) (spec_cross \<theta> (k + 2) x 1)))
             (spec_cross \<theta> (k + 2) x 1)))"
      by (rule eval_cross_step [OF x(2) c1' _ pos]) simp
    then have c2': "eval \<theta> f ?c2 = Inr (Vector (spec_cross \<theta> (k + 2) x 2))"
      by (simp only: x(1)) (simp add: numeral_2_eq_2 add.commute add.left_commute numeral_3_eq_3)
    show ?thesis using x c1' c2' by blast
  qed
  show ?thesis
    unfolding Let_def e fst_conv snd_conv using loop m s0 s1 s2 s3 v by (auto simp: hidden_units_def)
qed

theorem cross_network_recurrence_witness:
  "well_formed sample_vocabularies sample_features \<and>
   (\<exists>x. eval sample_variables sample_features
          (fst (encode_inputs sample_vocabularies (create_model_inputs sample_vocabularies) True 0))
        = Inr (Vector x) \<and> length x = 12)"
proof -
  note t = cross_network_recurrence [of "[StrV ''soil_type_29'', StrV ''soil_type_12'']"
        "[StrV ''area_type_1'', StrV ''area_type_3'']" 0, unfolded Let_def,
        THEN conjunct2, THEN conjunct2, THEN conjunct2, THEN conjunct2, THEN conjunct2,
        THEN conjunct2, THEN conjunct2, THEN conjunct2, rule_format,
        OF well_formed_sample [unfolded sample_vocabularies_def], of sample_variables]
  then obtain x where "eval sample_variables sample_features
          (fst (encode_inputs sample_vocabularies (create_model_inputs sample_vocabularies) True 0))
        = Inr (Vector x)"
      "length x = 10 + int_sqrt (length [StrV ''soil_type_29'', StrV ''soil_type_12'']) +
         int_sqrt (length [StrV ''area_type_1'', StrV ''area_type_3''])"
    unfolding sample_vocabularies_def by blast
  then have "\<exists>x. eval sample_variables sample_features
          (fst (encode_inputs sample_vocabularies (create_model_inputs sample_vocabularies) True 0))
        = Inr (Vector x) \<and> length x = 12"
    by (intro exI [of _ x]) (simp add: int_sqrt_2)
  then show ?thesis using well_formed_sample by simp
qed

subsection \<open>The vocabularies\<close>

text \<open>
  Claim C2, as amended. For each of the two categorical features, the vocabulary is the
  list of the distinct values of its column in the whole reshaped table, in the order
  of first appearance. It is computed once, before any model is built, from the table
  \<^verbatim>\<open>data\<close> that is split afterwards, not from the training split. These lists are the
  vocabularies of the \<^verbatim>\<open>StringLookup\<close> layers that \<^verbatim>\<open>encode_inputs\<close> builds.
\<close>

theorem vocabulary_from_whole_table:
  assumes "reshape raw_data = Inr data"
  shows "\<exists>soil area.
     column ''Soil_Type'' data = Inr soil \<and> column ''Wilderness_Area'' data = Inr area \<and>
     length soil = length raw_data \<and> length area = length raw_data \<and>
     CATEGORICAL_FEATURES_WITH_VOCABULARY data =
       Inr [(''Soil_Type'', unique soil), (''Wilderness_Area'', unique area)] \<and>
     set (unique soil) = set soil \<and> distinct (unique soil) \<and>
     set (unique area) = set area \<and> distinct (unique area) \<and>
     (\<forall>use_embedding k.
        map fst (string_lookups (fst (encode_inputs
          [(''Soil_Type'', unique soil), (''Wilderness_Area'', unique area)]
          (create_model_inputs [(''Soil_Type'', unique soil), (''Wilderness_Area'', unique area)])
          use_embedding k))) = [unique soil, unique area])"
proof -
  note frame = reshape_frame [OF assms]
  have n: "length (rows data) = length raw_data"
    using frame(2) by (metis length_map length_upt diff_zero)
  show ?thesis
    by (simp add: column_def CATEGORICAL_FEATURES_WITH_VOCABULARY_def frame(1) find_soil find_area n
        string_lookups_encode_inputs)
qed

theorem vocabulary_from_whole_table_witness:
  "CATEGORICAL_FEATURES_WITH_VOCABULARY sample_data =
     Inr [(''Soil_Type'', [StrV ''soil_type_29'', StrV ''soil_type_12'']),
          (''Wilderness_Area'', [StrV ''area_type_1'', StrV ''area_type_3''])]"
  using vocabulary_from_whole_table [OF reshape_sample_data]
  by (simp add: column_def sample_data_def find_soil find_area)

text \<open>On the sample table the record with soil type 12 goes to the test split, and the
  vocabulary still holds soil type 12: it is not the set of the values of the training
  data.\<close>

theorem vocabulary_training_data_counterexample:
  "CATEGORICAL_FEATURES_WITH_VOCABULARY sample_data =
     Inr [(''Soil_Type'', [StrV ''soil_type_29'', StrV ''soil_type_12'']),
          (''Wilderness_Area'', [StrV ''area_type_1'', StrV ''area_type_3''])] \<and>
   (case split_data sample_rand rev (\<lambda>xs. xs) sample_data of
      Inl e \<Rightarrow> Inl e
    | Inr (train_data, test_data) \<Rightarrow> column ''Soil_Type'' train_data)
     = Inr [StrV ''soil_type_29'', StrV ''soil_type_29''] \<and>
   set [StrV ''soil_type_29'', StrV ''soil_type_12''] \<noteq> set [StrV ''soil_type_29'', StrV ''soil_type_29'']"
  by code_simp

subsection \<open>Values outside the vocabulary\<close>

text \<open>
  Claim C5. For each of the two categorical features, and in both encodings,
  \<^verbatim>\<open>encode_inputs\<close> builds its \<^verbatim>\<open>StringLookup\<close> layer with the vocabulary of the feature, no
  mask token and zero out-of-vocabulary indices. Such a layer has exactly one index
  for each entry of the vocabulary: it gives a string of the vocabulary its position,
  and it fails on any other string. So the encoding of a record has a value when both
  of its categorical values are in the vocabularies, and raises
  \<^verbatim>\<open>InvalidArgumentError\<close> when one of them is not: there is no index to fall back on.
\<close>

theorem string_lookup_closed_vocabulary:
  "let vocabularies = [(''Soil_Type'', sv), (''Wilderness_Area'', wv)];
       inputs = create_model_inputs vocabularies;
       encoded = (\<lambda>use_embedding. fst (encode_inputs vocabularies inputs use_embedding k))
   in string_lookups (encoded False) = [(sv, None, 0, Binary_mode), (wv, None, 0, Binary_mode)] \<and>
      string_lookups (encoded True) = [(sv, None, 0, Int_mode), (wv, None, 0, Int_mode)] \<and>
      vocabulary_size sv None 0 = length sv \<and> vocabulary_size wv None 0 = length wv \<and>
      (\<forall>hash vocabulary s.
          (StrV s \<in> set vocabulary \<longrightarrow>
             (\<exists>i<length vocabulary. string_lookup hash vocabulary None 0 s = Inr i \<and>
                vocabulary ! i = StrV s)) \<and>
          (StrV s \<notin> set vocabulary \<longrightarrow>
             string_lookup hash vocabulary None 0 s = Inl InvalidArgumentError)) \<and>
      (\<forall>\<theta> features use_embedding s w.
          (\<forall>name\<in>set NUMERIC_FEATURE_NAMES. \<exists>x. features name = Some (Num x)) \<and>
          features ''Soil_Type'' = Some (Str s) \<and> features ''Wilderness_Area'' = Some (Str w) \<longrightarrow>
          (if StrV s \<in> set sv \<and> StrV w \<in> set wv
           then \<exists>x. eval \<theta> features (encoded use_embedding) = Inr (Vector x)
           else eval \<theta> features (encoded use_embedding) = Inl InvalidArgumentError))"
proof -
  let ?V = "[(''Soil_Type'', sv), (''Wilderness_Area'', wv)]"
  let ?numeric = "map (\<lambda>name. Expand_dims (Input name Float32)) NUMERIC_FEATURE_NAMES"
  let ?hs = "StringLookup sv None 0 Binary_mode (Expand_dims (Input ''Soil_Type'' String))"
  let ?hw = "StringLookup wv None 0 Binary_mode (Expand_dims (Input ''Wilderness_Area'' String))"
  let ?es = "Embedding k (length sv) (int_sqrt (length sv))
            (StringLookup sv None 0 Int_mode (Input ''Soil_Type'' String))"
  let ?ew = "Embedding (Suc k) (length wv) (int_sqrt (length wv))
            (StringLookup wv None 0 Int_mode (Input ''Wilderness_Area'' String))"
  have e1: "fst (encode_inputs ?V (create_model_inputs ?V) False k) = Concatenate (?numeric @ [?hs, ?hw])"
    by (simp add: encode_inputs_one_hot)
  have e2: "fst (encode_inputs ?V (create_model_inputs ?V) True k) = Concatenate (?numeric @ [?es, ?ew])"
    by (simp add: encode_inputs_embedding)
  have no_lookup: "concat (map string_lookups (map (\<lambda>name. Expand_dims (Input name Float32)) names)) = []"
    for names by (induction names) auto
  have l1: "string_lookups (Concatenate (?numeric @ [?hs, ?hw]))
      = [(sv, None, 0, Binary_mode), (wv, None, 0, Binary_mode)]"
    by (simp add: no_lookup del: map_map)
  have l2: "string_lookups (Concatenate (?numeric @ [?es, ?ew]))
      = [(sv, None, 0, Int_mode), (wv, None, 0, Int_mode)]"
    by (simp add: no_lookup del: map_map)
  have ev: "if StrV s \<in> set sv \<and> StrV w \<in> set wv
           then \<exists>x. eval \<theta> f (fst (encode_inputs ?V (create_model_inputs ?V) ue k)) = Inr (Vector x)
           else eval \<theta> f (fst (encode_inputs ?V (create_model_inputs ?V) ue k)) = Inl InvalidArgumentError"
    if num: "\<forall>name\<in>set NUMERIC_FEATURE_NAMES. \<exists>x. f name = Some (Num x)"
      and s: "f ''Soil_Type'' = Some (Str s)" and w: "f ''Wilderness_Area'' = Some (Str w)"
    for \<theta> f ue s w
  proof (cases "StrV s \<in> set sv \<and> StrV w \<in> set wv")
    case True
    then have wf: "well_formed ?V f" using num s w by (simp add: well_formed_two)
    show ?thesis
    proof (cases ue)
      case True
      have "\<exists>x. length x = 10 + int_sqrt (length sv) + int_sqrt (length wv) \<and>
          eval \<theta> f (Concatenate (?numeric @ [?es, ?ew])) = Inr (Vector x)"
        by (rule eval_embedded [OF wf])
      then show ?thesis using True \<open>StrV s \<in> set sv \<and> StrV w \<in> set wv\<close>
        by (auto simp: e2)
    next
      case False
      have "\<exists>x. length x = 10 + length sv + length wv \<and>
          eval \<theta> f (Concatenate (?numeric @ [?hs, ?hw])) = Inr (Vector x)"
        by (rule eval_sparse [OF wf])
      then show ?thesis using False \<open>StrV s \<in> set sv \<and> StrV w \<in> set wv\<close>
        by (auto simp: e1)
    qed
  next
    case False
    have a: "sequence [eval \<theta> f ?hs, eval \<theta> f ?hw] = Inl InvalidArgumentError"
    proof (cases "StrV s \<in> set sv")
      case True
      then have "StrV w \<notin> set wv" using False by simp
      moreover obtain i where "eval \<theta> f ?hs = Inr (Vector (map (\<lambda>j. if j = i then 1 else 0) [0..<length sv]))"
        using eval_one_hot [where f = f and name = "''Soil_Type''", OF s True] by blast
      ultimately show ?thesis
        using eval_one_hot_out [where f = f and name = "''Wilderness_Area''", OF w] by simp
    next
      case False
      then show ?thesis
        using eval_one_hot_out [where f = f and name = "''Soil_Type''", OF s] by simp
    qed
    have b: "sequence [eval \<theta> f ?es, eval \<theta> f ?ew] = Inl InvalidArgumentError"
    proof (cases "StrV s \<in> set sv")
      case True
      then have "StrV w \<notin> set wv" using False by simp
      moreover obtain i where "eval \<theta> f ?es = Inr (Vector (map (embeddings \<theta> k i) [0..<int_sqrt (length sv)]))"
        using eval_embedding [where f = f and name = "''Soil_Type''", OF s True] by blast
      ultimately show ?thesis
        using eval_embedding_out [where f = f and name = "''Wilderness_Area''", OF w] by simp
    next
      case False
      then show ?thesis
        using eval_embedding_out [where f = f and name = "''Soil_Type''", OF s] by simp
    qed
    show ?thesis
      using False eval_encoded_Inl [OF num a] eval_encoded_Inl [OF num b]
      by (cases ue) (simp_all add: e1 e2)
  qed
  have look: "(StrV s \<in> set v \<longrightarrow> (\<exists>i<length v. string_lookup h v None 0 s = Inr i \<and> v ! i = StrV s)) \<and>
          (StrV s \<notin> set v \<longrightarrow> string_lookup h v None 0 s = Inl InvalidArgumentError)" for h v s
    using string_lookup_in [of s v h] string_lookup_out [of s v h] by blast
  show ?thesis
    unfolding Let_def
    apply (intro conjI)
         apply (simp add: e1 l1)
        apply (simp add: e2 l2)
       apply (simp add: vocabulary_size_def)
      apply (simp add: vocabulary_size_def)
     apply (use look in blast)
    apply (use ev in blast)
    done
qed

theorem string_lookup_closed_vocabulary_witness:
  "eval sample_variables unseen_features
     (fst (encode_inputs sample_vocabularies (create_model_inputs sample_vocabularies) False 0))
     = Inl InvalidArgumentError \<and>
   string_lookups
     (fst (encode_inputs sample_vocabularies (create_model_inputs sample_vocabularies) False 0))
     = [([StrV ''soil_type_29'', StrV ''soil_type_12''], None, 0, Binary_mode),
        ([StrV ''area_type_1'', StrV ''area_type_3''], None, 0, Binary_mode)]"
proof -
  note t = string_lookup_closed_vocabulary [of "[StrV ''soil_type_29'', StrV ''soil_type_12'']"
        "[StrV ''area_type_1'', StrV ''area_type_3'']" 0, unfolded Let_def]
  note ev = t [THEN conjunct2, THEN conjunct2, THEN conjunct2, THEN conjunct2, THEN conjunct2,
        rule_format, where features = unseen_features and s = "''soil_type_7''"
        and w = "''area_type_1''" and \<theta> = sample_variables and use_embedding = False]
  have a: "(\<forall>name\<in>set NUMERIC_FEATURE_NAMES. \<exists>x. unseen_features name = Some (Num x)) \<and>
    unseen_features ''Soil_Type'' = Some (Str ''soil_type_7'') \<and>
    unseen_features ''Wilderness_Area'' = Some (Str ''area_type_1'')"
    using unseen_numeric by (simp add: unseen_features_def sample_features_def)
  have "eval sample_variables unseen_features
     (fst (encode_inputs sample_vocabularies (create_model_inputs sample_vocabularies) False 0))
     = Inl InvalidArgumentError"
    using ev [OF a] unfolding sample_vocabularies_def by simp
  moreover have "string_lookups
     (fst (encode_inputs sample_vocabularies (create_model_inputs sample_vocabularies) False 0))
     = [([StrV ''soil_type_29'', StrV ''soil_type_12''], None, 0, Binary_mode),
        ([StrV ''area_type_1'', StrV ''area_type_3''], None, 0, Binary_mode)]"
    using t [THEN conjunct1] unfolding sample_vocabularies_def .
  ultimately show ?thesis by simp
qed

subsection \<open>The wide and the deep branch\<close>

text \<open>
  Claim C7. In \<^verbatim>\<open>create_wide_and_deep_model\<close> the wide branch is the batch normalization
  of the sparse encoding (the numeric features as they are and the categorical features
  one-hot encoded), and goes to the output layer through the concatenation only: it
  has no dense layer and no rectifier. When the model predicts, this batch
  normalization is an affine map, entry by entry, with coefficients that depend on the
  weights only. The deep branch is built from the embedded encoding and passes through
  two rounds of a dense layer of 32 units, batch normalization, a rectifier and dropout.
  Each branch is computed from all the twelve input features.
\<close>

theorem wide_and_deep_branches:
  "let vocabularies = [(''Soil_Type'', sv), (''Wilderness_Area'', wv)];
       numeric = map (\<lambda>name. Expand_dims (Input name Float32)) NUMERIC_FEATURE_NAMES;
       sparse = Concatenate (numeric @
         [StringLookup sv None 0 Binary_mode (Expand_dims (Input ''Soil_Type'' String)),
          StringLookup wv None 0 Binary_mode (Expand_dims (Input ''Wilderness_Area'' String))]);
       embedded = Concatenate (numeric @
         [Embedding (k + 1) (length sv) (int_sqrt (length sv))
            (StringLookup sv None 0 Int_mode (Input ''Soil_Type'' String)),
          Embedding (k + 2) (length wv) (int_sqrt (length wv))
            (StringLookup wv None 0 Int_mode (Input ''Wilderness_Area'' String))]);
       wide = BatchNormalization k sparse;
       deep = Dropout dropout_rate (ReLU (BatchNormalization (k + 6) (Dense (k + 5) 32 Linear
               (Dropout dropout_rate (ReLU (BatchNormalization (k + 4) (Dense (k + 3) 32 Linear
                 embedded)))))))
   in create_wide_and_deep_model vocabularies k =
        (\<lparr>model_inputs = create_model_inputs vocabularies,
          model_outputs = Dense (k + 7) NUM_CLASSES Softmax (Concatenate [wide, deep])\<rparr>, k + 8) \<and>
      fst (encode_inputs vocabularies (create_model_inputs vocabularies) False k) = sparse \<and>
      fst (encode_inputs vocabularies (create_model_inputs vocabularies) True (k + 1)) = embedded \<and>
      input_names wide = set (FEATURE_NAMES vocabularies) \<and>
      input_names deep = set (FEATURE_NAMES vocabularies) \<and>
      shape_of wide = Inr [10 + length sv + length wv] \<and>
      shape_of deep = Inr [32] \<and>
      (\<forall>\<theta>. \<exists>a c. \<forall>features x. eval \<theta> features sparse = Inr (Vector x) \<longrightarrow>
         eval \<theta> features wide = Inr (Vector (map (\<lambda>i. a i * x ! i + c i) [0..<length x])))"
proof -
  let ?V = "[(''Soil_Type'', sv), (''Wilderness_Area'', wv)]"
  let ?numeric = "map (\<lambda>name. Expand_dims (Input name Float32)) NUMERIC_FEATURE_NAMES"
  let ?sparse = "Concatenate (?numeric @
         [StringLookup sv None 0 Binary_mode (Expand_dims (Input ''Soil_Type'' String)),
          StringLookup wv None 0 Binary_mode (Expand_dims (Input ''Wilderness_Area'' String))])"
  let ?embedded = "Concatenate (?numeric @
         [Embedding (k + 1) (length sv) (int_sqrt (length sv))
            (StringLookup sv None 0 Int_mode (Input ''Soil_Type'' String)),
          Embedding (k + 2) (length wv) (int_sqrt (length wv))
            (StringLookup wv None 0 Int_mode (Input ''Wilderness_Area'' String))])"
  let ?wide = "BatchNormalization k ?sparse"
  let ?deep = "Dropout dropout_rate (ReLU (BatchNormalization (k + 6) (Dense (k + 5) 32 Linear
               (Dropout dropout_rate (ReLU (BatchNormalization (k + 4) (Dense (k + 3) 32 Linear
                 ?embedded)))))))"
  have e1: "encode_inputs ?V (create_model_inputs ?V) False k = (?sparse, k)"
    by (rule encode_inputs_one_hot)
  have e2: "encode_inputs ?V (create_model_inputs ?V) True (Suc k) = (?embedded, k + 3)"
    using encode_inputs_embedding [of sv wv "Suc k"] by simp
  have h: "hidden_layers hidden_units ?embedded (k + 3) = (?deep, k + 7)"
    by (simp add: hidden_units_def numeral_eq_Suc)
  have m: "create_wide_and_deep_model ?V k =
        (\<lparr>model_inputs = create_model_inputs ?V,
          model_outputs = Dense (k + 7) NUM_CLASSES Softmax (Concatenate [?wide, ?deep])\<rparr>, k + 8)"
    unfolding create_wide_and_deep_model_def Let_def e1 e2 prod.case h by simp
  have s1: "shape_of ?sparse = Inr [10 + length sv + length wv]"
    by (rule shape_encoded) (simp_all add: vocabulary_size_def)
  have s2: "shape_of ?embedded = Inr [10 + int_sqrt (length sv) + int_sqrt (length wv)]"
    by (rule shape_encoded) simp_all
  have s3: "shape_of ?deep = Inr [32]"
    using s2 by simp
  have n1: "input_names ?wide = set (FEATURE_NAMES ?V)"
    by (simp add: set_FEATURE_NAMES input_names_numeric Un_commute insert_commute)
  have n2: "input_names ?deep = set (FEATURE_NAMES ?V)"
    by (simp add: set_FEATURE_NAMES input_names_numeric Un_commute insert_commute)
  have affine: "\<exists>a c. \<forall>features x. eval \<theta> features ?sparse = Inr (Vector x) \<longrightarrow>
         eval \<theta> features ?wide = Inr (Vector (map (\<lambda>i. a i * x ! i + c i) [0..<length x]))" for \<theta>
  proof -
    define a where "a i = gamma \<theta> k i / sqrt (moving_variance \<theta> k i + 0.001)" for i
    define c where "c i = beta \<theta> k i - a i * moving_mean \<theta> k i" for i
    have "\<forall>features x. eval \<theta> features ?sparse = Inr (Vector x) \<longrightarrow>
         eval \<theta> features ?wide = Inr (Vector (map (\<lambda>i. a i * x ! i + c i) [0..<length x]))"
      using eval_batch_normalization [of \<theta> _ ?sparse _ k] by (simp add: a_def c_def)
    then show ?thesis by blast
  qed
  show ?thesis
    unfolding Let_def using m e1 e2 n1 n2 s1 s3 affine by simp
qed

theorem wide_and_deep_branches_witness:
  "\<exists>x a c. eval sample_variables sample_features
       (fst (encode_inputs sample_vocabularies (create_model_inputs sample_vocabularies) False 0))
       = Inr (Vector x) \<and>
     eval sample_variables sample_features (BatchNormalization 0
       (fst (encode_inputs sample_vocabularies (create_model_inputs sample_vocabularies) False 0)))
       = Inr (Vector (map (\<lambda>i. a i * x ! i + c i) [0..<length x]))"
proof -
  let ?sv = "[StrV ''soil_type_29'', StrV ''soil_type_12'']"
  let ?wv = "[StrV ''area_type_1'', StrV ''area_type_3'']"
  let ?sparse = "Concatenate (map (\<lambda>name. Expand_dims (Input name Float32)) NUMERIC_FEATURE_NAMES @
         [StringLookup ?sv None 0 Binary_mode (Expand_dims (Input ''Soil_Type'' String)),
          StringLookup ?wv None 0 Binary_mode (Expand_dims (Input ''Wilderness_Area'' String))])"
  note t = wide_and_deep_branches [of ?sv ?wv 0, unfolded Let_def]
  note enc = t [THEN conjunct2, THEN conjunct1]
  note aff = t [THEN conjunct2, THEN conjunct2, THEN conjunct2, THEN conjunct2, THEN conjunct2,
      THEN conjunct2, THEN conjunct2, rule_format, of sample_variables]
  have wf: "well_formed [(''Soil_Type'', ?sv), (''Wilderness_Area'', ?wv)] sample_features"
    using well_formed_sample by (simp add: sample_vocabularies_def)
  obtain x where x: "eval sample_variables sample_features ?sparse = Inr (Vector x)"
    using eval_sparse [OF wf] by blast
  from aff obtain a c where ac: "\<forall>features x. eval sample_variables features ?sparse = Inr (Vector x) \<longrightarrow>
      eval sample_variables features (BatchNormalization 0 ?sparse)
        = Inr (Vector (map (\<lambda>i. a i * x ! i + c i) [0..<length x]))"
    by blast
  have "eval sample_variables sample_features (BatchNormalization 0 ?sparse)
        = Inr (Vector (map (\<lambda>i. a i * x ! i + c i) [0..<length x]))"
    using ac x by blast
  then show ?thesis
    unfolding sample_vocabularies_def enc using x by blast
qed

subsection \<open>The output layer\<close>

text \<open>
  Claim C10, as amended. Each of the three constructors ends in a dense layer with
  softmax activation and \<open>NUM_CLASSES = 7\<close> units, and the output of each model has
  the shape \<open>[7]\<close>. So each model maps every input record that gives a number for each
  numeric feature and a string of the vocabulary for each categorical feature to a
  vector of 7 probabilities, and whenever a model returns a value at all, the value is
  such a vector. On a record that gives numbers and strings, but for one of the two
  categorical features a string outside its vocabulary, each of the three models raises
  \<^verbatim>\<open>InvalidArgumentError\<close>. (Real arithmetic: the entries are positive and add up to 1.)
\<close>

theorem softmax_output_layer:
  "let vocabularies = [(''Soil_Type'', sv), (''Wilderness_Area'', wv)];
       inputs = create_model_inputs vocabularies
   in NUM_CLASSES = 7 \<and>
      (\<exists>hb hw hc.
         create_baseline_model vocabularies k =
           (\<lparr>model_inputs = inputs, model_outputs = Dense (k + 4) NUM_CLASSES Softmax hb\<rparr>, k + 5) \<and>
         create_wide_and_deep_model vocabularies k =
           (\<lparr>model_inputs = inputs, model_outputs = Dense (k + 7) NUM_CLASSES Softmax hw\<rparr>, k + 8) \<and>
         create_deep_and_cross_model vocabularies k =
           Inr (\<lparr>model_inputs = inputs, model_outputs = Dense (k + 9) NUM_CLASSES Softmax hc\<rparr>, k + 10) \<and>
         (\<forall>outputs \<in> {Dense (k + 4) NUM_CLASSES Softmax hb, Dense (k + 7) NUM_CLASSES Softmax hw,
                       Dense (k + 9) NUM_CLASSES Softmax hc}.
            shape_of outputs = Inr [7] \<and>
            (\<forall>\<theta> features. well_formed vocabularies features \<longrightarrow>
               (\<exists>p. eval \<theta> features outputs = Inr (Vector p) \<and> length p = 7 \<and>
                    probability_vector p)) \<and>
            (\<forall>\<theta> features v. eval \<theta> features outputs = Inr v \<longrightarrow>
               (\<exists>p. v = Vector p \<and> length p = 7 \<and> probability_vector p)) \<and>
            (\<forall>\<theta> features s w.
               (\<forall>name\<in>set NUMERIC_FEATURE_NAMES. \<exists>x. features name = Some (Num x)) \<and>
               features ''Soil_Type'' = Some (Str s) \<and>
               features ''Wilderness_Area'' = Some (Str w) \<and>
               (StrV s \<notin> set sv \<or> StrV w \<notin> set wv) \<longrightarrow>
               eval \<theta> features outputs = Inl InvalidArgumentError)))"
proof -
  let ?V = "[(''Soil_Type'', sv), (''Wilderness_Area'', wv)]"
  let ?numeric = "map (\<lambda>name. Expand_dims (Input name Float32)) NUMERIC_FEATURE_NAMES"
  let ?sparse = "Concatenate (?numeric @
         [StringLookup sv None 0 Binary_mode (Expand_dims (Input ''Soil_Type'' String)),
          StringLookup wv None 0 Binary_mode (Expand_dims (Input ''Wilderness_Area'' String))])"
  let ?emb = "\<lambda>i. Concatenate (?numeric @
         [Embedding i (length sv) (int_sqrt (length sv))
            (StringLookup sv None 0 Int_mode (Input ''Soil_Type'' String)),
          Embedding (Suc i) (length wv) (int_sqrt (length wv))
            (StringLookup wv None 0 Int_mode (Input ''Wilderness_Area'' String))])"
  let ?d = "10 + int_sqrt (length sv) + int_sqrt (length wv)"
  have s_sparse: "shape_of ?sparse = Inr [10 + length sv + length wv]"
    by (rule shape_encoded) (simp_all add: vocabulary_size_def)
  have s_emb: "shape_of (?emb i) = Inr [?d]" for i
    by (rule shape_encoded) simp_all
  obtain hb where b: "create_baseline_model ?V k =
      (\<lparr>model_inputs = create_model_inputs ?V,
        model_outputs = Dense (k + 4) NUM_CLASSES Softmax hb\<rparr>, k + 5)"
    and hb: "hb = fst (hidden_layers hidden_units ?sparse k)"
    using baseline_eq by blast
  have b_shape: "shape_of hb = Inr [32]"
    unfolding hb using shape_hidden_layers [OF s_sparse hidden_units_pos] by (simp add: hidden_units_def)
  have b_eval: "\<exists>y. eval \<theta> f hb = Inr (Vector y)" if wf: "well_formed ?V f" for \<theta> f
  proof -
    obtain x where "eval \<theta> f ?sparse = Inr (Vector x)" using eval_sparse [OF wf] by blast
    from eval_hidden_layers [OF this hidden_units_pos] show ?thesis unfolding hb by blast
  qed
  let ?wide = "BatchNormalization k ?sparse"
  let ?deep = "Dropout dropout_rate (ReLU (BatchNormalization (k + 6) (Dense (k + 5) 32 Linear
               (Dropout dropout_rate (ReLU (BatchNormalization (k + 4) (Dense (k + 3) 32 Linear
                 (?emb (k + 1)))))))))"
  let ?hw = "Concatenate [?wide, ?deep]"
  have w: "create_wide_and_deep_model ?V k =
      (\<lparr>model_inputs = create_model_inputs ?V,
        model_outputs = Dense (k + 7) NUM_CLASSES Softmax ?hw\<rparr>, k + 8)"
  proof -
    have e2: "encode_inputs ?V (create_model_inputs ?V) True (Suc k) = (?emb (k + 1), k + 3)"
      using encode_inputs_embedding [of sv wv "Suc k"] by simp
    have h: "hidden_layers hidden_units (?emb (k + 1)) (k + 3) = (?deep, k + 7)"
      by (simp add: hidden_units_def numeral_eq_Suc)
    show ?thesis
      unfolding create_wide_and_deep_model_def Let_def encode_inputs_one_hot e2 prod.case h by simp
  qed
  have w_shape: "shape_of ?hw = Inr [10 + length sv + length wv + 32]"
    using s_sparse s_emb [of "k + 1"] by (simp add: concatenate_shape_def)
  have w_eval: "\<exists>y. eval \<theta> f ?hw = Inr (Vector y)" if wf: "well_formed ?V f" for \<theta> f
  proof -
    obtain x where x: "eval \<theta> f ?sparse = Inr (Vector x)" using eval_sparse [OF wf] by blast
    have "\<exists>z. length z = ?d \<and> eval \<theta> f (?emb (k + 1)) = Inr (Vector z)"
      by (rule eval_embedded [OF wf])
    then obtain z where z: "eval \<theta> f (?emb (k + 1)) = Inr (Vector z)" by blast
    have "\<exists>y. eval \<theta> f ?wide = Inr (Vector y)"
      using x by (simp add: batch_normalization_call_def)
    moreover have "\<exists>y. eval \<theta> f ?deep = Inr (Vector y)"
      using z by (simp add: dense_call_def activate_def batch_normalization_call_def relu_call_def)
    ultimately show ?thesis by (auto simp: concatenate_def)
  qed
  have e: "encode_inputs ?V (create_model_inputs ?V) True k = (?emb k, k + 2)"
    using encode_inputs_embedding [of sv wv k] by simp
  let ?c1 = "Add (Multiply (?emb k) (Dense (k + 2) ?d Linear (?emb k))) (?emb k)"
  let ?c2 = "Add (Multiply (?emb k) (Dense (k + 3) ?d Linear ?c1)) ?c1"
  have s1: "shape_of ?c1 = Inr [?d]"
    by (rule shape_cross_step [OF s_emb s_emb]) simp
  have s2: "shape_of ?c2 = Inr [?d]"
    by (rule shape_cross_step [OF s_emb s1]) simp
  have loop: "cross_loop hidden_units (?emb k) (?emb k) (k + 2) = Inr (?c2, k + 4)"
    unfolding hidden_units_def
    by (simp only: cross_loop.simps last_dim_vector [OF s_emb] last_dim_vector [OF s1] sum.case) simp
  obtain deep k3 where h: "hidden_layers hidden_units (?emb k) (Suc (k + 4)) = (deep, k3)"
    by (cases "hidden_layers hidden_units (?emb k) (Suc (k + 4))") auto
  have k3: "k3 = k + 9"
    using hidden_layers_snd [of hidden_units "?emb k" "Suc (k + 4)"] h by (simp add: hidden_units_def)
  have deep: "deep = fst (hidden_layers hidden_units (?emb k) (Suc (k + 4)))" using h by simp
  let ?hc = "Concatenate [BatchNormalization (k + 4) ?c2, deep]"
  have c: "create_deep_and_cross_model ?V k =
         Inr (\<lparr>model_inputs = create_model_inputs ?V,
               model_outputs = Dense (k + 9) NUM_CLASSES Softmax ?hc\<rparr>, k + 10)"
    unfolding create_deep_and_cross_model_def Let_def e prod.case loop sum.case h k3 by simp
  have deep_shape: "shape_of deep = Inr [32]"
    unfolding deep using shape_hidden_layers [OF s_emb hidden_units_pos] by (simp add: hidden_units_def)
  have c_shape: "shape_of ?hc = Inr [?d + 32]"
    using s2 deep_shape by (simp add: concatenate_shape_def)
  have c_eval: "\<exists>y. eval \<theta> f ?hc = Inr (Vector y)" if wf: "well_formed ?V f" for \<theta> f
  proof -
    obtain x where x: "length x = ?d" "eval \<theta> f (?emb k) = Inr (Vector x)"
      using eval_embedded [OF wf] by blast
    have pos: "0 < length x" using x(1) by simp
    have sx: "shape_of (?emb k) = Inr [length x]" using s_emb x(1) by simp
    obtain y where y: "eval \<theta> f ?c2 = Inr (Vector y)"
      using eval_cross_branch [OF x(2) pos sx loop x(2) refl sx] by blast
    obtain z where z: "eval \<theta> f deep = Inr (Vector z)"
      unfolding deep using eval_hidden_layers [OF x(2) hidden_units_pos] by blast
    show ?thesis using y z by (simp add: batch_normalization_call_def concatenate_def)
  qed
  note pb = softmax_output_property [of hb 32 ?V "k + 4", OF b_shape b_eval]
  note pw = softmax_output_property [of ?hw _ ?V "k + 7", OF w_shape w_eval]
  note pc = softmax_output_property [of ?hc _ ?V "k + 9", OF c_shape c_eval]
  have raise:
    "eval \<theta> f (Dense (k + 4) NUM_CLASSES Softmax hb) = Inl InvalidArgumentError"
    "eval \<theta> f (Dense (k + 7) NUM_CLASSES Softmax ?hw) = Inl InvalidArgumentError"
    "eval \<theta> f (Dense (k + 9) NUM_CLASSES Softmax ?hc) = Inl InvalidArgumentError"
    if out: "(\<forall>name\<in>set NUMERIC_FEATURE_NAMES. \<exists>x. f name = Some (Num x)) \<and>
        f ''Soil_Type'' = Some (Str s) \<and> f ''Wilderness_Area'' = Some (Str w) \<and>
        (StrV s \<notin> set sv \<or> StrV w \<notin> set wv)" for \<theta> f s w
  proof -
    note un = eval_models_unseen [where f = f and s = s and w = w and sv = sv and wv = wv
        and \<theta> = \<theta> and k = k,
        OF out [THEN conjunct1] out [THEN conjunct2, THEN conjunct1]
           out [THEN conjunct2, THEN conjunct2, THEN conjunct1]
           out [THEN conjunct2, THEN conjunct2, THEN conjunct2]]
    show "eval \<theta> f (Dense (k + 4) NUM_CLASSES Softmax hb) = Inl InvalidArgumentError"
      using un(1) unfolding b by (simp only: fst_conv model.simps)
    show "eval \<theta> f (Dense (k + 7) NUM_CLASSES Softmax ?hw) = Inl InvalidArgumentError"
      using un(2) unfolding w by (simp only: fst_conv model.simps)
    show "eval \<theta> f (Dense (k + 9) NUM_CLASSES Softmax ?hc) = Inl InvalidArgumentError"
      using un(3) unfolding c by (simp only: sum.case prod.case model.simps)
  qed
  have conjI4: "A \<and> B \<and> C \<and> (\<forall>\<theta> f s w. H f s w \<longrightarrow> D \<theta> f)"
    if "A \<and> B \<and> C" and "\<And>\<theta> f s w. H f s w \<Longrightarrow> D \<theta> f"
    for A B C and H :: "(string \<Rightarrow> feature option) \<Rightarrow> string \<Rightarrow> string \<Rightarrow> bool"
      and D :: "variables \<Rightarrow> (string \<Rightarrow> feature option) \<Rightarrow> bool"
    using that by blast
  have ball: "\<forall>outputs \<in> {Dense (k + 4) NUM_CLASSES Softmax hb, Dense (k + 7) NUM_CLASSES Softmax ?hw,
                       Dense (k + 9) NUM_CLASSES Softmax ?hc}.
            shape_of outputs = Inr [7] \<and>
            (\<forall>\<theta> features. well_formed ?V features \<longrightarrow>
               (\<exists>p. eval \<theta> features outputs = Inr (Vector p) \<and> length p = 7 \<and>
                    probability_vector p)) \<and>
            (\<forall>\<theta> features v. eval \<theta> features outputs = Inr v \<longrightarrow>
               (\<exists>p. v = Vector p \<and> length p = 7 \<and> probability_vector p)) \<and>
            (\<forall>\<theta> features s w.
               (\<forall>name\<in>set NUMERIC_FEATURE_NAMES. \<exists>x. features name = Some (Num x)) \<and>
               features ''Soil_Type'' = Some (Str s) \<and>
               features ''Wilderness_Area'' = Some (Str w) \<and>
               (StrV s \<notin> set sv \<or> StrV w \<notin> set wv) \<longrightarrow>
               eval \<theta> features outputs = Inl InvalidArgumentError)"
  proof
    fix outputs
    assume "outputs \<in> {Dense (k + 4) NUM_CLASSES Softmax hb, Dense (k + 7) NUM_CLASSES Softmax ?hw,
                       Dense (k + 9) NUM_CLASSES Softmax ?hc}"
    then consider "outputs = Dense (k + 4) NUM_CLASSES Softmax hb"
      | "outputs = Dense (k + 7) NUM_CLASSES Softmax ?hw"
      | "outputs = Dense (k + 9) NUM_CLASSES Softmax ?hc"
      by blast
    then show "shape_of outputs = Inr [7] \<and>
            (\<forall>\<theta> features. well_formed ?V features \<longrightarrow>
               (\<exists>p. eval \<theta> features outputs = Inr (Vector p) \<and> length p = 7 \<and>
                    probability_vector p)) \<and>
            (\<forall>\<theta> features v. eval \<theta> features outputs = Inr v \<longrightarrow>
               (\<exists>p. v = Vector p \<and> length p = 7 \<and> probability_vector p)) \<and>
            (\<forall>\<theta> features s w.
               (\<forall>name\<in>set NUMERIC_FEATURE_NAMES. \<exists>x. features name = Some (Num x)) \<and>
               features ''Soil_Type'' = Some (Str s) \<and>
               features ''Wilderness_Area'' = Some (Str w) \<and>
               (StrV s \<notin> set sv \<or> StrV w \<notin> set wv) \<longrightarrow>
               eval \<theta> features outputs = Inl InvalidArgumentError)"
    proof cases
      case 1 show ?thesis unfolding 1 by (rule conjI4 [OF pb raise(1)])
    next
      case 2 show ?thesis unfolding 2 by (rule conjI4 [OF pw raise(2)])
    next
      case 3 show ?thesis unfolding 3 by (rule conjI4 [OF pc raise(3)])
    qed
  qed
  show ?thesis
    unfolding Let_def
    by (rule conjI [OF NUM_CLASSES_7], rule exI [of _ hb], rule exI [of _ ?hw],
        rule exI [of _ ?hc], intro conjI, rule b, rule w, rule c, rule ball)
qed

theorem softmax_output_layer_witness:
  "(\<exists>p. eval sample_variables sample_features
       (model_outputs (fst (create_baseline_model sample_vocabularies 0))) = Inr (Vector p) \<and>
     length p = 7 \<and> probability_vector p) \<and>
   eval sample_variables unseen_area_features
       (model_outputs (fst (create_baseline_model sample_vocabularies 0))) = Inl InvalidArgumentError"
proof -
  let ?sv = "[StrV ''soil_type_29'', StrV ''soil_type_12'']"
  let ?wv = "[StrV ''area_type_1'', StrV ''area_type_3'']"
  have wf: "well_formed [(''Soil_Type'', ?sv), (''Wilderness_Area'', ?wv)] sample_features"
    using well_formed_sample by (simp add: sample_vocabularies_def)
  have un: "(\<forall>name\<in>set NUMERIC_FEATURE_NAMES. \<exists>x. unseen_area_features name = Some (Num x)) \<and>
      unseen_area_features ''Soil_Type'' = Some (Str ''soil_type_29'') \<and>
      unseen_area_features ''Wilderness_Area'' = Some (Str ''area_type_2'') \<and>
      (StrV ''soil_type_29'' \<notin> set ?sv \<or> StrV ''area_type_2'' \<notin> set ?wv)"
    by (simp add: unseen_area_features_def sample_features_def NUMERIC_FEATURE_NAMES_def)
  from softmax_output_layer [of ?sv ?wv 0, unfolded Let_def, THEN conjunct2]
  obtain hb hw hc where
    b: "create_baseline_model [(''Soil_Type'', ?sv), (''Wilderness_Area'', ?wv)] 0 =
           (\<lparr>model_inputs = create_model_inputs [(''Soil_Type'', ?sv), (''Wilderness_Area'', ?wv)],
             model_outputs = Dense (0 + 4) NUM_CLASSES Softmax hb\<rparr>, 0 + 5)"
    and p: "\<forall>outputs \<in> {Dense (0 + 4) NUM_CLASSES Softmax hb, Dense (0 + 7) NUM_CLASSES Softmax hw,
                       Dense (0 + 9) NUM_CLASSES Softmax hc}.
            shape_of outputs = Inr [7] \<and>
            (\<forall>\<theta> features. well_formed [(''Soil_Type'', ?sv), (''Wilderness_Area'', ?wv)] features \<longrightarrow>
               (\<exists>p. eval \<theta> features outputs = Inr (Vector p) \<and> length p = 7 \<and>
                    probability_vector p)) \<and>
            (\<forall>\<theta> features v. eval \<theta> features outputs = Inr v \<longrightarrow>
               (\<exists>p. v = Vector p \<and> length p = 7 \<and> probability_vector p)) \<and>
            (\<forall>\<theta> features s w.
               (\<forall>name\<in>set NUMERIC_FEATURE_NAMES. \<exists>x. features name = Some (Num x)) \<and>
               features ''Soil_Type'' = Some (Str s) \<and>
               features ''Wilderness_Area'' = Some (Str w) \<and>
               (StrV s \<notin> set ?sv \<or> StrV w \<notin> set ?wv) \<longrightarrow>
               eval \<theta> features outputs = Inl InvalidArgumentError)"
    by (elim exE conjE) (rule that)
  note q = bspec [OF p insertI1]
  have "\<exists>p. eval sample_variables sample_features (Dense (0 + 4) NUM_CLASSES Softmax hb) = Inr (Vector p) \<and> length p = 7 \<and>
                    probability_vector p"
    by (rule q [THEN conjunct2, THEN conjunct1, rule_format, OF wf])
  moreover have "eval sample_variables unseen_area_features (Dense (0 + 4) NUM_CLASSES Softmax hb)
      = Inl InvalidArgumentError"
    by (rule q [THEN conjunct2, THEN conjunct2, THEN conjunct2, rule_format, OF un])
  ultimately show ?thesis
    unfolding sample_vocabularies_def by (simp only: b fst_conv model.simps simp_thms)
qed

text \<open>The claim as it was stated, for any input record, fails on a record whose soil
  type is not in the vocabulary: the three models raise an error on it.\<close>

theorem softmax_output_unseen_counterexample:
  "unseen_features ''Soil_Type'' = Some (Str ''soil_type_7'') \<and>
   eval sample_variables unseen_features
     (model_outputs (fst (create_baseline_model sample_vocabularies 0))) = Inl InvalidArgumentError \<and>
   eval sample_variables unseen_features
     (model_outputs (fst (create_wide_and_deep_model sample_vocabularies 0))) = Inl InvalidArgumentError \<and>
   (case create_deep_and_cross_model sample_vocabularies 0 of
      Inl e \<Rightarrow> Inl e
    | Inr (m, k) \<Rightarrow> eval sample_variables unseen_features (model_outputs m)) = Inl InvalidArgumentError"
  unfolding sample_vocabularies_def
  using eval_models_unseen [OF unseen_numeric unseen_soil(1) unseen_area disjI1 [OF unseen_soil(2)], of sample_variables _ 0] unseen_soil(1)
  by simp

subsection \<open>The events of an experiment\<close>

lemma fit_one_epoch:
  "fit rt m d (Suc 0) events =
     (case train_epoch rt m d 0 of
        Inl e \<Rightarrow> (Inl e, events @ [Fit m d (Suc 0)])
      | Inr (l, a) \<Rightarrow> (Inr [(l, a)], events @ [Fit m d (Suc 0), Print (Progress (Suc 0) l a)]))"
  by (simp add: fit_def print_def split: sum.splits)

text \<open>
  Claim C8, as amended. For every model, \<^verbatim>\<open>run_experiment\<close> compiles the model with the
  Adam optimizer (learning rate 0.001), the sparse categorical cross-entropy loss and
  the sparse categorical accuracy metric, then fits it on the training data set for one
  epoch, then evaluates it on the test data set, in this order. When the two files
  exist and the two calls return, it prints four things: the message
  \<^verbatim>\<open>Start training the model...\<close>, the progress display of the fit, with the loss and
  the accuracy of the epoch, the message \<^verbatim>\<open>Model training finished\<close>, and the test
  accuracy, rounded to two places; the evaluation prints nothing. When one of the files
  is missing, it raises \<^verbatim>\<open>ValueError\<close> after the compilation, and an error that the fit
  or the evaluation raises ends the run at that call. In every case the calls of the
  framework are a beginning of compile, fit, evaluate, the first line printed, if any,
  is the start message, and no model is saved.
\<close>

theorem run_experiment_events:
  "let train_dataset =
         \<lparr>csv_file_path = ''train_data.csv'', dataset_batch_size = 265, column_names = CSV_HEADER,
          column_defaults = COLUMN_DEFAULTS, label_name = ''Cover_Type'', dataset_num_epochs = 1,
          header = True, shuffle = True\<rparr>;
       test_dataset = train_dataset\<lparr>csv_file_path := ''test_data.csv'', shuffle := False\<rparr>;
       compiled = Compile m (Adam 0.001) SparseCategoricalCrossentropy [SparseCategoricalAccuracy];
       fitted = Fit m train_dataset 1;
       evaluated = Evaluate m test_dataset 0;
       start = Print (Text ''Start training the model...'');
       finished = Print (Text ''Model training finished'');
       files = (file_exists rt ''train_data.csv'' \<and> file_exists rt ''test_data.csv'');
       result = fst (run_experiment rt m events);
       new = drop (length events) (snd (run_experiment rt m events))
   in take (length events) (snd (run_experiment rt m events)) = events \<and>
      (files \<and> train_epoch rt m train_dataset 0 = Inr (l, a) \<and>
       test_metrics rt m test_dataset = Inr (test_loss, accuracy) \<longrightarrow>
         result = Inr () \<and>
         new = [compiled, start, fitted, Print (Progress 1 l a), finished, evaluated,
                Print (Test_accuracy (round2 (accuracy * 100)))]) \<and>
      (\<not> files \<longrightarrow> result = Inl ValueError \<and> new = [compiled]) \<and>
      (files \<and> train_epoch rt m train_dataset 0 = Inl e \<longrightarrow>
         result = Inl e \<and> new = [compiled, start, fitted]) \<and>
      (files \<and> train_epoch rt m train_dataset 0 = Inr (l, a) \<and>
       test_metrics rt m test_dataset = Inl e \<longrightarrow>
         result = Inl e \<and>
         new = [compiled, start, fitted, Print (Progress 1 l a), finished, evaluated]) \<and>
      (\<exists>n>0. calls new = take n [compiled, fitted, evaluated]) \<and>
      (result = Inr () \<longrightarrow> calls new = [compiled, fitted, evaluated]) \<and>
      (printed new \<noteq> [] \<longrightarrow> hd (printed new) = Text ''Start training the model...'') \<and>
      saved new = []"
proof -
  let ?train = "\<lparr>csv_file_path = ''train_data.csv'', dataset_batch_size = 265, column_names = CSV_HEADER,
          column_defaults = COLUMN_DEFAULTS, label_name = ''Cover_Type'', dataset_num_epochs = 1,
          header = True, shuffle = True\<rparr>"
  let ?test = "?train\<lparr>csv_file_path := ''test_data.csv'', shuffle := False\<rparr>"
  let ?compiled = "Compile m (Adam 0.001) SparseCategoricalCrossentropy [SparseCategoricalAccuracy]"
  let ?start = "Print (Text ''Start training the model...'')"
  let ?finished = "Print (Text ''Model training finished'')"
  consider
      (missing) "\<not> (file_exists rt ''train_data.csv'' \<and> file_exists rt ''test_data.csv'')"
    | (fit_raises) e' where "file_exists rt ''train_data.csv''" "file_exists rt ''test_data.csv''"
        "train_epoch rt m ?train 0 = Inl e'"
    | (evaluate_raises) l' a' e' where "file_exists rt ''train_data.csv''" "file_exists rt ''test_data.csv''"
        "train_epoch rt m ?train 0 = Inr (l', a')" "test_metrics rt m ?test = Inl e'"
    | (returns) l' a' tl' acc' where "file_exists rt ''train_data.csv''" "file_exists rt ''test_data.csv''"
        "train_epoch rt m ?train 0 = Inr (l', a')" "test_metrics rt m ?test = Inr (tl', acc')"
    by (cases "train_epoch rt m ?train 0"; cases "test_metrics rt m ?test") auto
  then show ?thesis
  proof cases
    case missing
    then have r: "run_experiment rt m events = (Inl ValueError, events @ [?compiled])"
      by (auto simp: run_experiment_def compile_def get_dataset_from_csv_def learning_rate_def
          train_data_file_def test_data_file_def)
    show ?thesis
      unfolding Let_def r using missing
      by (auto intro!: exI [of _ 1])
  next
    case fit_raises
    then have r: "run_experiment rt m events = (Inl e', events @ [?compiled, ?start, Fit m ?train 1])"
      by (simp add: run_experiment_def compile_def print_def get_dataset_from_csv_def
          learning_rate_def train_data_file_def test_data_file_def batch_size_def num_epochs_def
          TARGET_FEATURE_NAME_def fit_one_epoch)
    show ?thesis
      unfolding Let_def r using fit_raises
      by (auto intro!: exI [of _ 2])
  next
    case evaluate_raises
    then have r: "run_experiment rt m events =
        (Inl e', events @ [?compiled, ?start, Fit m ?train 1, Print (Progress 1 l' a'), ?finished,
                           Evaluate m ?test 0])"
      by (simp add: run_experiment_def compile_def print_def get_dataset_from_csv_def
          learning_rate_def train_data_file_def test_data_file_def batch_size_def num_epochs_def
          TARGET_FEATURE_NAME_def fit_one_epoch evaluate_def)
    show ?thesis
      unfolding Let_def r using evaluate_raises
      by (auto intro!: exI [of _ 3])
  next
    case returns
    then have r: "run_experiment rt m events =
        (Inr (), events @ [?compiled, ?start, Fit m ?train 1, Print (Progress 1 l' a'), ?finished,
                           Evaluate m ?test 0, Print (Test_accuracy (round2 (acc' * 100)))])"
      by (simp add: run_experiment_def compile_def print_def get_dataset_from_csv_def
          learning_rate_def train_data_file_def test_data_file_def batch_size_def num_epochs_def
          TARGET_FEATURE_NAME_def fit_one_epoch evaluate_def)
    show ?thesis
      unfolding Let_def r using returns
      by (auto intro!: exI [of _ 3])
  qed
qed


theorem run_experiment_events_witness:
  "fst (run_experiment sample_runtime (fst (create_baseline_model sample_vocabularies 0)) []) = Inr () \<and>
   printed (snd (run_experiment sample_runtime (fst (create_baseline_model sample_vocabularies 0)) [])) =
     [Text ''Start training the model...'', Progress 1 (1 / 2) (3 / 4),
      Text ''Model training finished'', Test_accuracy 87.5] \<and>
   fst (run_experiment missing_files_runtime (fst (create_baseline_model sample_vocabularies 0)) [])
     = Inl ValueError \<and>
   printed (snd (run_experiment missing_files_runtime (fst (create_baseline_model sample_vocabularies 0)) []))
     = []"
proof -
  let ?m = "fst (create_baseline_model sample_vocabularies 0)"
  let ?train = "\<lparr>csv_file_path = ''train_data.csv'', dataset_batch_size = 265, column_names = CSV_HEADER,
          column_defaults = COLUMN_DEFAULTS, label_name = ''Cover_Type'', dataset_num_epochs = 1,
          header = True, shuffle = True\<rparr>"
  have h: "(file_exists sample_runtime ''train_data.csv'' \<and> file_exists sample_runtime ''test_data.csv'') \<and>
      train_epoch sample_runtime ?m ?train 0 = Inr (1 / 2, 3 / 4) \<and>
      test_metrics sample_runtime ?m (?train\<lparr>csv_file_path := ''test_data.csv'', shuffle := False\<rparr>)
        = Inr (1 / 4, 7 / 8)"
    by (simp add: sample_runtime_def)
  have r: "round2 (7 / 8 * 100) = 87.5"
    by (simp add: round2_def round_half_even_def)
  have n: "\<not> (file_exists missing_files_runtime ''train_data.csv'' \<and>
      file_exists missing_files_runtime ''test_data.csv'')"
    by (simp add: missing_files_runtime_def)
  note t = run_experiment_events [where m = ?m and rt = sample_runtime and events = "[]"
      and l = "1 / 2" and a = "3 / 4" and test_loss = "1 / 4" and accuracy = "7 / 8",
      unfolded Let_def, THEN conjunct2, THEN conjunct1, THEN mp, OF h]
  note u = run_experiment_events [where m = ?m and rt = missing_files_runtime and events = "[]",
      unfolded Let_def, THEN conjunct2, THEN conjunct2, THEN conjunct1, THEN mp, OF n]
  show ?thesis
    using t u by (simp only: drop_0 list.size printed.simps r simp_thms)
qed

text \<open>The claim as it was stated, that the printed test accuracy is the only visible
  output, fails: the first line printed is a progress message.\<close>

theorem run_experiment_prints_counterexample:
  "printed (snd (run_experiment sample_runtime (fst (create_baseline_model sample_vocabularies 0)) [])) =
     [Text ''Start training the model...'', Progress 1 (1 / 2) (3 / 4),
      Text ''Model training finished'', Test_accuracy 87.5] \<and>
   Text ''Start training the model...'' \<noteq> Test_accuracy 87.5"
  by (simp add: run_experiment_def compile_def print_def get_dataset_from_csv_def fit_def
      evaluate_def sample_runtime_def train_data_file_def test_data_file_def num_epochs_def
      round2_def round_half_even_def)

end
